theory Spec2Isabelle
  imports Main
begin

section \<open>Data model of the realtime node handlers\<close>

text \<open>
  The composable \<open>useMindmapRealtimeNodes\<close> closes over reactive references
  (\<open>elements\<close>, \<open>editingNode\<close>, \<open>selectedNode\<close>, \<open>isSaving\<close>, ...) and over the
  renderer object. The references become the fields of one state record that every
  handler takes and returns. JavaScript numbers are integers here, a property that may be
  missing is an \<open>option\<close>, and a \<open>Map\<close> is a partial function.

  \<open>node.data\<close>: the properties the handlers read or write.
\<close>

record size_rect =
  width :: int
  height :: int

record node_data =
  d_label :: "string option"
  d_completed :: "bool option"
  d_rect :: "size_rect option"
  d_order :: "int option"
  d_fixedWidth :: "int option"
  d_fixedHeight :: "int option"

text \<open>
  A node as a remote payload carries it: an \<open>id\<close> and possibly \<open>data\<close>.
\<close>

record node_patch =
  np_id :: string
  np_data :: "node_data option"

text \<open>
  \<open>elements.value\<close> is one array that holds nodes and edges alike; the handlers tell them
  apart by the truthiness of \<open>source\<close> and \<open>target\<close>. An empty string stands for a
  missing (falsy) \<open>source\<close> or \<open>target\<close>.
\<close>

record element =
  el_id :: string
  el_data :: "node_data option"
  el_source :: string
  el_target :: string

type_synonym position = "int \<times> int"

record selection =
  sel_from :: int
  sel_to :: int
  sel_anchor :: int
  sel_head :: int

text \<open>
  The editing widget as far as the handlers look at it: \<open>isDestroyed\<close>, whether
  \<open>view\<close> is set, \<open>isFocused\<close>, whether \<open>document.activeElement\<close> is the view's DOM
  node, the selection, \<open>state.doc.content.size\<close>, the serialised document and
  \<open>getHTML()\<close>.
\<close>

record editor =
  ed_isDestroyed :: bool
  ed_hasView :: bool
  ed_isFocused :: bool
  ed_domActive :: bool
  ed_selection :: selection
  ed_docSize :: int
  ed_content :: string
  ed_html :: string

record preserved_state =
  ps_nodeId :: string
  ps_isFocused :: bool
  ps_selection :: selection
  ps_content :: string

text \<open>
  The renderer object: its \<open>nodes\<close> and \<open>edges\<close> arrays,
  \<open>options.nodeCreationOrder\<close>, \<open>nodeSizeCache\<close>, \<open>positions\<close> (which may be unset),
  the editor instances behind \<open>getEditorInstance\<close>, and the width and height that the
  handlers write on a node's on-screen group.
\<close>

record renderer =
  r_nodes :: "element list"
  r_edges :: "element list"
  r_order :: "string \<rightharpoonup> int"
  nodeSizeCache :: "string \<rightharpoonup> size_rect"
  positions :: "(string \<rightharpoonup> position) option"
  r_editors :: "string \<rightharpoonup> editor"
  r_dom :: "string \<rightharpoonup> size_rect"

text \<open>
  Calls into collaborators that are not part of this module are recorded, in order, in a
  log: \<open>saveSnapshot(true)\<close>, \<open>renderer.setData\<close>, \<open>renderer.render\<close>, the preserve
  and restore steps around a forced render, \<open>applyStrikethroughToTitle\<close>,
  \<open>renderer.mountNodeEditor\<close> with the initial value, and the editor's
  \<open>setContent\<close>. \<open>StrikethroughTimer\<close> records that the 100 ms timer which will call
  \<open>applyStrikethroughToTitle\<close> has been set.
\<close>

datatype effect =
    SaveSnapshot
  | SetData
  | Render
  | Preserved preserved_state
  | Restore preserved_state
  | StrikethroughTimer string bool
  | ApplyStrikethrough string bool
  | MountEditor string string
  | SetContent string string

record state =
  elements :: "element list"
  nodeCreationOrder :: "string \<rightharpoonup> int"
  editingNode :: "string option"
  selectedNode :: "string option"
  isSaving :: bool
  editingStartTime :: "int option"
  changedNodeIds :: "string set"
  entityName :: string
  currentUser :: string
  hasSaveSnapshot :: bool
  hasApplyStrikethrough :: bool
  d3Renderer :: "renderer option"
  effects :: "effect list"

subsection \<open>JavaScript helpers\<close>

text \<open>A string reference is truthy when it is set and not empty.\<close>

definition truthy :: "string option \<Rightarrow> bool" where
  "truthy x = (case x of None \<Rightarrow> False | Some s \<Rightarrow> s \<noteq> [])"

text \<open>\<open>ids.includes(x)\<close> for a reference \<open>x\<close> that may be \<open>null\<close>.\<close>

definition js_includes :: "string list \<Rightarrow> string option \<Rightarrow> bool" where
  "js_includes ids x = (case x of None \<Rightarrow> False | Some s \<Rightarrow> s \<in> set ids)"

text \<open>\<open>el.source && el.target\<close>: the element is an edge.\<close>

definition is_edge :: "element \<Rightarrow> bool" where
  "is_edge el = (el_source el \<noteq> [] \<and> el_target el \<noteq> [])"

text \<open>
  The computed references \<open>nodes\<close> and \<open>edges\<close> are passed into the composable and are
  views of \<open>elements\<close>. Modelled from the spec: the Document Store is the collections of
  nodes and edges, and the handlers themselves take
  \<open>elements.value.filter(el => el.source && el.target)\<close> as its edges; \<open>nodes\<close> is the
  rest.
\<close>

definition nodes_of :: "state \<Rightarrow> element list" where
  "nodes_of st = filter (\<lambda>el. \<not> is_edge el) (elements st)"

definition edges_of :: "state \<Rightarrow> element list" where
  "edges_of st = filter is_edge (elements st)"

definition as_element :: "node_patch \<Rightarrow> element" where
  "as_element n = \<lparr>el_id = np_id n, el_data = np_data n, el_source = [], el_target = []\<rparr>"

text \<open>\<open>{ ...localNode, ...remoteNode }\<close>: the keys of the patch win.\<close>

definition spread_node :: "element \<Rightarrow> node_patch \<Rightarrow> element" where
  "spread_node l r =
     l\<lparr>el_id := np_id r,
       el_data := (case np_data r of None \<Rightarrow> el_data l | Some d \<Rightarrow> Some d)\<rparr>"

text \<open>\<open>ids.forEach(id => map.delete(id))\<close>.\<close>

definition delete_keys :: "string list \<Rightarrow> (string \<rightharpoonup> 'a) \<Rightarrow> (string \<rightharpoonup> 'a)" where
  "delete_keys ids m = fold (\<lambda>k acc. acc(k := None)) ids m"

definition log_effect :: "effect \<Rightarrow> state \<Rightarrow> state" where
  "log_effect e st = st\<lparr>effects := effects st @ [e]\<rparr>"

section \<open>Render coordination\<close>

definition preserveEditorState :: "renderer \<Rightarrow> string \<Rightarrow> preserved_state option" where
  "preserveEditorState r nodeId =
     (if nodeId = [] then None
      else case r_editors r nodeId of
        None \<Rightarrow> None
      | Some ed \<Rightarrow>
          if ed_isDestroyed ed \<or> \<not> ed_hasView ed then None
          else Some \<lparr>ps_nodeId = nodeId,
                     ps_isFocused = (ed_isFocused ed \<or> ed_domActive ed),
                     ps_selection = ed_selection ed,
                     ps_content = ed_content ed\<rparr>)"

text \<open>
  \<open>safeRender(renderer, force)\<close>. The call \<open>renderer.render()\<close> belongs to the layout
  collaborator; it is logged, and so is the restore step that follows it.
\<close>

definition safeRender :: "bool \<Rightarrow> state \<Rightarrow> state \<times> bool" where
  "safeRender force st =
     (case d3Renderer st of
        None \<Rightarrow> (st, False)
      | Some r \<Rightarrow>
          let hasAnyNodeBeingEdited = truthy (editingNode st) in
          if hasAnyNodeBeingEdited \<and> \<not> force then (st, False)
          else
            let preservedState =
                  (if force \<and> hasAnyNodeBeingEdited
                   then preserveEditorState r (the (editingNode st)) else None);
                st1 = (case preservedState of None \<Rightarrow> st | Some ps \<Rightarrow> log_effect (Preserved ps) st);
                st2 = log_effect Render st1;
                st3 = (case preservedState of None \<Rightarrow> st2 | Some ps \<Rightarrow> log_effect (Restore ps) st2)
            in (st3, True))"

definition updateRendererDataWithoutRender ::
  "element list \<Rightarrow> element list \<Rightarrow> (string \<rightharpoonup> int) \<Rightarrow> renderer \<Rightarrow> renderer" where
  "updateRendererDataWithoutRender ns es ord r = r\<lparr>r_nodes := ns, r_edges := es, r_order := ord\<rparr>"

text \<open>
  \<open>renderer.setData(nodes, edges, nodeCreationOrder)\<close> is the layout collaborator's.
  Modelled from the spec: \<open>setCollectionData(nodes, edges, orderIndex)\<close> stores the three
  collections; the call is logged.
\<close>

definition setData :: "element list \<Rightarrow> element list \<Rightarrow> (string \<rightharpoonup> int) \<Rightarrow> state \<Rightarrow> state" where
  "setData ns es ord st =
     log_effect SetData
       (st\<lparr>d3Renderer := map_option (\<lambda>r. r\<lparr>r_nodes := ns, r_edges := es, r_order := ord\<rparr>) (d3Renderer st)\<rparr>)"

section \<open>NodesDeleted\<close>

record del_payload =
  dp_entity_name :: string
  dp_modified_by :: string
  dp_node_ids :: "string list"

text \<open>
  \<open>handleRealtimeNodesDeleted\<close>. The two \<open>nextTick\<close> callbacks (the snapshot request and
  \<open>setData\<close> with \<open>safeRender\<close>) are microtasks queued by the handler: they run, in
  this order, before any other event or timer, so they are run here at the end of the
  handler.
\<close>

definition handleRealtimeNodesDeleted :: "state \<Rightarrow> del_payload option \<Rightarrow> state" where
  "handleRealtimeNodesDeleted st po =
     (case po of
        None \<Rightarrow> st
      | Some payload \<Rightarrow>
          if dp_entity_name payload \<noteq> entityName st then st
          else if dp_modified_by payload = currentUser st then st
          else if isSaving st then st
          else
            let nodeIdsToDelete = dp_node_ids payload in
            if nodeIdsToDelete = [] then st
            else
              let st1 = (if js_includes nodeIdsToDelete (editingNode st)
                            \<or> js_includes nodeIdsToDelete (selectedNode st)
                         then st\<lparr>selectedNode := None, editingNode := None\<rparr> else st);
                  newNodes = filter (\<lambda>n. el_id n \<notin> set nodeIdsToDelete) (nodes_of st1);
                  newEdges = filter (\<lambda>e. el_source e \<notin> set nodeIdsToDelete
                                         \<and> el_target e \<notin> set nodeIdsToDelete) (edges_of st1);
                  ord = delete_keys nodeIdsToDelete (nodeCreationOrder st1);
                  st2 = st1\<lparr>nodeCreationOrder := ord, elements := newNodes @ newEdges\<rparr>;
                  st3 = (case d3Renderer st2 of
                           None \<Rightarrow> st2
                         | Some r \<Rightarrow>
                             if truthy (editingNode st2)
                             then st2\<lparr>d3Renderer :=
                                        Some (updateRendererDataWithoutRender newNodes newEdges ord r)\<rparr>
                             else st2);
                  st4 = (if hasSaveSnapshot st3 then log_effect SaveSnapshot st3 else st3)
              in (case d3Renderer st4 of
                    None \<Rightarrow> st4
                  | Some r \<Rightarrow>
                      if truthy (editingNode st2) then st4
                      else fst (safeRender False (setData newNodes newEdges ord st4))))"

text \<open>The Document Store: nodes, edges and the insertion-order index.\<close>

definition store :: "state \<Rightarrow> element list \<times> element list \<times> (string \<rightharpoonup> int)" where
  "store st = (nodes_of st, edges_of st, nodeCreationOrder st)"

section \<open>Position cache invalidation\<close>

text \<open>
  \<open>clearChildrenPositions\<close> is a closure that calls itself for every child edge and
  keeps no visited set, so on a cyclic edge list it recurses until the call stack is
  exhausted. The first argument bounds the recursion depth; \<open>None\<close> is that overflow.
\<close>

definition childTargets :: "element list \<Rightarrow> string \<Rightarrow> string list" where
  "childTargets els nodeId =
     map el_target (filter (\<lambda>e. el_source e = nodeId) (filter is_edge els))"

fun clearChildrenPositions ::
  "nat \<Rightarrow> element list \<Rightarrow> string \<Rightarrow> (string \<rightharpoonup> position) \<Rightarrow> (string \<rightharpoonup> position) option" where
  "clearChildrenPositions 0 els nodeId pos = None"
| "clearChildrenPositions (Suc k) els nodeId pos =
     fold (\<lambda>c acc. case acc of None \<Rightarrow> None
                     | Some p \<Rightarrow> clearChildrenPositions k els c (p(c := None)))
          (childTargets els nodeId) (Some pos)"

text \<open>
  \<open>positions.delete(id); clearChildrenPositions(id)\<close> for each id of a list, in order.
\<close>

definition clearSubtrees ::
  "nat \<Rightarrow> element list \<Rightarrow> string list \<Rightarrow> (string \<rightharpoonup> position) \<Rightarrow> (string \<rightharpoonup> position) option" where
  "clearSubtrees fuel els ids pos =
     fold (\<lambda>t acc. case acc of None \<Rightarrow> None
                     | Some p \<Rightarrow> clearChildrenPositions fuel els t (p(t := None)))
          ids (Some pos)"

subsection \<open>Writes through \<open>d3Node.data\<close>\<close>

text \<open>
  \<open>renderer.nodes.find(n => n.id === id)\<close> followed by assignments to
  \<open>d3Node.data\<close>. An assignment \<open>d3Node.data.x = v\<close> on a node without \<open>data\<close>
  raises a TypeError: \<open>None\<close>.
\<close>

definition with_data :: "(node_data \<Rightarrow> node_data) \<Rightarrow> element \<Rightarrow> element option" where
  "with_data f el = (case el_data el of None \<Rightarrow> None | Some d \<Rightarrow> Some (el\<lparr>el_data := Some (f d)\<rparr>))"

fun update_first :: "('a \<Rightarrow> bool) \<Rightarrow> ('a \<Rightarrow> 'a option) \<Rightarrow> 'a list \<Rightarrow> 'a list option" where
  "update_first P f [] = Some []"
| "update_first P f (x # xs) =
     (if P x then map_option (\<lambda>y. y # xs) (f x)
      else map_option (\<lambda>ys. x # ys) (update_first P f xs))"

definition rect_truthy :: "node_data option \<Rightarrow> size_rect option" where
  "rect_truthy d = (case d of None \<Rightarrow> None | Some dd \<Rightarrow> d_rect dd)"

definition label_of :: "node_data option \<Rightarrow> string option" where
  "label_of d = (case d of None \<Rightarrow> None | Some dd \<Rightarrow> d_label dd)"

definition completed_of :: "node_data option \<Rightarrow> bool option" where
  "completed_of d = (case d of None \<Rightarrow> None | Some dd \<Rightarrow> d_completed dd)"

definition order_of :: "node_data option \<Rightarrow> int option" where
  "order_of d = (case d of None \<Rightarrow> None | Some dd \<Rightarrow> d_order dd)"

text \<open>
  The three guarded assignments that recur in the handlers:
  \<open>if (completed !== undefined) d3Node.data.completed = completed\<close> and
  \<open>if (rect) { d3Node.data.rect = rect; fixedWidth = rect.width; fixedHeight = rect.height }\<close>.
\<close>

definition d3_set_completed :: "node_data option \<Rightarrow> element \<Rightarrow> element option" where
  "d3_set_completed rd el =
     (case completed_of rd of None \<Rightarrow> Some el
      | Some c \<Rightarrow> with_data (\<lambda>d. d\<lparr>d_completed := Some c\<rparr>) el)"

definition d3_set_rect :: "node_data option \<Rightarrow> element \<Rightarrow> element option" where
  "d3_set_rect rd el =
     (case rect_truthy rd of None \<Rightarrow> Some el
      | Some rc \<Rightarrow> with_data (\<lambda>d. d\<lparr>d_rect := Some rc, d_fixedWidth := Some (width rc),
                                        d_fixedHeight := Some (height rc)\<rparr>) el)"

section \<open>NodesBatchUpdated\<close>

record batch_payload =
  bp_entity_name :: string
  bp_modified_by :: string
  bp_nodes :: "node_patch list"
  bp_edges :: "element list option"

text \<open>
  \<open>nodes.value.map(localNode => ...)\<close> with its side effect on
  \<open>nodeCreationOrder\<close>, then the same for the new nodes.
\<close>

definition batch_merge_node :: "node_patch list \<Rightarrow> element \<Rightarrow> element" where
  "batch_merge_node remoteNodeUpdates localNode =
     (case find (\<lambda>n. np_id n = el_id localNode) remoteNodeUpdates of
        None \<Rightarrow> localNode
      | Some remoteNode \<Rightarrow> spread_node localNode remoteNode)"

definition set_order :: "node_patch \<Rightarrow> (string \<rightharpoonup> int) \<Rightarrow> (string \<rightharpoonup> int)" where
  "set_order n ord = (case order_of (np_data n) of None \<Rightarrow> ord | Some v \<Rightarrow> ord(np_id n \<mapsto> v))"

definition batch_order ::
  "node_patch list \<Rightarrow> element list \<Rightarrow> node_patch list \<Rightarrow> (string \<rightharpoonup> int) \<Rightarrow> (string \<rightharpoonup> int)" where
  "batch_order remoteNodeUpdates localNodes newNodes ord =
     fold set_order newNodes
       (fold (\<lambda>localNode acc.
                case find (\<lambda>n. np_id n = el_id localNode) remoteNodeUpdates of
                  None \<Rightarrow> acc | Some remoteNode \<Rightarrow> set_order remoteNode acc)
             localNodes ord)"

definition batch_edges :: "element list option \<Rightarrow> element list \<Rightarrow> element list" where
  "batch_edges pes localEdges =
     (case pes of
        None \<Rightarrow> localEdges
      | Some es \<Rightarrow>
          let targetsToUpdate = set (filter (\<lambda>t. t \<noteq> []) (map el_target es))
          in filter (\<lambda>e. el_target e \<notin> targetsToUpdate) localEdges @ es)"

text \<open>What the \<open>nextTick\<close> callback of the batch handler keeps from the handler's run.\<close>

record batch_captured =
  bc_payload :: batch_payload
  bc_editingNodeId :: "string option"
  bc_selectedNodeId :: "string option"
  bc_hasNewNodes :: bool
  bc_updatedNodes :: "element list"

definition batch_sync :: "state \<Rightarrow> batch_payload option \<Rightarrow> state \<times> batch_captured option" where
  "batch_sync st po =
     (case po of
        None \<Rightarrow> (st, None)
      | Some payload \<Rightarrow>
          if bp_entity_name payload \<noteq> entityName st then (st, None)
          else if bp_modified_by payload = currentUser st then (st, None)
          else if isSaving st then (st, None)
          else
            let remoteNodeUpdates = bp_nodes payload in
            if remoteNodeUpdates = [] then (st, None)
            else
              let editingNodeId = editingNode st;
                  selectedNodeId = selectedNode st;
                  remoteNodeIds = map np_id remoteNodeUpdates;
                  allNodesAreBeingEdited =
                    (remoteNodeIds \<noteq> [] \<and>
                     list_all (\<lambda>i. Some i = editingNodeId \<or> Some i = selectedNodeId) remoteNodeIds)
              in if allNodesAreBeingEdited then (st, None)
                 else
                   let localNodeIds = set (map el_id (nodes_of st));
                       hasNewNodes = list_ex (\<lambda>n. np_id n \<notin> localNodeIds) remoteNodeUpdates;
                       newNodes = filter (\<lambda>n. np_id n \<notin> localNodeIds) remoteNodeUpdates;
                       updatedNodes = map (batch_merge_node remoteNodeUpdates) (nodes_of st)
                                        @ map as_element newNodes;
                       ord = batch_order remoteNodeUpdates (nodes_of st) newNodes (nodeCreationOrder st);
                       updatedEdges = batch_edges (bp_edges payload) (edges_of st);
                       st1 = st\<lparr>nodeCreationOrder := ord, elements := updatedNodes @ updatedEdges\<rparr>;
                       st2 = (if hasSaveSnapshot st1 \<and> hasNewNodes
                              then log_effect SaveSnapshot st1 else st1)
                   in (st2,
                       (case d3Renderer st2 of
                          None \<Rightarrow> None
                        | Some r \<Rightarrow>
                            Some \<lparr>bc_payload = payload, bc_editingNodeId = editingNodeId,
                                  bc_selectedNodeId = selectedNodeId, bc_hasNewNodes = hasNewNodes,
                                  bc_updatedNodes = updatedNodes\<rparr>)))"

text \<open>
  In the branch that does not render, \<open>renderer.nodes\<close> has just been set to
  \<open>updatedNodes\<close>, the array whose objects \<open>elements.value\<close> holds too, at its head
  (\<open>[...updatedNodes, ...updatedEdges]\<close>): an assignment to \<open>d3Node.data\<close> is seen
  through both. The rest of \<open>elements.value\<close> stays as it is.
\<close>

definition batch_d3_update :: "node_patch \<Rightarrow> element \<Rightarrow> element option" where
  "batch_d3_update updatedNode d3Node =
     Option.bind
       (if truthy (label_of (np_data updatedNode))
        then with_data (\<lambda>d. d\<lparr>d_label := label_of (np_data updatedNode)\<rparr>) d3Node
        else Some d3Node)
       (\<lambda>n1. Option.bind (d3_set_completed (np_data updatedNode) n1)
                (d3_set_rect (np_data updatedNode)))"

definition batch_d3_updates :: "node_patch list \<Rightarrow> element list \<Rightarrow> element list option" where
  "batch_d3_updates remoteNodeUpdates ns =
     fold (\<lambda>updatedNode acc. case acc of None \<Rightarrow> None
             | Some xs \<Rightarrow> update_first (\<lambda>n. el_id n = np_id updatedNode) (batch_d3_update updatedNode) xs)
          remoteNodeUpdates (Some ns)"

text \<open>
  The first part of the callback: the size cache entries of the patched nodes are
  dropped, and with edges in the payload the positions of every edge target and of its
  subtree. \<open>None\<close>: the recursion overflowed the stack.
\<close>

definition batch_invalidate :: "nat \<Rightarrow> batch_captured \<Rightarrow> state \<Rightarrow> state option" where
  "batch_invalidate fuel cap st =
     (case d3Renderer st of
        None \<Rightarrow> Some st
      | Some r0 \<Rightarrow>
          let payload = bc_payload cap;
              r1 = r0\<lparr>nodeSizeCache := delete_keys (map np_id (bp_nodes payload)) (nodeSizeCache r0)\<rparr>;
              cleared =
                (case bp_edges payload of
                   None \<Rightarrow> Some (positions r1)
                 | Some es \<Rightarrow>
                     if es = [] then Some (positions r1)
                     else (case positions r1 of
                             None \<Rightarrow> Some None
                           | Some pos \<Rightarrow>
                               map_option Some (clearSubtrees fuel (elements st) (map el_target es) pos)))
          in map_option (\<lambda>pos'. st\<lparr>d3Renderer := Some (r1\<lparr>positions := pos'\<rparr>)\<rparr>) cleared)"

text \<open>The second part: the choice between patching the renderer's data and rendering.\<close>

definition batch_render :: "batch_captured \<Rightarrow> state \<Rightarrow> state option" where
  "batch_render cap st1 =
     (case d3Renderer st1 of
        None \<Rightarrow> Some st1
      | Some r2 \<Rightarrow>
          let remoteNodeUpdates = bp_nodes (bc_payload cap);
              remoteNodeIds = map np_id remoteNodeUpdates;
              currentEdges = filter is_edge (elements st1);
              ord = nodeCreationOrder st1;
              updatedNodes = bc_updatedNodes cap;
              hasAnyNodeBeingEdited = truthy (editingNode st1);
              batchContainsEditingNode =
                (js_includes remoteNodeIds (bc_editingNodeId cap)
                 \<or> js_includes remoteNodeIds (bc_selectedNodeId cap))
          in if hasAnyNodeBeingEdited \<and> \<not> bc_hasNewNodes cap \<and> batchContainsEditingNode
             then (case batch_d3_updates remoteNodeUpdates updatedNodes of
                     None \<Rightarrow> None
                   | Some ns \<Rightarrow>
                       let r3 = updateRendererDataWithoutRender ns currentEdges ord r2
                       in Some (st1\<lparr>elements := ns @ drop (length updatedNodes) (elements st1),
                                    d3Renderer := Some r3\<rparr>))
             else if hasAnyNodeBeingEdited \<and> bc_hasNewNodes cap
             then Some (fst (safeRender True (setData updatedNodes currentEdges ord st1)))
             else Some (fst (safeRender False (setData updatedNodes currentEdges ord st1))))"

definition batch_tick :: "nat \<Rightarrow> batch_captured \<Rightarrow> state \<Rightarrow> state option" where
  "batch_tick fuel cap st = Option.bind (batch_invalidate fuel cap st) (batch_render cap)"

text \<open>
  \<open>handleRealtimeNodesBatchUpdate\<close>: the handler and the \<open>nextTick\<close> callback it queues.
  The timers that later mount editors for the new nodes are not part of this run.
\<close>

definition handleRealtimeNodesBatchUpdate :: "nat \<Rightarrow> state \<Rightarrow> batch_payload option \<Rightarrow> state option" where
  "handleRealtimeNodesBatchUpdate fuel st po =
     (case batch_sync st po of
        (st1, None) \<Rightarrow> Some st1
      | (st1, Some cap) \<Rightarrow> batch_tick fuel cap st1)"

section \<open>NodeUpdated\<close>

record update_payload =
  up_entity_name :: string
  up_modified_by :: string
  up_node_id :: string
  up_node :: "node_patch option"
  up_edge :: "element option"

text \<open>What the deferred callbacks of \<open>handleRealtimeNodeUpdate\<close> keep from its run.\<close>

record update_captured =
  uc_remoteNode :: node_patch
  uc_hasEdge :: bool
  uc_editingNodeId :: "string option"
  uc_selectedNodeId :: "string option"
  uc_isNew :: bool
  uc_isNodeBeingEdited :: bool
  uc_isNodeSelected :: bool
  uc_hasLocalChanges :: bool

fun findIndex :: "('a \<Rightarrow> bool) \<Rightarrow> 'a list \<Rightarrow> nat option" where
  "findIndex P [] = None"
| "findIndex P (x # xs) = (if P x then Some 0 else map_option Suc (findIndex P xs))"

definition empty_data :: node_data where
  "empty_data = \<lparr>d_label = None, d_completed = None, d_rect = None, d_order = None,
                  d_fixedWidth = None, d_fixedHeight = None\<rparr>"

definition data_or_empty :: "node_data option \<Rightarrow> node_data" where
  "data_or_empty d = (case d of None \<Rightarrow> empty_data | Some dd \<Rightarrow> dd)"

definition override :: "'a option \<Rightarrow> 'a option \<Rightarrow> 'a option" where
  "override l r = (case r of None \<Rightarrow> l | Some v \<Rightarrow> Some v)"

text \<open>\<open>{ ...local.data, ...remote.data }\<close>.\<close>

definition merge_data :: "node_data option \<Rightarrow> node_data option \<Rightarrow> node_data" where
  "merge_data ld rd =
     (let l = data_or_empty ld; r = data_or_empty rd in
      \<lparr>d_label = override (d_label l) (d_label r),
       d_completed = override (d_completed l) (d_completed r),
       d_rect = override (d_rect l) (d_rect r),
       d_order = override (d_order l) (d_order r),
       d_fixedWidth = override (d_fixedWidth l) (d_fixedWidth r),
       d_fixedHeight = override (d_fixedHeight l) (d_fixedHeight r)\<rparr>)"

text \<open>
  The write into \<open>elements.value\<close>: full replacement, the \<open>completed\<close>-only merge, the
  merge that keeps the local label, or nothing; a node that is not there is pushed.
  \<open>findIndex\<close> returns an index below the length of the list, so \<open>!\<close> is in range.
\<close>

definition update_elements ::
  "node_patch \<Rightarrow> bool \<Rightarrow> bool \<Rightarrow> bool \<Rightarrow> element list \<Rightarrow> element list" where
  "update_elements remoteNode isNodeBeingEdited isNodeSelected hasLocalChanges els =
     (let rd = np_data remoteNode;
          shouldUpdateElements = (\<not> isNodeBeingEdited \<and> \<not> isNodeSelected);
          shouldUpdateCompletedOnly =
            (completed_of rd \<noteq> None \<and> (isNodeBeingEdited \<or> isNodeSelected))
      in case findIndex (\<lambda>el. el_id el = np_id remoteNode \<and> el_source el = [] \<and> el_target el = []) els of
           None \<Rightarrow> els @ [as_element remoteNode]
         | Some elementIndex \<Rightarrow>
             let localEl = els ! elementIndex in
             if shouldUpdateElements then els[elementIndex := as_element remoteNode]
             else if shouldUpdateCompletedOnly then
               let updatedData = (data_or_empty (el_data localEl))\<lparr>d_completed := completed_of rd\<rparr>;
                   updatedData2 = (case rect_truthy rd of None \<Rightarrow> updatedData
                                   | Some rc \<Rightarrow> updatedData\<lparr>d_rect := Some rc\<rparr>)
               in els[elementIndex := localEl\<lparr>el_data := Some updatedData2\<rparr>]
             else if \<not> hasLocalChanges then
               let updatedData = merge_data (el_data localEl) rd;
                   updatedData2 = updatedData\<lparr>d_label :=
                     (if truthy (label_of (el_data localEl)) then label_of (el_data localEl)
                      else d_label updatedData)\<rparr>
               in els[elementIndex := localEl\<lparr>el_data := Some updatedData2\<rparr>]
             else els)"

text \<open>
  The branch for a node under local edit that may not be updated: only
  \<open>d3Node.data.completed\<close> is written, and the handler returns. The assignment raises
  a TypeError when the renderer's node has no \<open>data\<close>: \<open>None\<close>. The timer for the
  strikethrough is set when \<open>completed\<close> changes.
\<close>

definition update_completed_only :: "node_patch \<Rightarrow> state \<Rightarrow> state option" where
  "update_completed_only remoteNode st =
     (case d3Renderer st of
        None \<Rightarrow> Some st
      | Some r \<Rightarrow>
          (case (find (\<lambda>n. el_id n = np_id remoteNode) (r_nodes r), completed_of (np_data remoteNode)) of
             (Some d3Node, Some c) \<Rightarrow>
               (case update_first (\<lambda>n. el_id n = np_id remoteNode)
                       (with_data (\<lambda>d. d\<lparr>d_completed := Some c\<rparr>)) (r_nodes r) of
                  None \<Rightarrow> None
                | Some ns \<Rightarrow>
                    let oldCompleted = (completed_of (el_data d3Node) = Some True);
                        st1 = st\<lparr>d3Renderer := Some (r\<lparr>r_nodes := ns\<rparr>)\<rparr>
                    in Some (if oldCompleted \<noteq> c \<and> hasApplyStrikethrough st1
                             then log_effect (StrikethroughTimer (np_id remoteNode) c) st1 else st1))
           | _ \<Rightarrow> Some st))"

text \<open>
  The timer set there and in the \<open>nextTick\<close> callback, when it fires 100 ms later:
  \<open>applyStrikethroughToTitle\<close> is called if the node's editor exists and is not
  destroyed.
\<close>

definition strikethroughTimer :: "string \<Rightarrow> bool \<Rightarrow> state \<Rightarrow> state" where
  "strikethroughTimer nodeId c st =
     (case d3Renderer st of
        None \<Rightarrow> st
      | Some r \<Rightarrow>
          (case r_editors r nodeId of
             None \<Rightarrow> st
           | Some editorInstance \<Rightarrow>
               if ed_isDestroyed editorInstance then st
               else log_effect (ApplyStrikethrough nodeId c) st))"

definition update_edge :: "element option \<Rightarrow> element list \<Rightarrow> element list" where
  "update_edge pe els =
     (case pe of
        None \<Rightarrow> els
      | Some remoteEdge \<Rightarrow>
          filter (\<lambda>el. el_source el = [] \<or> el_target el = [] \<or> el_target el \<noteq> el_target remoteEdge) els
            @ [remoteEdge])"

text \<open>
  The writes into the Document Store: the node, its rank in \<open>nodeCreationOrder\<close> when
  the patch carries \<open>order\<close>, and the snapshot request for a node that was not there.
\<close>

definition update_store :: "node_patch \<Rightarrow> bool \<Rightarrow> bool \<Rightarrow> bool \<Rightarrow> bool \<Rightarrow> state \<Rightarrow> state" where
  "update_store remoteNode isNodeBeingEdited isNodeSelected hasLocalChanges isNew st =
     (let st1 = st\<lparr>elements := update_elements remoteNode isNodeBeingEdited isNodeSelected
                                  hasLocalChanges (elements st)\<rparr>;
          st2 = st1\<lparr>nodeCreationOrder := set_order remoteNode (nodeCreationOrder st1)\<rparr>
      in if hasSaveSnapshot st2 \<and> isNew then log_effect SaveSnapshot st2 else st2)"

text \<open>
  \<open>timeSinceEditStart < 2000\<close>. \<open>now\<close> is \<open>Date.now()\<close>; an \<open>editingStartTime\<close> of
  \<open>0\<close> or \<open>null\<close> is falsy and gives an infinite elapsed time.
\<close>

definition within_grace :: "int \<Rightarrow> state \<Rightarrow> bool" where
  "within_grace now st =
     (case editingStartTime st of None \<Rightarrow> False | Some t0 \<Rightarrow> t0 \<noteq> 0 \<and> now - t0 < 2000)"

text \<open>
  The guards at the head of the handler: the event is for this document, comes from
  another user, is not for the node under edit while a save is in flight, and carries a
  node.
\<close>

definition update_guards :: "state \<Rightarrow> update_payload option \<Rightarrow> (update_payload \<times> node_patch) option" where
  "update_guards st po =
     (case po of
        None \<Rightarrow> None
      | Some payload \<Rightarrow>
          if up_entity_name payload \<noteq> entityName st then None
          else if up_modified_by payload = currentUser st then None
          else
            let editingNodeId = editingNode st;
                isUpdatingEditingNode = (Some (up_node_id payload) = editingNodeId)
            in if isSaving st \<and> isUpdatingEditingNode then None
               else map_option (Pair payload) (up_node payload))"

text \<open>
  \<open>isNodeBeingEdited && !shouldAllowUpdate\<close>: the node is under local edit and has local
  changes or is past the two seconds.
\<close>

definition update_blocked :: "int \<Rightarrow> state \<Rightarrow> node_patch \<Rightarrow> bool" where
  "update_blocked now st remoteNode =
     (let isNodeBeingEdited = (Some (np_id remoteNode) = editingNode st);
          hasLocalChanges = (np_id remoteNode \<in> changedNodeIds st \<and> isNodeBeingEdited);
          shouldAllowUpdate = (within_grace now st \<and> \<not> hasLocalChanges)
      in isNodeBeingEdited \<and> \<not> shouldAllowUpdate)"

text \<open>
  The handler's writes to the Document Store, up to the point where it queues its
  \<open>nextTick\<close> callback or goes into the branch for a node under local edit that may not
  be updated.
\<close>

definition update_sync :: "int \<Rightarrow> state \<Rightarrow> update_payload option \<Rightarrow> state \<times> update_captured option" where
  "update_sync now st po =
     (case update_guards st po of
        None \<Rightarrow> (st, None)
      | Some (payload, remoteNode) \<Rightarrow>
          let editingNodeId = editingNode st;
              selectedNodeId = selectedNode st;
              isNodeBeingEdited = (Some (np_id remoteNode) = editingNodeId);
              isNodeSelected = (Some (np_id remoteNode) = selectedNodeId
                                 \<and> Some (np_id remoteNode) \<noteq> editingNodeId);
              hasLocalChanges = (np_id remoteNode \<in> changedNodeIds st \<and> isNodeBeingEdited);
              isNew = (findIndex (\<lambda>el. el_id el = np_id remoteNode \<and> el_source el = []
                                       \<and> el_target el = []) (elements st) = None);
              st3 = update_store remoteNode isNodeBeingEdited isNodeSelected hasLocalChanges isNew st
          in if update_blocked now st remoteNode then (st3, None)
             else
               let st4 = st3\<lparr>elements := update_edge (up_edge payload) (elements st3)\<rparr>
               in (st4,
                   (case d3Renderer st4 of
                      None \<Rightarrow> None
                    | Some r \<Rightarrow>
                        Some \<lparr>uc_remoteNode = remoteNode, uc_hasEdge = (up_edge payload \<noteq> None),
                              uc_editingNodeId = editingNodeId, uc_selectedNodeId = selectedNodeId,
                              uc_isNew = isNew, uc_isNodeBeingEdited = isNodeBeingEdited,
                              uc_isNodeSelected = isNodeSelected,
                              uc_hasLocalChanges = hasLocalChanges\<rparr>)))"

text \<open>
  The end of the handler when no callback is queued: in the branch for a node under local
  edit that may not be updated, the write to \<open>d3Node.data.completed\<close>; nothing more
  after the other returns.
\<close>

definition update_return :: "int \<Rightarrow> state \<Rightarrow> update_payload option \<Rightarrow> state \<Rightarrow> state option" where
  "update_return now st po st1 =
     (case update_guards st po of
        None \<Rightarrow> Some st1
      | Some (payload, remoteNode) \<Rightarrow>
          if update_blocked now st remoteNode then update_completed_only remoteNode st1
          else Some st1)"

subsection \<open>The \<open>nextTick\<close> callback\<close>

text \<open>\<open>rect && rect.width && rect.height\<close>: a size with both dimensions non-zero.\<close>

definition size_truthy :: "node_data option \<Rightarrow> size_rect option" where
  "size_truthy rd =
     (case rect_truthy rd of
        None \<Rightarrow> None
      | Some rc \<Rightarrow> if width rc \<noteq> 0 \<and> height rc \<noteq> 0 then Some rc else None)"

definition num_truthy :: "int option \<Rightarrow> bool" where
  "num_truthy x = (case x of None \<Rightarrow> False | Some v \<Rightarrow> v \<noteq> 0)"

text \<open>
  The block \<open>if (d3Node) { ... }\<close>: the label (unless the node is edited or selected
  locally, or has local changes), the size, \<open>completed\<close>, and the removal of
  \<open>fixedWidth\<close> and \<open>fixedHeight\<close>. \<open>remoteNode.data.label\<close> is read without
  \<open>?.\<close> and raises when the patch has no \<open>data\<close>.
\<close>

definition tick_d3Node :: "update_captured \<Rightarrow> bool \<Rightarrow> element \<Rightarrow> element option" where
  "tick_d3Node cap hasLocalChanges2 d3Node =
     (let rd = np_data (uc_remoteNode cap);
          rid = np_id (uc_remoteNode cap);
          isLocalEditing = (Some rid = uc_editingNodeId cap \<or> Some rid = uc_selectedNodeId cap)
      in Option.bind
           (if \<not> isLocalEditing \<and> \<not> hasLocalChanges2
            then (case rd of None \<Rightarrow> None
                  | Some d \<Rightarrow> with_data (\<lambda>x. x\<lparr>d_label := d_label d\<rparr>) d3Node)
            else Some d3Node)
           (\<lambda>n1.
              let n2 = (case size_truthy rd of
                          None \<Rightarrow> n1
                        | Some rc \<Rightarrow>
                            n1\<lparr>el_data := Some ((data_or_empty (el_data n1))
                                  \<lparr>d_rect := Some rc, d_fixedWidth := Some (width rc),
                                   d_fixedHeight := Some (height rc)\<rparr>)\<rparr>)
              in Option.bind (d3_set_completed rd n2)
                   (with_data (\<lambda>d. if num_truthy (d_fixedWidth d) \<or> num_truthy (d_fixedHeight d)
                                    then d\<lparr>d_fixedWidth := None, d_fixedHeight := None\<rparr> else d))))"

text \<open>
  The writes that go with that block: \<open>nodeSizeCache.set\<close>, the width and height of the
  node's on-screen group when it exists, and the setting of the strikethrough timer.
\<close>

definition tick_d3_effects :: "update_captured \<Rightarrow> element \<Rightarrow> state \<Rightarrow> state" where
  "tick_d3_effects cap d3Node st =
     (let rd = np_data (uc_remoteNode cap);
          rid = np_id (uc_remoteNode cap);
          st1 = (case size_truthy rd of
                   None \<Rightarrow> st
                 | Some rc \<Rightarrow>
                     st\<lparr>d3Renderer := map_option
                          (\<lambda>r. r\<lparr>nodeSizeCache := (nodeSizeCache r)(rid \<mapsto> rc),
                                  r_dom := (if r_dom r rid = None then r_dom r else (r_dom r)(rid \<mapsto> rc))\<rparr>)
                          (d3Renderer st)\<rparr>)
      in case completed_of rd of
           None \<Rightarrow> st1
         | Some c \<Rightarrow>
             if (completed_of (el_data d3Node) = Some True) \<noteq> c \<and> hasApplyStrikethrough st1
             then log_effect (StrikethroughTimer rid c) st1 else st1)"

text \<open>The assignments in the branch for the node that is under local edit right now.\<close>

definition tick_editing_d3Node :: "update_captured \<Rightarrow> element \<Rightarrow> element option" where
  "tick_editing_d3Node cap d3Node =
     (let rd = np_data (uc_remoteNode cap)
      in Option.bind
           (if \<not> uc_isNodeSelected cap \<and> \<not> uc_hasLocalChanges cap
            then (case rd of None \<Rightarrow> None
                  | Some d \<Rightarrow> with_data (\<lambda>x. x\<lparr>d_label := d_label d\<rparr>) d3Node)
            else Some d3Node)
           (\<lambda>n1. Option.bind (d3_set_completed rd n1) (d3_set_rect rd)))"

text \<open>
  \<open>d3Node.data.label = remoteNode.data?.label || d3Node.data.label\<close> under a guard,
  then \<open>completed\<close> and the size: the same assignments are made without rendering and
  after a render.
\<close>

definition soft_d3Node :: "bool \<Rightarrow> update_captured \<Rightarrow> element \<Rightarrow> element option" where
  "soft_d3Node writeLabel cap d3Node =
     (let rd = np_data (uc_remoteNode cap)
      in Option.bind
           (if writeLabel
            then with_data (\<lambda>x. x\<lparr>d_label := (if truthy (label_of rd) then label_of rd else d_label x)\<rparr>) d3Node
            else Some d3Node)
           (\<lambda>n1. Option.bind (d3_set_completed rd n1) (d3_set_rect rd)))"

text \<open>
  After \<open>setData\<close> and \<open>safeRender\<close> the update of \<open>d3NodeAfterRender\<close> runs in a
  \<open>nextTick\<close> of its own: an exception there is not seen by the caller.
\<close>

definition after_render_update :: "update_captured \<Rightarrow> state \<Rightarrow> state" where
  "after_render_update cap st =
     (case d3Renderer st of
        None \<Rightarrow> st
      | Some r \<Rightarrow>
          (case update_first (\<lambda>n. el_id n = np_id (uc_remoteNode cap))
                  (soft_d3Node (\<not> uc_isNodeBeingEdited cap \<and> \<not> uc_isNodeSelected cap) cap) (r_nodes r) of
             None \<Rightarrow> st
           | Some ns \<Rightarrow> st\<lparr>d3Renderer := Some (r\<lparr>r_nodes := ns\<rparr>)\<rparr>))"

text \<open>
  The first part of the callback: the node's size cache entry is dropped, and with an
  edge in the payload the positions of the node and of its subtree. \<open>None\<close>: the
  recursion overflowed the stack.
\<close>

definition update_invalidate :: "nat \<Rightarrow> update_captured \<Rightarrow> state \<Rightarrow> state option" where
  "update_invalidate fuel cap st =
     (case d3Renderer st of
        None \<Rightarrow> Some st
      | Some r0 \<Rightarrow>
          let rid = np_id (uc_remoteNode cap);
              r1 = r0\<lparr>nodeSizeCache := (nodeSizeCache r0)(rid := None)\<rparr>;
              cleared =
                (if uc_hasEdge cap
                 then (case positions r1 of
                         None \<Rightarrow> Some None
                       | Some pos \<Rightarrow>
                           map_option Some (clearChildrenPositions fuel (elements st) rid (pos(rid := None))))
                 else Some (positions r1))
          in map_option (\<lambda>pos'. st\<lparr>d3Renderer := Some (r1\<lparr>positions := pos'\<rparr>)\<rparr>) cleared)"

text \<open>
  The rest of the callback, in its parts. \<open>None\<close>: a TypeError was raised. First the
  block \<open>if (d3Node) { ... }\<close> and the writes that go with it.
\<close>

definition reconcile_d3 :: "update_captured \<Rightarrow> state \<Rightarrow> state option" where
  "reconcile_d3 cap st =
     (case d3Renderer st of
        None \<Rightarrow> Some st
      | Some r2 \<Rightarrow>
          let rid = np_id (uc_remoteNode cap);
              d3 = find (\<lambda>n. el_id n = rid) (r_nodes r2)
          in (case update_first (\<lambda>n. el_id n = rid)
                     (tick_d3Node cap (rid \<in> changedNodeIds st)) (r_nodes r2) of
                None \<Rightarrow> None
              | Some ns \<Rightarrow>
                  let st1 = st\<lparr>d3Renderer := Some (r2\<lparr>r_nodes := ns\<rparr>)\<rparr>
                  in Some (case d3 of None \<Rightarrow> st1 | Some d3Node \<Rightarrow> tick_d3_effects cap d3Node st1)))"

text \<open>
  The node is the one under local edit now: the renderer's data are patched and the
  callback returns; no timer is set.
\<close>

definition reconcile_this :: "update_captured \<Rightarrow> state \<Rightarrow> state option" where
  "reconcile_this cap st2 =
     (case d3Renderer st2 of
        None \<Rightarrow> Some st2
      | Some r3 \<Rightarrow>
          if uc_isNew cap
          then Some (st2\<lparr>d3Renderer :=
                       Some (r3\<lparr>r_nodes := r_nodes r3 @ [as_element (uc_remoteNode cap)]\<rparr>)\<rparr>)
          else map_option (\<lambda>ns3. st2\<lparr>d3Renderer := Some (r3\<lparr>r_nodes := ns3\<rparr>)\<rparr>)
                 (update_first (\<lambda>n. el_id n = np_id (uc_remoteNode cap)) (tick_editing_d3Node cap) (r_nodes r3)))"

text \<open>
  The node was under local edit when the event came and another one is now: the
  renderer's data are patched without a render.
\<close>

definition reconcile_soft :: "update_captured \<Rightarrow> state \<Rightarrow> state option" where
  "reconcile_soft cap st2 =
     (case d3Renderer st2 of
        None \<Rightarrow> Some st2
      | Some r3 \<Rightarrow>
          map_option (\<lambda>ns3. st2\<lparr>d3Renderer := Some (r3\<lparr>r_nodes := ns3\<rparr>)\<rparr>)
            (update_first (\<lambda>n. el_id n = np_id (uc_remoteNode cap))
               (soft_d3Node (\<not> uc_isNodeSelected cap \<and> \<not> uc_hasLocalChanges cap) cap) (r_nodes r3)))"

text \<open>\<open>renderer.setData(nodes.value, edges.value, nodeCreationOrder.value)\<close> and a render.\<close>

definition reconcile_render :: "bool \<Rightarrow> state \<Rightarrow> state" where
  "reconcile_render force st2 =
     fst (safeRender force (setData (nodes_of st2) (edges_of st2) (nodeCreationOrder st2) st2))"

text \<open>
  The choice between these. The second component of the result says whether the timers
  that set the editor content and recompute the size have been set.
\<close>

definition reconcile_choice :: "update_captured \<Rightarrow> state \<Rightarrow> (state \<times> bool) option" where
  "reconcile_choice cap st2 =
     (let rid = np_id (uc_remoteNode cap);
          isThisNodeBeingEdited = (editingNode st2 = Some rid);
          hasAnyNodeBeingEdited = truthy (editingNode st2);
          isNewNode = uc_isNew cap
      in if isThisNodeBeingEdited then map_option (\<lambda>s. (s, False)) (reconcile_this cap st2)
         else if hasAnyNodeBeingEdited \<and> \<not> isNewNode \<and> uc_isNodeBeingEdited cap
         then map_option (\<lambda>s. (s, True)) (reconcile_soft cap st2)
         else if hasAnyNodeBeingEdited \<and> isNewNode
         then Some (reconcile_render True st2, True)
         else if hasAnyNodeBeingEdited \<and> \<not> isNewNode \<and> \<not> uc_isNodeBeingEdited cap
         then Some (after_render_update cap (reconcile_render True st2), True)
         else Some (after_render_update cap (reconcile_render False st2), True))"

definition update_reconcile :: "update_captured \<Rightarrow> state \<Rightarrow> (state \<times> bool) option" where
  "update_reconcile cap st = Option.bind (reconcile_d3 cap st) (reconcile_choice cap)"

definition update_tick :: "nat \<Rightarrow> update_captured \<Rightarrow> state \<Rightarrow> (state \<times> bool) option" where
  "update_tick fuel cap st = Option.bind (update_invalidate fuel cap st) (update_reconcile cap)"

text \<open>
  \<open>handleRealtimeNodeUpdate\<close> with the \<open>nextTick\<close> callback it queues. The second
  component says whether the content and size timers have been set by that callback.
  \<open>None\<close>: the handler or its callback raised.
\<close>

definition handleRealtimeNodeUpdate ::
  "int \<Rightarrow> nat \<Rightarrow> state \<Rightarrow> update_payload option \<Rightarrow> (state \<times> bool) option" where
  "handleRealtimeNodeUpdate now fuel st po =
     (case update_sync now st po of
        (st1, None) \<Rightarrow> map_option (\<lambda>s. (s, False)) (update_return now st po st1)
      | (st1, Some cap) \<Rightarrow> update_tick fuel cap st1)"

section \<open>Restoring the editor after a forced render\<close>

datatype editor_cmd = SetTextSelection int int | FocusEnd

text \<open>
  What \<open>restoreEditorState\<close> does, step by step: it waits for a timeout of so many
  milliseconds, waits for an animation frame, asks the renderer for the editor, or sends
  a command to the editor.
\<close>

datatype restore_step = Timeout int | AnimationFrame | GetEditor | Command editor_cmd

definition usable :: "editor option \<Rightarrow> bool" where
  "usable e = (case e of None \<Rightarrow> False | Some ed \<Rightarrow> \<not> ed_isDestroyed ed \<and> ed_hasView ed)"

text \<open>
  The polling loop of \<open>restoreEditorState\<close>: wait 50 ms and a frame, ask for the
  editor, stop when it is usable, at most ten times. \<open>polls k\<close> is what
  \<open>getEditorInstance\<close> returns at the poll number \<open>k\<close>. The result is the editor
  found, if any, and the steps made.
\<close>

function awaitEditor :: "(nat \<Rightarrow> editor option) \<Rightarrow> nat \<Rightarrow> editor option \<times> restore_step list" where
  "awaitEditor polls attempts =
     (if attempts < 10
      then (let round = [Timeout 50, AnimationFrame, GetEditor] in
            if usable (polls attempts) then (polls attempts, round)
            else (fst (awaitEditor polls (Suc attempts)), round @ snd (awaitEditor polls (Suc attempts))))
      else (None, []))"
  by pat_completeness auto
termination
  by (relation "measure (\<lambda>(polls, attempts). 10 - attempts)") auto

declare awaitEditor.simps [simp del]

text \<open>
  The focus loop: \<open>while (focusAttempts < 3 && !editorInstance.isFocused)\<close>, with
  \<open>focus('end')\<close> and a wait of 50 ms in its body. \<open>focused k\<close> is the value of
  \<open>isFocused\<close> at the check number \<open>k\<close>.
\<close>

function focusRetry :: "(nat \<Rightarrow> bool) \<Rightarrow> nat \<Rightarrow> restore_step list" where
  "focusRetry focused focusAttempts =
     (if focusAttempts < 3 \<and> \<not> focused focusAttempts
      then [Command FocusEnd, Timeout 50] @ focusRetry focused (Suc focusAttempts) else [])"
  by pat_completeness auto
termination
  by (relation "measure (\<lambda>(focused, focusAttempts). 3 - focusAttempts)") auto

declare focusRetry.simps [simp del]

text \<open>
  \<open>restoreEditorState\<close>: its steps in order. Before the focus loop it waits 100 ms.
\<close>

definition restoreEditorState ::
  "(nat \<Rightarrow> editor option) \<Rightarrow> (nat \<Rightarrow> bool) \<Rightarrow> preserved_state option \<Rightarrow> restore_step list" where
  "restoreEditorState polls focused po =
     (case po of
        None \<Rightarrow> []
      | Some preservedState \<Rightarrow>
          (case awaitEditor polls 0 of
             (None, waited) \<Rightarrow> waited
           | (Some editorInstance, waited) \<Rightarrow>
               let docSize = ed_docSize editorInstance;
                   validFrom = max 0 (min (sel_from (ps_selection preservedState)) docSize);
                   validTo = max 0 (min (sel_to (ps_selection preservedState)) docSize);
                   selCmds = (if validFrom \<noteq> validTo \<and> validFrom \<ge> 0 \<and> validTo \<le> docSize
                              then [Command (SetTextSelection validFrom validTo)] else []);
                   focusCmds = (if ps_isFocused preservedState
                                then Timeout 100 # focusRetry focused 0 else [])
               in waited @ selCmds @ focusCmds))"

section \<open>Setting the editor content\<close>

text \<open>
  The string functions of the JavaScript runtime and of the DOM that the content step
  uses are parameters: \<open>normalize('NFC')\<close>, the white space that \<open>trim\<close>
  removes, the number of matches of \<open>/<img[^>]*>/gi\<close>, and the content rebuilt from the
  parsed HTML when there are more than two images.
\<close>

record js_env =
  nfc :: "string \<Rightarrow> string"
  ws :: "char \<Rightarrow> bool"
  imageCount :: "string \<Rightarrow> nat"
  rebuild :: "string \<Rightarrow> string"

definition js_trim :: "(char \<Rightarrow> bool) \<Rightarrow> string \<Rightarrow> string" where
  "js_trim w s = rev (dropWhile w (rev (dropWhile w s)))"

text \<open>\<open>remoteNode.data?.label || ''\<close>.\<close>

definition label_or_empty :: "node_data option \<Rightarrow> string" where
  "label_or_empty d = (case label_of d of None \<Rightarrow> [] | Some l \<Rightarrow> l)"

text \<open>
  The guard of the content timer: a node under local edit with local changes is left
  alone. \<open>changedNodeIds\<close> is read when the timer fires.
\<close>

definition content_guard :: "update_captured \<Rightarrow> state \<Rightarrow> bool" where
  "content_guard cap st =
     (\<not> (uc_isNodeBeingEdited cap \<and> np_id (uc_remoteNode cap) \<in> changedNodeIds st))"

text \<open>
  \<open>checkAndSetContent\<close>: ask for the editor, and again up to five times while it is not
  usable. \<open>polls k\<close> is the answer number \<open>k\<close>.
\<close>

function checkAndSetContent :: "(nat \<Rightarrow> editor option) \<Rightarrow> nat \<Rightarrow> editor option" where
  "checkAndSetContent polls attempts =
     (if \<not> usable (polls attempts) \<and> attempts < 5
      then checkAndSetContent polls (Suc attempts) else polls attempts)"
  by pat_completeness auto
termination
  by (relation "measure (\<lambda>(polls, attempts). 5 - attempts)") auto

declare checkAndSetContent.simps [simp del]

text \<open>
  The editor is mounted already. The label is the patch's, or the one of \<open>d3Node\<close> when
  the patch has none; an empty or blank label ends the step; so does an unchanged content
  when the node is under local edit. The result is the argument of \<open>setContent\<close>.
\<close>

definition mounted_content ::
  "js_env \<Rightarrow> update_captured \<Rightarrow> element list \<Rightarrow> editor option \<Rightarrow> string option" where
  "mounted_content env cap rnodes e =
     (if \<not> usable e then None
      else
        let ed = the e;
            rd = np_data (uc_remoteNode cap);
            l0 = label_or_empty rd;
            l1 = (if l0 = []
                  then (case find (\<lambda>n. el_id n = np_id (uc_remoteNode cap)) rnodes of
                          None \<Rightarrow> [] | Some d3Node \<Rightarrow> label_or_empty (el_data d3Node))
                  else l0);
            labelToSet = (if l1 = [] then l1 else nfc env l1)
        in if labelToSet = [] \<or> js_trim (ws env) labelToSet = [] then None
           else
             let normalizedCurrent = (if ed_html ed = [] then [] else nfc env (ed_html ed));
                 contentIsSame = (normalizedCurrent = nfc env labelToSet)
             in if contentIsSame \<and> uc_isNodeBeingEdited cap then None
                else if imageCount env labelToSet > 2 then Some (rebuild env labelToSet)
                else Some labelToSet)"

text \<open>
  The editor has just been mounted (\<open>proceedWithSetContent\<close>): the label is the
  patch's only. \<open>e\<close> is what \<open>checkEditorReady\<close> resolves to after at most twenty polls.
\<close>

definition mount_content :: "js_env \<Rightarrow> update_captured \<Rightarrow> editor option \<Rightarrow> string option" where
  "mount_content env cap e =
     (if \<not> usable e then None
      else
        let l0 = label_or_empty (np_data (uc_remoteNode cap));
            labelToSet = (if l0 = [] then l0 else nfc env l0)
        in if labelToSet = [] \<or> js_trim (ws env) labelToSet = [] then None
           else Some labelToSet)"

text \<open>
  What the DOM shows when the content timer fires: whether the node's editor container
  exists and has children, whether the mounted component is in place for
  \<open>proceedWithSetContent\<close> to run (a second \<open>mountNodeEditor\<close> with the same value,
  made when the container is still empty, is not logged on its own), the editor that
  \<open>checkEditorReady\<close> resolves to, and the answers of \<open>getEditorInstance\<close> to
  \<open>checkAndSetContent\<close>.
\<close>

record content_obs =
  ob_containerExists :: bool
  ob_containerHasChildren :: bool
  ob_mountReady :: bool
  ob_readyEditor :: "editor option"
  ob_polls :: "nat \<Rightarrow> editor option"

definition contentTimer :: "js_env \<Rightarrow> content_obs \<Rightarrow> update_captured \<Rightarrow> state \<Rightarrow> state" where
  "contentTimer env ob cap st =
     (if \<not> content_guard cap st then st
      else case d3Renderer st of
        None \<Rightarrow> st
      | Some r \<Rightarrow>
          let rid = np_id (uc_remoteNode cap) in
          if \<not> ob_containerHasChildren ob \<and> ob_containerExists ob then
            (case find (\<lambda>n. el_id n = rid) (r_nodes r) of
               None \<Rightarrow> st
             | Some nodeData \<Rightarrow>
                 let l0 = label_or_empty (np_data (uc_remoteNode cap));
                     text = (if l0 = [] then label_or_empty (el_data nodeData) else l0);
                     st1 = log_effect (MountEditor rid text) st
                 in if ob_mountReady ob
                    then (case mount_content env cap (ob_readyEditor ob) of
                            None \<Rightarrow> st1
                          | Some c \<Rightarrow> log_effect (SetContent rid c) st1)
                    else st1)
          else
            (case mounted_content env cap (r_nodes r) (checkAndSetContent (ob_polls ob) 0) of
               None \<Rightarrow> st
             | Some c \<Rightarrow> log_effect (SetContent rid c) st))"

section \<open>Size recalculation\<close>

fun map_first :: "('a \<Rightarrow> bool) \<Rightarrow> ('a \<Rightarrow> 'a) \<Rightarrow> 'a list \<Rightarrow> 'a list" where
  "map_first P f [] = []"
| "map_first P f (x # xs) = (if P x then f x # xs else x # map_first P f xs)"

text \<open>\<open>if (!node.data) node.data = {}; node.data.rect = size\<close>.\<close>

definition set_rect :: "size_rect \<Rightarrow> element \<Rightarrow> element" where
  "set_rect sz el = el\<lparr>el_data := Some ((data_or_empty (el_data el))\<lparr>d_rect := Some sz\<rparr>)\<rparr>"

definition set_rect_fixed :: "size_rect \<Rightarrow> element \<Rightarrow> element" where
  "set_rect_fixed sz el =
     el\<lparr>el_data := Some ((data_or_empty (el_data el))
           \<lparr>d_rect := Some sz, d_fixedWidth := Some (width sz), d_fixedHeight := Some (height sz)\<rparr>)\<rparr>"

text \<open>\<open>if (vueNode && vueNode.data) { ... }\<close> on the first node of \<open>nodes.value\<close> with the id.\<close>

definition set_vue_rect :: "bool \<Rightarrow> size_rect \<Rightarrow> element \<Rightarrow> element" where
  "set_vue_rect fixed sz el =
     (case el_data el of
        None \<Rightarrow> el
      | Some d \<Rightarrow>
          if fixed
          then el\<lparr>el_data := Some (d\<lparr>d_rect := Some sz, d_fixedWidth := Some (width sz),
                                      d_fixedHeight := Some (height sz)\<rparr>)\<rparr>
          else el\<lparr>el_data := Some (d\<lparr>d_rect := Some sz\<rparr>)\<rparr>)"

text \<open>
  \<open>updateNodeSizeWithNewSize\<close> up to the point where it asks for two animation frames.
  Its caller \<open>calculateAndUpdateNodeSize\<close> has checked that the node's group is on
  screen.
\<close>

definition updateNodeSizeWithNewSize :: "string \<Rightarrow> size_rect \<Rightarrow> state \<Rightarrow> state" where
  "updateNodeSizeWithNewSize nodeId newSize st =
     (if editingNode st = Some nodeId then st
      else case d3Renderer st of
        None \<Rightarrow> st
      | Some r \<Rightarrow>
          let r1 = r\<lparr>nodeSizeCache := (nodeSizeCache r)(nodeId \<mapsto> newSize),
                     r_nodes := map_first (\<lambda>n. el_id n = nodeId) (set_rect newSize) (r_nodes r),
                     r_dom := (r_dom r)(nodeId \<mapsto> newSize)\<rparr>;
              els = map_first (\<lambda>n. \<not> is_edge n \<and> el_id n = nodeId) (set_vue_rect True newSize) (elements st);
              r2 = r1\<lparr>r_nodes := map_first (\<lambda>n. el_id n = nodeId) (set_rect_fixed newSize) (r_nodes r1),
                      positions := map_option (\<lambda>pos. pos(nodeId := None)) (positions r1)\<rparr>
          in st\<lparr>elements := els, d3Renderer := Some r2\<rparr>)"

text \<open>
  The callback that runs two frames later, here and at the end of the size timer: with an
  edit going on only \<open>d3Node.data\<close> is written, else \<open>setData\<close> and a soft render.
\<close>

definition size_frame :: "bool \<Rightarrow> string \<Rightarrow> size_rect \<Rightarrow> state \<Rightarrow> state" where
  "size_frame again nodeId newSize st =
     (case d3Renderer st of
        None \<Rightarrow> st
      | Some r \<Rightarrow>
          if truthy (editingNode st)
          then st\<lparr>d3Renderer := Some (r\<lparr>r_nodes := map_first (\<lambda>n. el_id n = nodeId) (set_rect_fixed newSize) (r_nodes r)\<rparr>)\<rparr>
          else
            let st1 = setData (nodes_of st) (edges_of st) (nodeCreationOrder st) st;
                st2 = (if again
                       then st1\<lparr>d3Renderer := map_option
                              (\<lambda>r1. r1\<lparr>r_nodes := map_first (\<lambda>n. el_id n = nodeId) (set_rect_fixed newSize) (r_nodes r1)\<rparr>)
                              (d3Renderer st1)\<rparr>
                       else st1)
            in fst (safeRender False st2))"

fun starts_with :: "string \<Rightarrow> string \<Rightarrow> bool" where
  "starts_with [] ys = True"
| "starts_with (x # xs) [] = False"
| "starts_with (x # xs) (y # ys) = (x = y \<and> starts_with xs ys)"

text \<open>\<open>s.includes(sub)\<close> on strings.\<close>

fun str_includes :: "string \<Rightarrow> string \<Rightarrow> bool" where
  "str_includes [] sub = (sub = [])"
| "str_includes (y # ys) sub = (starts_with sub (y # ys) \<or> str_includes ys sub)"

definition hasImages :: "string \<Rightarrow> bool" where
  "hasImages l = (str_includes l ''<img'' \<or> str_includes l ''image-wrapper'')"

text \<open>\<open>Math.ceil(19 * 1.4) + 16\<close>.\<close>

definition singleLineHeight :: int where
  "singleLineHeight = 43"

text \<open>
  \<open>calculateAndUpdateNodeSize\<close>: the size that its deferred callback will hand to
  \<open>updateNodeSizeWithNewSize\<close>, or \<open>None\<close> when it gives up. It gives up at its entry
  for a node under edit, a missing or destroyed editor and a missing or blank label, and
  in the deferred callback when the node's group (with its rect and its text box) is not
  on screen or the editor has no view. \<open>scrollWidth\<close> and \<open>scrollHeight\<close> are the
  measures that the callback will read from the DOM.
\<close>

definition calculateAndUpdateNodeSize ::
  "(char \<Rightarrow> bool) \<Rightarrow> int \<Rightarrow> int \<Rightarrow> string \<Rightarrow> state \<Rightarrow> size_rect option" where
  "calculateAndUpdateNodeSize w scrollWidth scrollHeight nodeId st =
     (if editingNode st = Some nodeId then None
      else case d3Renderer st of
        None \<Rightarrow> None
      | Some r \<Rightarrow>
          (case r_editors r nodeId of
             None \<Rightarrow> None
           | Some editorInstance \<Rightarrow>
               if ed_isDestroyed editorInstance then None
               else (case find (\<lambda>n. el_id n = nodeId) (nodes_of st) of
                 None \<Rightarrow> None
               | Some remoteNode \<Rightarrow>
                   let l = label_or_empty (el_data remoteNode) in
                   if l = [] \<or> js_trim w l = [] then None
                   else if r_dom r nodeId = None \<or> \<not> ed_hasView editorInstance then None
                   else (case size_truthy (el_data remoteNode) of
                     Some sizeFromPayload \<Rightarrow> Some sizeFromPayload
                   | None \<Rightarrow>
                       if hasImages l then Some \<lparr>width = 400, height = singleLineHeight\<rparr>
                       else
                         let calculatedWidth = max (scrollWidth + 32) 130;
                             calculatedHeight = max scrollHeight singleLineHeight;
                             finalWidth = (if calculatedWidth > 400 then 400 else calculatedWidth)
                         in Some \<lparr>width = finalWidth, height = calculatedHeight\<rparr>))))"

text \<open>
  The size timer that \<open>handleRealtimeNodeUpdate\<close> sets for 150 ms later, in its three
  stages. First the checks made when the timer fires.
\<close>

definition sizeTimer_check :: "(char \<Rightarrow> bool) \<Rightarrow> update_captured \<Rightarrow> state \<Rightarrow> bool" where
  "sizeTimer_check w cap st =
     (let rid = np_id (uc_remoteNode cap) in
      if editingNode st = Some rid then False
      else case d3Renderer st of
        None \<Rightarrow> False
      | Some r \<Rightarrow>
          (case r_editors r rid of
             None \<Rightarrow> False
           | Some editorInstance \<Rightarrow>
               \<not> ed_isDestroyed editorInstance
               \<and> (let l = label_or_empty (np_data (uc_remoteNode cap))
                  in l \<noteq> [] \<and> js_trim w l \<noteq> [])))"

text \<open>
  Then, after a frame, 10 ms and another frame: the width, estimated by the layout
  collaborator's \<open>estimateNodeSize\<close> unless the label has images, is written on the
  node's group if that is on screen. The result is the size carried on.
\<close>

definition sizeTimer_width ::
  "(node_patch \<Rightarrow> size_rect) \<Rightarrow> update_captured \<Rightarrow> state \<Rightarrow> (state \<times> size_rect) option" where
  "sizeTimer_width estimateNodeSize cap st =
     (let rid = np_id (uc_remoteNode cap) in
      case d3Renderer st of
        None \<Rightarrow> None
      | Some r \<Rightarrow>
          (case (r_dom r rid, r_editors r rid) of
             (Some shown, Some editorInstance) \<Rightarrow>
               if \<not> ed_hasView editorInstance then None
               else
                 let newSize = (if hasImages (label_or_empty (np_data (uc_remoteNode cap)))
                                then \<lparr>width = 400, height = singleLineHeight\<rparr>
                                else estimateNodeSize (uc_remoteNode cap))
                 in Some (st\<lparr>d3Renderer := Some (r\<lparr>r_dom := (r_dom r)(rid \<mapsto> shown\<lparr>width := width newSize\<rparr>)\<rparr>)\<rparr>,
                          newSize)
           | _ \<Rightarrow> None))"

text \<open>
  Last, 50 ms later (or 20 ms after the images have loaded): the height read from the DOM
  completes the size, which is written to \<open>nodeSizeCache\<close>, to the renderer's node, on
  screen and to the node of \<open>nodes.value\<close>; the node's position is dropped.
\<close>

definition sizeTimer_write :: "int \<Rightarrow> update_captured \<Rightarrow> size_rect \<Rightarrow> state \<Rightarrow> state" where
  "sizeTimer_write measuredHeight cap newSize0 st =
     (let rid = np_id (uc_remoteNode cap);
          newSize = newSize0\<lparr>height := measuredHeight\<rparr>
      in case d3Renderer st of
        None \<Rightarrow> st
      | Some r \<Rightarrow>
          let r1 = r\<lparr>nodeSizeCache := (nodeSizeCache r)(rid \<mapsto> newSize),
                     r_nodes := map_first (\<lambda>n. el_id n = rid) (set_rect newSize) (r_nodes r),
                     r_dom := (r_dom r)(rid \<mapsto> newSize),
                     positions := map_option (\<lambda>pos. pos(rid := None)) (positions r)\<rparr>;
              els = map_first (\<lambda>n. \<not> is_edge n \<and> el_id n = rid) (set_vue_rect False newSize) (elements st)
          in st\<lparr>elements := els, d3Renderer := Some r1\<rparr>)"

section \<open>A small document\<close>

text \<open>
  A document with the nodes \<open>root\<close>, \<open>n1\<close> and \<open>n3\<close> and the edges from \<open>root\<close> to
  \<open>n1\<close> and from \<open>n1\<close> to \<open>n3\<close>; the local user is editing \<open>n1\<close>. It is the
  input of the examples below.
\<close>

definition mk_node :: "string \<Rightarrow> string \<Rightarrow> element" where
  "mk_node i l = \<lparr>el_id = i, el_data = Some (empty_data\<lparr>d_label := Some l\<rparr>),
                  el_source = [], el_target = []\<rparr>"

definition mk_edge :: "string \<Rightarrow> string \<Rightarrow> element" where
  "mk_edge a b = \<lparr>el_id = ''edge-'' @ a @ ''-'' @ b, el_data = None, el_source = a, el_target = b\<rparr>"

definition mk_patch :: "string \<Rightarrow> string \<Rightarrow> node_patch" where
  "mk_patch i l = \<lparr>np_id = i, np_data = Some (empty_data\<lparr>d_label := Some l\<rparr>)\<rparr>"

definition ex_editor :: editor where
  "ex_editor = \<lparr>ed_isDestroyed = False, ed_hasView = True, ed_isFocused = True, ed_domActive = True,
                ed_selection = \<lparr>sel_from = 3, sel_to = 3, sel_anchor = 3, sel_head = 3\<rparr>,
                ed_docSize = 5, ed_content = ''A'', ed_html = ''A''\<rparr>"

definition ex_nodes :: "element list" where
  "ex_nodes = [mk_node ''root'' ''R'', mk_node ''n1'' ''A'', mk_node ''n3'' ''C'']"

definition ex_edges :: "element list" where
  "ex_edges = [mk_edge ''root'' ''n1'', mk_edge ''n1'' ''n3'']"

definition ex_renderer :: renderer where
  "ex_renderer =
     \<lparr>r_nodes = ex_nodes, r_edges = ex_edges, r_order = Map.empty,
      nodeSizeCache = [''n1'' \<mapsto> \<lparr>width = 130, height = 43\<rparr>],
      positions = Some [''root'' \<mapsto> (0, 0), ''n1'' \<mapsto> (200, 0), ''n3'' \<mapsto> (400, 0)],
      r_editors = [''n1'' \<mapsto> ex_editor],
      r_dom = [''n1'' \<mapsto> \<lparr>width = 130, height = 43\<rparr>]\<rparr>"

definition ex_state :: state where
  "ex_state =
     \<lparr>elements = ex_nodes @ ex_edges, nodeCreationOrder = Map.empty,
      editingNode = Some ''n1'', selectedNode = None, isSaving = False,
      editingStartTime = Some 1000, changedNodeIds = {},
      entityName = ''doc'', currentUser = ''me'',
      hasSaveSnapshot = True, hasApplyStrikethrough = True,
      d3Renderer = Some ex_renderer, effects = []\<rparr>"

text \<open>The event passes the guards of the deletion handler.\<close>

definition del_processed :: "state \<Rightarrow> del_payload \<Rightarrow> bool" where
  "del_processed st payload =
     (dp_entity_name payload = entityName st \<and> dp_modified_by payload \<noteq> currentUser st
      \<and> \<not> isSaving st \<and> dp_node_ids payload \<noteq> [])"

definition ex_delete :: del_payload where
  "ex_delete = \<lparr>dp_entity_name = ''doc'', dp_modified_by = ''peer'', dp_node_ids = [''n3'']\<rparr>"

section \<open>Reading the Document Store\<close>

text \<open>The \<open>data\<close> of the first node of \<open>nodes.value\<close> with a given id, and its fields.\<close>

definition store_data :: "state \<Rightarrow> string \<Rightarrow> node_data option" where
  "store_data st i =
     (case find (\<lambda>el. el_id el = i) (nodes_of st) of None \<Rightarrow> None | Some el \<Rightarrow> el_data el)"

definition store_label :: "state \<Rightarrow> string \<Rightarrow> string option" where
  "store_label st i = label_of (store_data st i)"

definition has_node :: "state \<Rightarrow> string \<Rightarrow> bool" where
  "has_node st i = (i \<in> set (map el_id (nodes_of st)))"

text \<open>The same for the renderer's own \<open>nodes\<close> array.\<close>

definition renderer_label :: "state \<Rightarrow> string \<Rightarrow> string option" where
  "renderer_label st i =
     (case d3Renderer st of
        None \<Rightarrow> None
      | Some r \<Rightarrow>
          (case find (\<lambda>el. el_id el = i) (r_nodes r) of None \<Rightarrow> None | Some el \<Rightarrow> label_of (el_data el)))"

section \<open>Example events\<close>

definition ex_saving :: state where
  "ex_saving = ex_state\<lparr>isSaving := True\<rparr>"

definition ex_update :: "string \<Rightarrow> string \<Rightarrow> update_payload" where
  "ex_update i l = \<lparr>up_entity_name = ''doc'', up_modified_by = ''peer'', up_node_id = i,
                    up_node = Some (mk_patch i l), up_edge = None\<rparr>"

definition ex_batch :: "node_patch list \<Rightarrow> element list option \<Rightarrow> batch_payload" where
  "ex_batch ns es = \<lparr>bp_entity_name = ''doc'', bp_modified_by = ''peer'', bp_nodes = ns, bp_edges = es\<rparr>"

section \<open>The single-parent invariant\<close>

text \<open>
  Every edge target has at most one incoming edge: the targets of the edges of the store
  are pairwise distinct.
\<close>

definition single_parent :: "state \<Rightarrow> bool" where
  "single_parent st = distinct (map el_target (edges_of st))"

text \<open>The edges of a batch payload, and the same condition on them.\<close>

definition payload_edges :: "batch_payload \<Rightarrow> element list" where
  "payload_edges p = (case bp_edges p of None \<Rightarrow> [] | Some es \<Rightarrow> es)"

definition distinct_targets :: "element list \<Rightarrow> bool" where
  "distinct_targets es = distinct (map el_target (filter is_edge es))"

text \<open>The batch passes the guards of its handler.\<close>

definition batch_processed :: "state \<Rightarrow> batch_payload \<Rightarrow> bool" where
  "batch_processed st p =
     (bp_entity_name p = entityName st \<and> bp_modified_by p \<noteq> currentUser st \<and> \<not> isSaving st
      \<and> bp_nodes p \<noteq> []
      \<and> \<not> list_all (\<lambda>i. Some i = editingNode st \<or> Some i = selectedNode st) (map np_id (bp_nodes p)))"

text \<open>The nodes that the batch handler then puts into the store.\<close>

definition batch_updatedNodes :: "state \<Rightarrow> batch_payload \<Rightarrow> element list" where
  "batch_updatedNodes st p =
     map (batch_merge_node (bp_nodes p)) (nodes_of st)
       @ map as_element (filter (\<lambda>n. np_id n \<notin> set (map el_id (nodes_of st))) (bp_nodes p))"

text \<open>
  Events that move \<open>n3\<close> under \<open>root\<close>, and a batch whose two edges both point to the new
  node \<open>n4\<close>.
\<close>

definition ex_move :: update_payload where
  "ex_move = (ex_update ''n3'' ''C'')\<lparr>up_edge := Some (mk_edge ''root'' ''n3'')\<rparr>"

definition ex_batch_move :: batch_payload where
  "ex_batch_move = ex_batch [mk_patch ''n3'' ''C''] (Some [mk_edge ''root'' ''n3''])"

definition ex_two_parents :: batch_payload where
  "ex_two_parents = ex_batch [mk_patch ''n4'' ''D''] (Some [mk_edge ''root'' ''n4'', mk_edge ''n1'' ''n4''])"

text \<open>A batch that brings the new node \<open>n4\<close> together with a patch for \<open>n1\<close>.\<close>

definition ex_new_and_active :: batch_payload where
  "ex_new_and_active = ex_batch [mk_patch ''n4'' ''D'', mk_patch ''n1'' ''X''] None"

text \<open>The same batch with the edge that hangs \<open>n4\<close> under \<open>n1\<close>.\<close>

definition ex_new_with_edge :: batch_payload where
  "ex_new_with_edge =
     ex_batch [mk_patch ''n4'' ''D'', mk_patch ''n1'' ''X''] (Some [mk_edge ''n1'' ''n4''])"

text \<open>The effects logged since an earlier state.\<close>

definition new_effects :: "state \<Rightarrow> state \<Rightarrow> effect list" where
  "new_effects st st' = drop (length (effects st)) (effects st')"

section \<open>An event for the node under local edit\<close>

text \<open>
  The event passes the guards of \<open>handleRealtimeNodeUpdate\<close> and carries the node
  \<open>rn\<close>, which is the active edit node and stands at index \<open>i\<close> of \<open>elements.value\<close>.
\<close>

definition update_for_active :: "state \<Rightarrow> update_payload \<Rightarrow> node_patch \<Rightarrow> nat \<Rightarrow> bool" where
  "update_for_active st p rn i =
     (up_entity_name p = entityName st \<and> up_modified_by p \<noteq> currentUser st \<and> \<not> isSaving st
      \<and> up_node p = Some rn \<and> editingNode st = Some (np_id rn)
      \<and> findIndex (\<lambda>el. el_id el = np_id rn \<and> el_source el = [] \<and> el_target el = []) (elements st) = Some i)"

text \<open>
  The write \<open>d3Node.data.completed = ...\<close> can be made: the renderer has no node with
  the id, or the event carries no \<open>completed\<close>, or the renderer's node has \<open>data\<close>.
\<close>

definition completed_writable :: "state \<Rightarrow> node_patch \<Rightarrow> bool" where
  "completed_writable st rn =
     (case d3Renderer st of
        None \<Rightarrow> True
      | Some r \<Rightarrow>
          (case find (\<lambda>n. el_id n = np_id rn) (r_nodes r) of
             None \<Rightarrow> True
           | Some d3Node \<Rightarrow> completed_of (np_data rn) = None \<or> el_data d3Node \<noteq> None))"

text \<open>The fields of \<open>data\<close> other than the label, \<open>completed\<close> and the size.\<close>

definition other_fields :: "node_data option \<Rightarrow> int option \<times> int option \<times> int option" where
  "other_fields d = (d_order (data_or_empty d), d_fixedWidth (data_or_empty d), d_fixedHeight (data_or_empty d))"

text \<open>The editor instances of the renderer.\<close>

definition editors_of :: "state \<Rightarrow> (string \<rightharpoonup> editor) option" where
  "editors_of st = map_option r_editors (d3Renderer st)"

text \<open>
  The user has typed into \<open>n1\<close>: it is in the dirty set. The event, five seconds after
  the edit began, carries a label, \<open>completed\<close> and a size.
\<close>

definition ex_dirty :: state where
  "ex_dirty = ex_state\<lparr>changedNodeIds := {''n1''}\<rparr>"

text \<open>The same, with a renderer whose node \<open>n1\<close> has no \<open>data\<close>.\<close>

definition ex_dirty_bare :: state where
  "ex_dirty_bare =
     ex_dirty\<lparr>d3Renderer := Some (ex_renderer\<lparr>r_nodes :=
        [mk_node ''root'' ''R'', \<lparr>el_id = ''n1'', el_data = None, el_source = [], el_target = []\<rparr>,
         mk_node ''n3'' ''C'']\<rparr>)\<rparr>"

definition ex_completed_rect :: update_payload where
  "ex_completed_rect =
     \<lparr>up_entity_name = ''doc'', up_modified_by = ''peer'', up_node_id = ''n1'',
      up_node = Some \<lparr>np_id = ''n1'',
                      np_data = Some (empty_data\<lparr>d_label := Some ''X'', d_completed := Some True,
                                                 d_rect := Some \<lparr>width = 300, height = 60\<rparr>\<rparr>)\<rparr>,
      up_edge = None\<rparr>"

text \<open>
  The entry of a node in \<open>elements.value\<close>, as the handler finds it: the first element
  with the id and neither \<open>source\<close> nor \<open>target\<close>.
\<close>

definition entry_data :: "state \<Rightarrow> string \<Rightarrow> node_data option" where
  "entry_data st a =
     (case find (\<lambda>el. el_id el = a \<and> el_source el = [] \<and> el_target el = []) (elements st) of
        None \<Rightarrow> None | Some el \<Rightarrow> el_data el)"

definition entry_label :: "state \<Rightarrow> string \<Rightarrow> string option" where
  "entry_label st a = label_of (entry_data st a)"

section \<open>Subtrees\<close>

text \<open>
  The parent-child relation that the edges of \<open>elements.value\<close> give, and the subtree of
  a node: the node and every node reachable from it along edges.
\<close>

definition edge_rel :: "element list \<Rightarrow> (string \<times> string) set" where
  "edge_rel els = {(el_source e, el_target e) | e. e \<in> set els \<and> is_edge e}"

definition descendants :: "element list \<Rightarrow> string \<Rightarrow> string set" where
  "descendants els n = {x. (n, x) \<in> (edge_rel els)\<^sup>+}"

definition subtree :: "element list \<Rightarrow> string \<Rightarrow> string set" where
  "subtree els n = insert n (descendants els n)"

text \<open>
  A rank that decreases along every edge: there is one exactly when the edges have no
  cycle.
\<close>

definition ranked :: "(string \<Rightarrow> nat) \<Rightarrow> element list \<Rightarrow> bool" where
  "ranked rank els = (\<forall>e \<in> set els. is_edge e \<longrightarrow> rank (el_target e) < rank (el_source e))"

text \<open>The position cache of the renderer, when there is one.\<close>

definition positions_of :: "state \<Rightarrow> (string \<rightharpoonup> position) option" where
  "positions_of st = Option.bind (d3Renderer st) positions"

text \<open>
  An event that moves \<open>n1\<close>, the node under edit with local changes, under \<open>n3\<close>'s
  former place: its edge now comes from \<open>root\<close> again, five seconds after the edit began.
\<close>

definition ex_move_active :: update_payload where
  "ex_move_active = (ex_update ''n1'' ''A'')\<lparr>up_edge := Some (mk_edge ''root'' ''n1'')\<rparr>"

text \<open>In the example document \<open>root\<close> is above \<open>n1\<close>, which is above \<open>n3\<close>.\<close>

definition ex_rank :: "string \<Rightarrow> nat" where
  "ex_rank n = (if n = ''root'' then 2 else if n = ''n1'' then 1 else 0)"

text \<open>
  The user is editing \<open>n3\<close> when the event that moves \<open>n1\<close> comes: the state that the
  handler leaves to its callback, and what the callback has captured.
\<close>

definition ex_editing_n3 :: state where
  "ex_editing_n3 = ex_state\<lparr>editingNode := Some ''n3''\<rparr>"

definition ex_moved_state :: state where
  "ex_moved_state = fst (update_sync 1500 ex_editing_n3 (Some ex_move_active))"

definition ex_moved_cap :: update_captured where
  "ex_moved_cap = the (snd (update_sync 1500 ex_editing_n3 (Some ex_move_active)))"

definition ex_batch_cap :: batch_captured where
  "ex_batch_cap = the (snd (batch_sync ex_editing_n3
                     (Some (ex_batch [mk_patch ''n1'' ''A''] (Some [mk_edge ''root'' ''n1''])))))"

definition ex_batch_state :: state where
  "ex_batch_state = fst (batch_sync ex_editing_n3
                     (Some (ex_batch [mk_patch ''n1'' ''A''] (Some [mk_edge ''root'' ''n1'']))))"

section \<open>Example of a forced render\<close>

text \<open>\<open>Math.max(0, Math.min(x, docSize))\<close>.\<close>

definition clamp_offset :: "int \<Rightarrow> int \<Rightarrow> int" where
  "clamp_offset docSize x = max 0 (min x docSize)"

text \<open>
  One round of the polling loop and one of the focus loop; the number of rounds that the
  focus loop makes, which is the number of the first check that finds the editor focused,
  and three when none does; and the first poll, of the ten, that finds a usable editor.
\<close>

definition poll_round :: "restore_step list" where
  "poll_round = [Timeout 50, AnimationFrame, GetEditor]"

definition focus_round :: "restore_step list" where
  "focus_round = [Command FocusEnd, Timeout 50]"

definition focus_attempts :: "(nat \<Rightarrow> bool) \<Rightarrow> nat" where
  "focus_attempts focused =
     (if focused 0 then 0 else if focused 1 then 1 else if focused 2 then 2 else 3)"

definition first_usable :: "(nat \<Rightarrow> editor option) \<Rightarrow> nat \<Rightarrow> bool" where
  "first_usable polls k = (k < 10 \<and> usable (polls k) \<and> (\<forall>j < k. \<not> usable (polls j)))"

text \<open>The snapshot that \<open>preserveEditorState\<close> takes of an editor.\<close>

definition snapshot_of :: "string \<Rightarrow> editor \<Rightarrow> preserved_state" where
  "snapshot_of nodeId ed =
     \<lparr>ps_nodeId = nodeId, ps_isFocused = (ed_isFocused ed \<or> ed_domActive ed),
      ps_selection = ed_selection ed, ps_content = ed_content ed\<rparr>"

text \<open>
  The editor of \<open>n1\<close> has its cursor at offset 3, with nothing selected. After the render
  it is back at the first poll, with the same document, and has lost the focus.
\<close>

definition ex_polls :: "nat \<Rightarrow> editor option" where
  "ex_polls k = Some (ex_editor\<lparr>ed_isFocused := False, ed_domActive := False\<rparr>)"

definition ex_range :: preserved_state where
  "ex_range = (snapshot_of ''n1'' ex_editor)
                \<lparr>ps_selection := \<lparr>sel_from = 2, sel_to = 9, sel_anchor = 2, sel_head = 9\<rparr>\<rparr>"

section \<open>Example of an event without a label\<close>

text \<open>
  The user has \<open>n3\<close> selected and is editing \<open>n1\<close>; the event for \<open>n3\<close> carries
  \<open>completed\<close> and no label. The editor of \<open>n3\<close> is mounted and shows its label.
\<close>

definition ex_selected :: state where
  "ex_selected =
     ex_state\<lparr>selectedNode := Some ''n3'',
              d3Renderer := Some (ex_renderer\<lparr>r_editors :=
                  [''n1'' \<mapsto> ex_editor, ''n3'' \<mapsto> ex_editor\<lparr>ed_content := ''C'', ed_html := ''C''\<rparr>]\<rparr>)\<rparr>"

definition ex_completed_only :: update_payload where
  "ex_completed_only =
     \<lparr>up_entity_name = ''doc'', up_modified_by = ''peer'', up_node_id = ''n3'',
      up_node = Some \<lparr>np_id = ''n3'', np_data = Some (empty_data\<lparr>d_completed := Some True\<rparr>)\<rparr>,
      up_edge = None\<rparr>"

definition ex_selected_cap :: update_captured where
  "ex_selected_cap = the (snd (update_sync 1500 ex_selected (Some ex_completed_only)))"

definition ex_env :: js_env where
  "ex_env = \<lparr>nfc = (\<lambda>s. s), ws = (\<lambda>c. c = CHR '' ''), imageCount = (\<lambda>s. 0), rebuild = (\<lambda>s. s)\<rparr>"

definition ex_obs :: content_obs where
  "ex_obs = \<lparr>ob_containerExists = True, ob_containerHasChildren = True, ob_mountReady = True,
             ob_readyEditor = None,
             ob_polls = (\<lambda>k. Some (ex_editor\<lparr>ed_content := ''C'', ed_html := ''C''\<rparr>))\<rparr>"

text \<open>The label that the renderer's own node carries, empty when there is none.\<close>

definition renderer_label_or_empty :: "state \<Rightarrow> string \<Rightarrow> string" where
  "renderer_label_or_empty st i = (case renderer_label st i of None \<Rightarrow> [] | Some l \<Rightarrow> l)"

section \<open>What the content timer writes\<close>

text \<open>The arguments of the \<open>setContent\<close> calls logged since an earlier state.\<close>

definition content_writes :: "state \<Rightarrow> state \<Rightarrow> (string \<times> string) list" where
  "content_writes st st' =
     List.map_filter (\<lambda>e. case e of SetContent i c \<Rightarrow> Some (i, c) | _ \<Rightarrow> None) (new_effects st st')"

text \<open>A label is blank: empty, or nothing but white space once normalized.\<close>

definition blank :: "js_env \<Rightarrow> string \<Rightarrow> bool" where
  "blank env l = (l = [] \<or> js_trim (ws env) (nfc env l) = [])"

text \<open>
  The editor was mounted before the timer fired: the timer does not find an empty
  container.
\<close>

definition editor_mounted :: "content_obs \<Rightarrow> bool" where
  "editor_mounted ob = (ob_containerHasChildren ob \<or> \<not> ob_containerExists ob)"

text \<open>
  The label that the content step works with: the event's, and when the event has none
  and the editor was mounted before, the label of the renderer's node.
\<close>

definition label_source :: "content_obs \<Rightarrow> update_captured \<Rightarrow> state \<Rightarrow> string" where
  "label_source ob cap st =
     (let l0 = label_or_empty (np_data (uc_remoteNode cap))
      in if l0 \<noteq> [] then l0
         else if editor_mounted ob then renderer_label_or_empty st (np_id (uc_remoteNode cap))
         else [])"

text \<open>An event for \<open>n3\<close> whose label is white space only, as the callbacks keep it.\<close>

definition ex_blank_cap :: update_captured where
  "ex_blank_cap = the (snd (update_sync 1500 ex_selected (Some (ex_update ''n3'' ''  ''))))"

section \<open>Reading the sizes\<close>

text \<open>
  The entry of \<open>nodeSizeCache\<close> for a node, the geometry of its group on screen, the
  \<open>rect\<close> of the renderer's node and the \<open>rect\<close> of the node of \<open>nodes.value\<close>.
\<close>

definition size_cache :: "state \<Rightarrow> string \<Rightarrow> size_rect option" where
  "size_cache st i = Option.bind (d3Renderer st) (\<lambda>r. nodeSizeCache r i)"

definition shown_size :: "state \<Rightarrow> string \<Rightarrow> size_rect option" where
  "shown_size st i = Option.bind (d3Renderer st) (\<lambda>r. r_dom r i)"

definition renderer_rect :: "state \<Rightarrow> string \<Rightarrow> size_rect option" where
  "renderer_rect st i =
     (case d3Renderer st of
        None \<Rightarrow> None
      | Some r \<Rightarrow>
          (case find (\<lambda>el. el_id el = i) (r_nodes r) of None \<Rightarrow> None | Some el \<Rightarrow> rect_truthy (el_data el)))"

definition store_rect :: "state \<Rightarrow> string \<Rightarrow> size_rect option" where
  "store_rect st i = rect_truthy (store_data st i)"

text \<open>
  The editor of \<open>n3\<close> is mounted and its group is on screen with a cached size, while the
  user edits \<open>n1\<close>. The event brings a longer label for \<open>n3\<close>; the layout collaborator
  estimates a width of 200 for it.
\<close>

definition ex_sized_renderer :: renderer where
  "ex_sized_renderer =
     ex_renderer
        \<lparr>nodeSizeCache := [''n1'' \<mapsto> \<lparr>width = 130, height = 43\<rparr>, ''n3'' \<mapsto> \<lparr>width = 130, height = 43\<rparr>],
         r_editors := [''n1'' \<mapsto> ex_editor,
                       ''n3'' \<mapsto> ex_editor\<lparr>ed_isFocused := False, ed_content := ''C'', ed_html := ''C''\<rparr>],
         r_dom := [''n1'' \<mapsto> \<lparr>width = 130, height = 43\<rparr>, ''n3'' \<mapsto> \<lparr>width = 130, height = 43\<rparr>]\<rparr>"

definition ex_sized :: state where
  "ex_sized = ex_state\<lparr>d3Renderer := Some ex_sized_renderer\<rparr>"

definition ex_size_event :: update_payload where
  "ex_size_event = ex_update ''n3'' ''a longer label''"

definition ex_size_cap :: update_captured where
  "ex_size_cap = the (snd (update_sync 1500 ex_sized (Some ex_size_event)))"

definition ex_estimate :: "node_patch \<Rightarrow> size_rect" where
  "ex_estimate n = \<lparr>width = 200, height = 43\<rparr>"

text \<open>The user starts to edit a node.\<close>

definition startEditing :: "string \<Rightarrow> state \<Rightarrow> state" where
  "startEditing i st = st\<lparr>editingNode := Some i\<rparr>"

section \<open>Properties of the deletion handler\<close>

lemma safeRender_frame:
  "elements (fst (safeRender f st)) = elements st"
  "nodeCreationOrder (fst (safeRender f st)) = nodeCreationOrder st"
  "entityName (fst (safeRender f st)) = entityName st"
  "currentUser (fst (safeRender f st)) = currentUser st"
  "isSaving (fst (safeRender f st)) = isSaving st"
  "editingNode (fst (safeRender f st)) = editingNode st"
  "selectedNode (fst (safeRender f st)) = selectedNode st"
  "changedNodeIds (fst (safeRender f st)) = changedNodeIds st"
  "d3Renderer (fst (safeRender f st)) = d3Renderer st"
  by (simp_all add: safeRender_def log_effect_def Let_def split: option.splits)

lemma setData_frame:
  "elements (setData ns es ord st) = elements st"
  "nodeCreationOrder (setData ns es ord st) = nodeCreationOrder st"
  "entityName (setData ns es ord st) = entityName st"
  "currentUser (setData ns es ord st) = currentUser st"
  "isSaving (setData ns es ord st) = isSaving st"
  "editingNode (setData ns es ord st) = editingNode st"
  "selectedNode (setData ns es ord st) = selectedNode st"
  "changedNodeIds (setData ns es ord st) = changedNodeIds st"
  by (simp_all add: setData_def log_effect_def)

lemma delete_keys_apply: "delete_keys ids m k = (if k \<in> set ids then None else m k)"
  unfolding delete_keys_def by (induction ids arbitrary: m) auto

lemma delete_keys_idem: "delete_keys ids (delete_keys ids m) = delete_keys ids m"
  by (rule ext) (simp add: delete_keys_apply)

lemma del_ignored: "\<not> del_processed st p \<Longrightarrow> handleRealtimeNodesDeleted st (Some p) = st"
  by (auto simp: del_processed_def handleRealtimeNodesDeleted_def)

lemma del_elements:
  "del_processed st p \<Longrightarrow> elements (handleRealtimeNodesDeleted st (Some p)) =
     filter (\<lambda>n. el_id n \<notin> set (dp_node_ids p)) (nodes_of st) @
     filter (\<lambda>e. el_source e \<notin> set (dp_node_ids p) \<and> el_target e \<notin> set (dp_node_ids p)) (edges_of st)"
  by (simp add: del_processed_def handleRealtimeNodesDeleted_def Let_def nodes_of_def edges_of_def
       safeRender_frame setData_frame log_effect_def split: option.splits)

lemma del_order:
  "del_processed st p \<Longrightarrow> nodeCreationOrder (handleRealtimeNodesDeleted st (Some p)) =
     delete_keys (dp_node_ids p) (nodeCreationOrder st)"
  by (simp add: del_processed_def handleRealtimeNodesDeleted_def Let_def
       safeRender_frame setData_frame log_effect_def split: option.splits)

lemma del_guard:
  "entityName (handleRealtimeNodesDeleted st po) = entityName st"
  "currentUser (handleRealtimeNodesDeleted st po) = currentUser st"
  "isSaving (handleRealtimeNodesDeleted st po) = isSaving st"
  by (simp_all add: handleRealtimeNodesDeleted_def Let_def
       safeRender_frame setData_frame log_effect_def split: option.splits)

lemma partition_nodes:
  "filter (\<lambda>x. \<not> is_edge x) (filter P (filter (\<lambda>x. \<not> is_edge x) els) @ filter Q (filter is_edge els))
     = filter P (filter (\<lambda>x. \<not> is_edge x) els)"
  by (induction els) auto

lemma partition_edges:
  "filter is_edge (filter P (filter (\<lambda>x. \<not> is_edge x) els) @ filter Q (filter is_edge els))
     = filter Q (filter is_edge els)"
  by (induction els) auto

lemma filter_twice: "filter P (filter P xs) = filter P xs"
  by simp

lemma del_store_idem:
  "store (handleRealtimeNodesDeleted (handleRealtimeNodesDeleted st (Some p)) (Some p))
     = store (handleRealtimeNodesDeleted st (Some p))"
proof (cases "del_processed st p")
  case False
  then show ?thesis by (simp add: del_ignored)
next
  case True
  let ?st = "handleRealtimeNodesDeleted st (Some p)"
  from True have proc': "del_processed ?st p" by (simp add: del_processed_def del_guard)
  show ?thesis
    by (simp only: store_def nodes_of_def edges_of_def del_elements[OF proc'] del_order[OF proc']
          del_elements[OF True] del_order[OF True] delete_keys_idem partition_nodes partition_edges
          filter_twice)
qed

lemma del_no_dangling:
  assumes "del_processed st p" and "e \<in> set (edges_of (handleRealtimeNodesDeleted st (Some p)))"
  shows "el_source e \<notin> set (dp_node_ids p) \<and> el_target e \<notin> set (dp_node_ids p)"
  using assms(2) unfolding edges_of_def del_elements[OF assms(1)] nodes_of_def partition_edges
  by simp

text \<open>
  C6. Delivering the same NodesDeleted event twice leaves the Document Store (nodes,
  edges and the insertion-order index) as delivering it once does; and when the event
  passes the guards of the handler, no edge of the store has one of its node ids as
  source or target afterwards.
\<close>

theorem nodesDeleted_idempotent:
  "store (handleRealtimeNodesDeleted (handleRealtimeNodesDeleted st (Some p)) (Some p))
     = store (handleRealtimeNodesDeleted st (Some p))
   \<and> (del_processed st p \<longrightarrow>
        (\<forall>e \<in> set (edges_of (handleRealtimeNodesDeleted st (Some p))).
           el_source e \<notin> set (dp_node_ids p) \<and> el_target e \<notin> set (dp_node_ids p)))"
  using del_store_idem del_no_dangling by blast

theorem nodesDeleted_idempotent_witness:
  "del_processed ex_state ex_delete
   \<and> edges_of (handleRealtimeNodesDeleted ex_state (Some ex_delete)) = [mk_edge ''root'' ''n1'']
   \<and> store (handleRealtimeNodesDeleted (handleRealtimeNodesDeleted ex_state (Some ex_delete)) (Some ex_delete))
       = store (handleRealtimeNodesDeleted ex_state (Some ex_delete))"
proof -
  have p: "del_processed ex_state ex_delete"
    by (simp add: del_processed_def ex_state_def ex_delete_def)
  have e: "edges_of (handleRealtimeNodesDeleted ex_state (Some ex_delete)) = [mk_edge ''root'' ''n1'']"
    unfolding edges_of_def del_elements[OF p] nodes_of_def partition_edges
    by (simp add: ex_state_def ex_delete_def ex_nodes_def ex_edges_def mk_node_def mk_edge_def is_edge_def)
  from p e nodesDeleted_idempotent[of ex_state ex_delete] show ?thesis by blast
qed

section \<open>Unfolding the model on the example document\<close>

lemmas ex_defs = ex_state_def ex_saving_def ex_renderer_def ex_nodes_def ex_edges_def ex_editor_def
  ex_update_def ex_batch_def ex_delete_def mk_node_def mk_edge_def mk_patch_def empty_data_def

lemmas common_defs = Let_def nodes_of_def edges_of_def is_edge_def truthy_def js_includes_def
  log_effect_def safeRender_def setData_def preserveEditorState_def store_label_def store_data_def
  has_node_def renderer_label_def label_of_def completed_of_def order_of_def rect_truthy_def
  as_element_def spread_node_def data_or_empty_def with_data_def d3_set_completed_def d3_set_rect_def

lemmas update_defs = handleRealtimeNodeUpdate_def update_sync_def update_guards_def update_blocked_def
  update_return_def update_store_def update_elements_def
  update_completed_only_def update_edge_def within_grace_def set_order_def update_tick_def
  update_invalidate_def update_reconcile_def reconcile_d3_def reconcile_choice_def reconcile_this_def
  reconcile_soft_def reconcile_render_def after_render_update_def tick_d3Node_def tick_d3_effects_def
  tick_editing_d3Node_def soft_d3Node_def size_truthy_def num_truthy_def merge_data_def override_def
  childTargets_def eval_nat_numeral

lemmas batch_defs = handleRealtimeNodesBatchUpdate_def batch_sync_def batch_tick_def
  batch_invalidate_def batch_render_def batch_merge_node_def batch_edges_def batch_order_def
  batch_d3_updates_def batch_d3_update_def set_order_def updateRendererDataWithoutRender_def
  clearSubtrees_def childTargets_def delete_keys_def eval_nat_numeral

section \<open>Events that arrive while a save is in flight\<close>

lemma saving_comm:
  "st\<lparr>isSaving := b, d3Renderer := x\<rparr> = st\<lparr>d3Renderer := x, isSaving := b\<rparr>"
  "st\<lparr>isSaving := b, elements := y\<rparr> = st\<lparr>elements := y, isSaving := b\<rparr>"
  "st\<lparr>isSaving := b, nodeCreationOrder := z\<rparr> = st\<lparr>nodeCreationOrder := z, isSaving := b\<rparr>"
  "st\<lparr>isSaving := b, effects := w\<rparr> = st\<lparr>effects := w, isSaving := b\<rparr>"
  by simp_all

lemma setData_saving: "setData ns es ord (st\<lparr>isSaving := b\<rparr>) = (setData ns es ord st)\<lparr>isSaving := b\<rparr>"
  by (simp add: setData_def log_effect_def)

lemma safeRender_saving:
  "fst (safeRender f (st\<lparr>isSaving := b\<rparr>)) = (fst (safeRender f st))\<lparr>isSaving := b\<rparr>"
  by (simp add: safeRender_def log_effect_def Let_def split: option.splits)

lemma nodes_of_saving:
  "nodes_of (st\<lparr>isSaving := b\<rparr>) = nodes_of st"
  "edges_of (st\<lparr>isSaving := b\<rparr>) = edges_of st"
  by (simp_all add: nodes_of_def edges_of_def)

lemma after_render_update_saving:
  "after_render_update cap (st\<lparr>isSaving := b\<rparr>) = (after_render_update cap st)\<lparr>isSaving := b\<rparr>"
  by (simp add: after_render_update_def split: option.splits)

lemma tick_d3_effects_saving:
  "tick_d3_effects cap d (st\<lparr>isSaving := b\<rparr>) = (tick_d3_effects cap d st)\<lparr>isSaving := b\<rparr>"
  by (simp add: tick_d3_effects_def log_effect_def Let_def split: option.splits)

lemma update_completed_only_saving:
  "update_completed_only rn (st\<lparr>isSaving := b\<rparr>)
     = map_option (\<lambda>s. s\<lparr>isSaving := b\<rparr>) (update_completed_only rn st)"
  by (simp add: update_completed_only_def log_effect_def Let_def split: option.splits prod.splits)

lemma update_invalidate_saving:
  "update_invalidate fuel cap (st\<lparr>isSaving := b\<rparr>)
     = map_option (\<lambda>s. s\<lparr>isSaving := b\<rparr>) (update_invalidate fuel cap st)"
proof (cases "d3Renderer st")
  case None
  then show ?thesis by (simp add: update_invalidate_def)
next
  case (Some r)
  show ?thesis
  proof (cases "uc_hasEdge cap")
    case False
    with Some show ?thesis by (simp add: update_invalidate_def Let_def)
  next
    case True
    show ?thesis
    proof (cases "positions r")
      case None
      with Some True show ?thesis by (simp add: update_invalidate_def Let_def)
    next
      case (Some pos)
      with \<open>d3Renderer st = Some r\<close> True show ?thesis
        by (cases "clearChildrenPositions fuel (elements st) (np_id (uc_remoteNode cap))
                     (pos(np_id (uc_remoteNode cap) := None))")
           (simp_all add: update_invalidate_def Let_def)
    qed
  qed
qed

lemma reconcile_d3_saving:
  "reconcile_d3 cap (st\<lparr>isSaving := b\<rparr>) = map_option (\<lambda>s. s\<lparr>isSaving := b\<rparr>) (reconcile_d3 cap st)"
  by (simp add: reconcile_d3_def Let_def saving_comm tick_d3_effects_saving split: option.splits)

lemma reconcile_this_saving:
  "reconcile_this cap (st\<lparr>isSaving := b\<rparr>) = map_option (\<lambda>s. s\<lparr>isSaving := b\<rparr>) (reconcile_this cap st)"
  by (cases "d3Renderer st";
      cases "update_first (\<lambda>n. el_id n = np_id (uc_remoteNode cap)) (tick_editing_d3Node cap)
               (r_nodes (the (d3Renderer st)))")
     (simp_all add: reconcile_this_def)

lemma reconcile_soft_saving:
  "reconcile_soft cap (st\<lparr>isSaving := b\<rparr>) = map_option (\<lambda>s. s\<lparr>isSaving := b\<rparr>) (reconcile_soft cap st)"
  by (cases "d3Renderer st";
      cases "update_first (\<lambda>n. el_id n = np_id (uc_remoteNode cap))
               (soft_d3Node (\<not> uc_isNodeSelected cap \<and> \<not> uc_hasLocalChanges cap) cap)
               (r_nodes (the (d3Renderer st)))")
     (simp_all add: reconcile_soft_def)

lemma reconcile_render_saving:
  "reconcile_render f (st\<lparr>isSaving := b\<rparr>) = (reconcile_render f st)\<lparr>isSaving := b\<rparr>"
  by (simp add: reconcile_render_def nodes_of_saving setData_saving safeRender_saving)

lemma reconcile_choice_saving:
  "reconcile_choice cap (st\<lparr>isSaving := b\<rparr>)
     = map_option (\<lambda>(s, f). (s\<lparr>isSaving := b\<rparr>, f)) (reconcile_choice cap st)"
  by (simp add: reconcile_choice_def Let_def reconcile_this_saving reconcile_soft_saving
        reconcile_render_saving after_render_update_saving option.map_comp comp_def)

lemma update_reconcile_saving:
  "update_reconcile cap (st\<lparr>isSaving := b\<rparr>)
     = map_option (\<lambda>(s, f). (s\<lparr>isSaving := b\<rparr>, f)) (update_reconcile cap st)"
  by (cases "reconcile_d3 cap st")
     (simp_all add: update_reconcile_def reconcile_d3_saving reconcile_choice_saving)

lemma update_tick_saving:
  "update_tick fuel cap (st\<lparr>isSaving := b\<rparr>)
     = map_option (\<lambda>(s, f). (s\<lparr>isSaving := b\<rparr>, f)) (update_tick fuel cap st)"
  by (cases "update_invalidate fuel cap st")
     (simp_all add: update_tick_def update_invalidate_saving update_reconcile_saving)

lemma update_store_saving:
  "update_store rn a b1 c d (st\<lparr>isSaving := b\<rparr>) = (update_store rn a b1 c d st)\<lparr>isSaving := b\<rparr>"
  by (simp add: update_store_def Let_def log_effect_def)

lemma update_store_renderer: "d3Renderer (update_store rn a b1 c d st) = d3Renderer st"
  by (simp add: update_store_def Let_def log_effect_def)

lemma within_grace_saving: "within_grace now (st\<lparr>isSaving := b\<rparr>) = within_grace now st"
  by (simp add: within_grace_def)

lemma update_guards_saving:
  assumes "Some (up_node_id p) \<noteq> editingNode st"
  shows "update_guards (st\<lparr>isSaving := x\<rparr>) (Some p) = update_guards st (Some p)"
  using assms by (simp add: update_guards_def Let_def)

lemma update_blocked_saving: "update_blocked now (st\<lparr>isSaving := x\<rparr>) rn = update_blocked now st rn"
  by (simp add: update_blocked_def within_grace_saving)

lemma update_sync_saving:
  assumes "Some (up_node_id p) \<noteq> editingNode st"
  shows "update_sync now (st\<lparr>isSaving := x\<rparr>) (Some p)
           = (case update_sync now st (Some p) of (s, c) \<Rightarrow> (s\<lparr>isSaving := x\<rparr>, c))"
proof (cases "update_guards st (Some p)")
  case None
  then show ?thesis by (simp add: update_sync_def update_guards_saving[OF assms])
next
  case (Some q)
  obtain payload rn where q: "q = (payload, rn)" by (cases q)
  show ?thesis
    by (cases "d3Renderer st")
       (simp_all add: update_sync_def update_guards_saving[OF assms] Some q Let_def
          update_blocked_saving update_store_saving saving_comm update_store_renderer)
qed

lemma update_return_saving:
  assumes "Some (up_node_id p) \<noteq> editingNode st"
  shows "update_return now (st\<lparr>isSaving := x\<rparr>) (Some p) (s\<lparr>isSaving := x\<rparr>)
           = map_option (\<lambda>s. s\<lparr>isSaving := x\<rparr>) (update_return now st (Some p) s)"
  by (simp add: update_return_def update_guards_saving[OF assms] update_blocked_saving
        update_completed_only_saving split: option.splits)

lemma batch_saving: "isSaving st \<Longrightarrow> handleRealtimeNodesBatchUpdate fuel st po = Some st"
  by (simp add: handleRealtimeNodesBatchUpdate_def batch_sync_def split: option.splits)

lemma delete_saving: "isSaving st \<Longrightarrow> handleRealtimeNodesDeleted st po = st"
  by (simp add: handleRealtimeNodesDeleted_def split: option.splits)

lemma update_saving_active:
  "isSaving st \<Longrightarrow> Some (up_node_id p) = editingNode st \<Longrightarrow>
     handleRealtimeNodeUpdate now fuel st (Some p) = Some (st, False)"
  by (simp add: handleRealtimeNodeUpdate_def update_sync_def update_return_def update_guards_def)

lemma update_saving_other:
  assumes "isSaving st" and "Some (up_node_id p) \<noteq> editingNode st"
  shows "handleRealtimeNodeUpdate now fuel st (Some p)
           = map_option (\<lambda>(s, f). (s\<lparr>isSaving := True\<rparr>, f))
               (handleRealtimeNodeUpdate now fuel (st\<lparr>isSaving := False\<rparr>) (Some p))"
proof -
  let ?st0 = "st\<lparr>isSaving := False\<rparr>"
  have st: "st = ?st0\<lparr>isSaving := True\<rparr>" using assms(1) by simp
  have ne: "Some (up_node_id p) \<noteq> editingNode ?st0" using assms(2) by simp
  obtain s c where sc: "update_sync now ?st0 (Some p) = (s, c)"
    by (cases "update_sync now ?st0 (Some p)")
  have "update_sync now (?st0\<lparr>isSaving := True\<rparr>) (Some p) = (s\<lparr>isSaving := True\<rparr>, c)"
    using update_sync_saving[OF ne, of now True] sc by simp
  then have u: "update_sync now st (Some p) = (s\<lparr>isSaving := True\<rparr>, c)" using st by simp
  have "update_return now (?st0\<lparr>isSaving := True\<rparr>) (Some p) (s\<lparr>isSaving := True\<rparr>)
          = map_option (\<lambda>s. s\<lparr>isSaving := True\<rparr>) (update_return now ?st0 (Some p) s)"
    by (rule update_return_saving[OF ne])
  then have r: "update_return now st (Some p) (s\<lparr>isSaving := True\<rparr>)
          = map_option (\<lambda>s. s\<lparr>isSaving := True\<rparr>) (update_return now ?st0 (Some p) s)"
    using st by simp
  show ?thesis using sc u r
    by (cases c) (simp_all add: handleRealtimeNodeUpdate_def update_tick_saving option.map_comp comp_def)
qed

text \<open>
  C2, as the handlers have it. While a save is in flight, a NodeUpdated event is ignored
  when its \<open>node_id\<close> is the active edit node, and is processed as it would be without
  the save when it is another node: the result is the one obtained with \<open>isSaving\<close>
  unset, the flag apart. NodesBatchUpdated and NodesDeleted events are ignored whatever
  nodes they name.
\<close>

theorem saving_guard:
  "isSaving st \<longrightarrow>
     (Some (up_node_id p) = editingNode st \<longrightarrow>
        handleRealtimeNodeUpdate now fuel st (Some p) = Some (st, False))
   \<and> (Some (up_node_id p) \<noteq> editingNode st \<longrightarrow>
        handleRealtimeNodeUpdate now fuel st (Some p)
          = map_option (\<lambda>(s, f). (s\<lparr>isSaving := True\<rparr>, f))
              (handleRealtimeNodeUpdate now fuel (st\<lparr>isSaving := False\<rparr>) (Some p)))
   \<and> handleRealtimeNodesBatchUpdate fuel st bo = Some st
   \<and> handleRealtimeNodesDeleted st d = st"
  using update_saving_active update_saving_other batch_saving delete_saving by blast

theorem saving_guard_witness:
  "isSaving ex_saving
   \<and> handleRealtimeNodeUpdate 1500 5 ex_saving (Some (ex_update ''n1'' ''X'')) = Some (ex_saving, False)
   \<and> handleRealtimeNodeUpdate 1500 5 ex_saving (Some (ex_update ''n3'' ''X''))
       = map_option (\<lambda>(s, f). (s\<lparr>isSaving := True\<rparr>, f))
           (handleRealtimeNodeUpdate 1500 5 (ex_saving\<lparr>isSaving := False\<rparr>) (Some (ex_update ''n3'' ''X'')))
   \<and> map_option (\<lambda>(s, f). store_label s ''n3'')
        (handleRealtimeNodeUpdate 1500 5 ex_saving (Some (ex_update ''n3'' ''X''))) = Some (Some ''X'')
   \<and> handleRealtimeNodesBatchUpdate 5 ex_saving (Some (ex_batch [mk_patch ''n3'' ''X''] None)) = Some ex_saving
   \<and> handleRealtimeNodesDeleted ex_saving (Some ex_delete) = ex_saving"
proof -
  have s: "isSaving ex_saving" by (simp add: ex_defs)
  have a: "Some (up_node_id (ex_update ''n1'' ''X'')) = editingNode ex_saving" by (simp add: ex_defs)
  have b: "Some (up_node_id (ex_update ''n3'' ''X'')) \<noteq> editingNode ex_saving" by (simp add: ex_defs)
  have c: "map_option (\<lambda>(s, f). store_label s ''n3'')
             (handleRealtimeNodeUpdate 1500 5 ex_saving (Some (ex_update ''n3'' ''X''))) = Some (Some ''X'')"
    by (simp add: update_defs common_defs ex_defs)
  from s a b c
    saving_guard[of ex_saving "ex_update ''n1'' ''X''" 1500 5 "Some (ex_batch [mk_patch ''n3'' ''X''] None)" "Some ex_delete"]
    saving_guard[of ex_saving "ex_update ''n3'' ''X''" 1500 5 "Some (ex_batch [mk_patch ''n3'' ''X''] None)" "Some ex_delete"]
  show ?thesis by blast
qed

text \<open>
  The claim as stated fails for the other two events: with a save in flight and \<open>n1\<close>
  under edit, a batch update and a deletion that name only \<open>n3\<close> are ignored, although
  without the save the batch sets the label of \<open>n3\<close> and the deletion removes it.
\<close>

theorem saving_guard_counterexample:
  "isSaving ex_saving \<and> editingNode ex_saving = Some ''n1''
   \<and> handleRealtimeNodesBatchUpdate 5 ex_saving (Some (ex_batch [mk_patch ''n3'' ''X''] None)) = Some ex_saving
   \<and> store_label ex_saving ''n3'' = Some ''C''
   \<and> map_option (\<lambda>s. store_label s ''n3'')
        (handleRealtimeNodesBatchUpdate 5 ex_state (Some (ex_batch [mk_patch ''n3'' ''X''] None))) = Some (Some ''X'')
   \<and> handleRealtimeNodesDeleted ex_saving (Some ex_delete) = ex_saving
   \<and> has_node ex_saving ''n3''
   \<and> \<not> has_node (handleRealtimeNodesDeleted ex_state (Some ex_delete)) ''n3''"
proof -
  have "map_option (\<lambda>s. store_label s ''n3'')
          (handleRealtimeNodesBatchUpdate 5 ex_state (Some (ex_batch [mk_patch ''n3'' ''X''] None))) = Some (Some ''X'')"
    by (simp add: batch_defs common_defs ex_defs)
  moreover have "\<not> has_node (handleRealtimeNodesDeleted ex_state (Some ex_delete)) ''n3''"
    by (simp add: handleRealtimeNodesDeleted_def delete_keys_def common_defs ex_defs)
  moreover have "handleRealtimeNodesBatchUpdate 5 ex_saving (Some (ex_batch [mk_patch ''n3'' ''X''] None)) = Some ex_saving"
    by (simp add: batch_defs ex_defs)
  moreover have "handleRealtimeNodesDeleted ex_saving (Some ex_delete) = ex_saving"
    by (simp add: handleRealtimeNodesDeleted_def ex_defs)
  moreover have "isSaving ex_saving \<and> editingNode ex_saving = Some ''n1''
                  \<and> store_label ex_saving ''n3'' = Some ''C'' \<and> has_node ex_saving ''n3''"
    by (simp add: common_defs ex_defs)
  ultimately show ?thesis by blast
qed

section \<open>Preservation of the single-parent invariant\<close>

lemma findIndex_Some: "findIndex P xs = Some i \<Longrightarrow> i < length xs \<and> P (xs ! i)"
proof (induction xs arbitrary: i)
  case Nil
  then show ?case by simp
next
  case (Cons x xs)
  then show ?case by (auto split: if_splits)
qed

lemma filter_list_update_same:
  "i < length xs \<Longrightarrow> \<not> P (xs ! i) \<Longrightarrow> \<not> P y \<Longrightarrow> filter P (xs[i := y]) = filter P xs"
proof (induction xs arbitrary: i)
  case Nil
  then show ?case by simp
next
  case (Cons x xs)
  then show ?case by (cases i) auto
qed

lemma update_elements_edges:
  "filter is_edge (update_elements rn a b c els) = filter is_edge els"
proof (cases "findIndex (\<lambda>el. el_id el = np_id rn \<and> el_source el = [] \<and> el_target el = []) els")
  case None
  then show ?thesis by (simp add: update_elements_def Let_def as_element_def is_edge_def)
next
  case (Some i)
  from findIndex_Some[OF Some] have i: "i < length els" and ne: "\<not> is_edge (els ! i)"
    by (simp_all add: is_edge_def)
  have upd: "filter is_edge (els[i := y]) = filter is_edge els" if "\<not> is_edge y" for y
    using filter_list_update_same[of i els is_edge y] i ne that by simp
  have u1: "filter is_edge (els[i := as_element rn]) = filter is_edge els"
    by (rule upd) (simp add: as_element_def is_edge_def)
  have u2: "filter is_edge (els[i := (els ! i)\<lparr>el_data := d\<rparr>]) = filter is_edge els" for d
    by (rule upd) (use ne in \<open>simp add: is_edge_def\<close>)
  show ?thesis using Some
    by (simp add: update_elements_def Let_def u1 u2)
qed

lemma update_edge_edges:
  "filter is_edge (update_edge (Some e) els)
     = filter (\<lambda>x. el_target x \<noteq> el_target e) (filter is_edge els) @ (if is_edge e then [e] else [])"
  unfolding update_edge_def by (induction els) (auto simp: is_edge_def)

lemma update_edge_distinct:
  assumes "distinct (map el_target (filter is_edge els))"
  shows "distinct (map el_target (filter is_edge (update_edge pe els)))"
proof (cases pe)
  case None
  with assms show ?thesis by (simp add: update_edge_def)
next
  case (Some e)
  have "distinct (map el_target (filter (\<lambda>x. el_target x \<noteq> el_target e) (filter is_edge els)))"
    using assms by (rule distinct_map_filter)
  then show ?thesis unfolding Some update_edge_edges by auto
qed

lemma update_completed_only_elements:
  "update_completed_only rn st = Some st' \<Longrightarrow> elements st' = elements st"
  by (auto simp: update_completed_only_def log_effect_def Let_def split: option.splits prod.splits if_splits)

lemma update_return_elements: "update_return now st po s = Some st' \<Longrightarrow> elements st' = elements s"
  by (auto simp: update_return_def split: option.splits prod.splits if_splits
        dest: update_completed_only_elements)

lemma update_store_elements:
  "elements (update_store rn a b c d st) = update_elements rn a b c (elements st)"
  by (simp add: update_store_def log_effect_def Let_def)

lemma update_sync_single_parent:
  assumes "single_parent st"
  shows "single_parent (fst (update_sync now st po))"
proof -
  have base: "distinct (map el_target (filter is_edge (update_elements rn a b c (elements st))))" for rn a b c
    using assms by (simp add: update_elements_edges single_parent_def edges_of_def)
  show ?thesis using assms
    by (auto simp: update_sync_def Let_def single_parent_def edges_of_def
          update_store_elements base update_edge_distinct[OF base] split: option.splits prod.splits)
qed

lemma tick_d3_effects_elements: "elements (tick_d3_effects cap d st) = elements st"
  by (simp add: tick_d3_effects_def log_effect_def Let_def split: option.splits)

lemma after_render_update_elements: "elements (after_render_update cap st) = elements st"
  by (simp add: after_render_update_def split: option.splits)

lemma update_invalidate_elements: "update_invalidate fuel cap st = Some st' \<Longrightarrow> elements st' = elements st"
  by (auto simp: update_invalidate_def Let_def split: option.splits if_splits)

lemma reconcile_d3_elements: "reconcile_d3 cap st = Some st' \<Longrightarrow> elements st' = elements st"
  by (auto simp: reconcile_d3_def Let_def tick_d3_effects_elements split: option.splits)

lemma reconcile_render_elements: "elements (reconcile_render f st) = elements st"
  by (simp add: reconcile_render_def safeRender_frame setData_frame)

lemma reconcile_choice_elements: "reconcile_choice cap st = Some (st', f) \<Longrightarrow> elements st' = elements st"
  by (auto simp: reconcile_choice_def Let_def reconcile_this_def reconcile_soft_def
        reconcile_render_elements after_render_update_elements split: option.splits if_splits)

lemma update_tick_elements: "update_tick fuel cap st = Some (st', f) \<Longrightarrow> elements st' = elements st"
  unfolding update_tick_def update_reconcile_def
  by (auto simp: bind_eq_Some_conv dest!: update_invalidate_elements reconcile_d3_elements reconcile_choice_elements)

lemma update_handler_single_parent:
  assumes "single_parent st" and "handleRealtimeNodeUpdate now fuel st po = Some (st', f)"
  shows "single_parent st'"
proof -
  obtain s c where sc: "update_sync now st po = (s, c)" by (cases "update_sync now st po")
  have sp: "single_parent s" using update_sync_single_parent[OF assms(1), of now po] sc by simp
  show ?thesis
  proof (cases c)
    case None
    with assms(2) sc have "update_return now st po s = Some st'"
      by (auto simp: handleRealtimeNodeUpdate_def)
    from update_return_elements[OF this] sp show ?thesis by (simp add: single_parent_def edges_of_def)
  next
    case (Some cap)
    with assms(2) sc have "update_tick fuel cap s = Some (st', f)" by (simp add: handleRealtimeNodeUpdate_def)
    from update_tick_elements[OF this] sp show ?thesis by (simp add: single_parent_def edges_of_def)
  qed
qed


lemma with_data_edge: "with_data f el = Some el' \<Longrightarrow> is_edge el' = is_edge el"
  by (auto simp: with_data_def is_edge_def split: option.splits)

lemma d3_set_completed_edge: "d3_set_completed rd el = Some el' \<Longrightarrow> is_edge el' = is_edge el"
  by (auto simp: d3_set_completed_def split: option.splits dest: with_data_edge)

lemma d3_set_rect_edge: "d3_set_rect rd el = Some el' \<Longrightarrow> is_edge el' = is_edge el"
  by (auto simp: d3_set_rect_def split: option.splits dest: with_data_edge)

lemma batch_d3_update_edge: "batch_d3_update n el = Some el' \<Longrightarrow> is_edge el' = is_edge el"
  by (auto simp: batch_d3_update_def bind_eq_Some_conv split: if_splits
        dest!: with_data_edge d3_set_completed_edge d3_set_rect_edge)

lemma update_first_pres:
  assumes "\<And>x y. f x = Some y \<Longrightarrow> Q x \<Longrightarrow> Q y"
  shows "update_first P f xs = Some ys \<Longrightarrow> \<forall>x \<in> set xs. Q x \<Longrightarrow> \<forall>y \<in> set ys. Q y"
proof (induction xs arbitrary: ys)
  case Nil
  then show ?case by simp
next
  case (Cons x xs)
  then show ?case using assms by (auto split: if_splits)
qed

lemma fold_none_absorbs:
  "fold (\<lambda>n acc. case acc of None \<Rightarrow> None | Some xs \<Rightarrow> g n xs) ns None = None"
  by (induction ns) simp_all

lemma batch_d3_updates_pres:
  "batch_d3_updates ns xs = Some ys \<Longrightarrow> \<forall>x \<in> set xs. \<not> is_edge x \<Longrightarrow> \<forall>y \<in> set ys. \<not> is_edge y"
proof (induction ns arbitrary: xs)
  case Nil
  then show ?case by (simp add: batch_d3_updates_def)
next
  case (Cons n ns)
  show ?case
  proof (cases "update_first (\<lambda>e. el_id e = np_id n) (batch_d3_update n) xs")
    case None
    with Cons.prems(1) show ?thesis by (simp add: batch_d3_updates_def fold_none_absorbs)
  next
    case (Some zs)
    have "\<forall>y \<in> set zs. \<not> is_edge y"
      by (rule update_first_pres[OF _ Some Cons.prems(2)]) (simp add: batch_d3_update_edge)
    moreover have "batch_d3_updates ns zs = Some ys"
      using Cons.prems(1) Some by (simp add: batch_d3_updates_def)
    ultimately show ?thesis by (rule Cons.IH[rotated])
  qed
qed

lemma batch_nodes_nonedge:
  "\<forall>x \<in> set (map (batch_merge_node ns) (nodes_of st) @ map as_element new). \<not> is_edge x"
  by (auto simp: batch_merge_node_def spread_node_def nodes_of_def as_element_def is_edge_def
        split: option.splits)

lemma filter_none: "\<forall>x \<in> set xs. \<not> P x \<Longrightarrow> filter P xs = []"
  by (induction xs) auto

lemma batch_edges_all_edges: 
  "filter is_edge (batch_edges pes (edges_of st))
     = (case pes of None \<Rightarrow> edges_of st
        | Some es \<Rightarrow> filter (\<lambda>e. el_target e \<notin> set (filter (\<lambda>t. t \<noteq> []) (map el_target es))) (edges_of st)
                     @ filter is_edge es)"
  by (auto simp: batch_edges_def edges_of_def Let_def split: option.splits intro: filter_cong)

lemma batch_edges_distinct:
  assumes "distinct (map el_target (edges_of st))" and "distinct_targets (case pes of None \<Rightarrow> [] | Some es \<Rightarrow> es)"
  shows "distinct (map el_target (filter is_edge (batch_edges pes (edges_of st))))"
proof (cases pes)
  case None
  with assms(1) show ?thesis by (simp add: batch_edges_all_edges)
next
  case (Some es)
  let ?T = "set (filter (\<lambda>t. t \<noteq> []) (map el_target es))"
  have d1: "distinct (map el_target (filter (\<lambda>e. el_target e \<notin> ?T) (edges_of st)))"
    using assms(1) by (rule distinct_map_filter)
  have d2: "distinct (map el_target (filter is_edge es))"
    using assms(2) Some by (simp add: distinct_targets_def)
  have "el_target ` set (filter is_edge es) \<subseteq> ?T" by (auto simp: is_edge_def)
  then have dj: "set (map el_target (filter (\<lambda>e. el_target e \<notin> ?T) (edges_of st)))
                   \<inter> set (map el_target (filter is_edge es)) = {}"
    by auto
  show ?thesis unfolding Some batch_edges_all_edges using d1 d2 dj by simp
qed

lemma batch_sync_ignored: "\<not> batch_processed st p \<Longrightarrow> batch_sync st (Some p) = (st, None)"
  by (auto simp: batch_processed_def batch_sync_def Let_def)

lemma batch_sync_eq:
  assumes "batch_processed st p"
  shows "batch_sync st (Some p) =
     (let hasNewNodes = list_ex (\<lambda>n. np_id n \<notin> set (map el_id (nodes_of st))) (bp_nodes p);
          st1 = st\<lparr>nodeCreationOrder := batch_order (bp_nodes p) (nodes_of st)
                       (filter (\<lambda>n. np_id n \<notin> set (map el_id (nodes_of st))) (bp_nodes p)) (nodeCreationOrder st),
                    elements := batch_updatedNodes st p @ batch_edges (bp_edges p) (edges_of st)\<rparr>;
          st2 = (if hasSaveSnapshot st \<and> hasNewNodes then log_effect SaveSnapshot st1 else st1)
      in (st2, (case d3Renderer st of None \<Rightarrow> None
              | Some r \<Rightarrow> Some \<lparr>bc_payload = p, bc_editingNodeId = editingNode st,
                    bc_selectedNodeId = selectedNode st, bc_hasNewNodes = hasNewNodes,
                    bc_updatedNodes = batch_updatedNodes st p\<rparr>)))"
  using assms
  by (cases "d3Renderer st")
     (simp_all add: batch_processed_def batch_sync_def Let_def batch_updatedNodes_def log_effect_def)

lemma batch_sync_processed:
  assumes "batch_processed st p" and "batch_sync st (Some p) = (s, c)"
  shows "elements s = batch_updatedNodes st p @ batch_edges (bp_edges p) (edges_of st)"
    and "d3Renderer s = d3Renderer st" and "editingNode s = editingNode st"
    and "c = (case d3Renderer st of None \<Rightarrow> None
              | Some r \<Rightarrow> Some \<lparr>bc_payload = p, bc_editingNodeId = editingNode st,
                    bc_selectedNodeId = selectedNode st,
                    bc_hasNewNodes = list_ex (\<lambda>n. np_id n \<notin> set (map el_id (nodes_of st))) (bp_nodes p),
                    bc_updatedNodes = batch_updatedNodes st p\<rparr>)"
  using assms(2) unfolding batch_sync_eq[OF assms(1)]
  by (cases "d3Renderer st"; auto simp: Let_def log_effect_def split: if_splits)+

lemma batch_sync_single_parent:
  assumes "single_parent st" and "distinct_targets (payload_edges p)"
  shows "single_parent (fst (batch_sync st (Some p)))"
proof (cases "batch_processed st p")
  case False
  with assms(1) show ?thesis by (simp add: batch_sync_ignored)
next
  case True
  obtain s c where sc: "batch_sync st (Some p) = (s, c)" by (cases "batch_sync st (Some p)")
  have nn: "filter is_edge (batch_updatedNodes st p) = []"
    unfolding batch_updatedNodes_def by (rule filter_none) (rule batch_nodes_nonedge)
  show ?thesis
    using batch_edges_distinct[where st=st and pes="bp_edges p"] assms
    by (simp add: sc single_parent_def edges_of_def[of s] batch_sync_processed(1)[OF True sc] nn
          payload_edges_def)
qed

lemma batch_invalidate_frame:
  assumes "batch_invalidate fuel cap st = Some st'"
  shows "elements st' = elements st"
  using assms by (auto simp: batch_invalidate_def Let_def split: option.splits if_splits)

lemma batch_d3_updates_length:
  "batch_d3_updates ns xs = Some ys \<Longrightarrow> length ys = length xs"
proof (induction ns arbitrary: xs)
  case Nil
  then show ?case by (simp add: batch_d3_updates_def)
next
  case (Cons n ns)
  have len: "length zs = length xs" if "update_first P f xs = Some zs" for P f zs and xs :: "element list"
    using that by (induction xs arbitrary: zs) (auto split: if_splits)
  show ?case
  proof (cases "update_first (\<lambda>e. el_id e = np_id n) (batch_d3_update n) xs")
    case None
    with Cons.prems(1) show ?thesis by (simp add: batch_d3_updates_def fold_none_absorbs)
  next
    case (Some zs)
    have "batch_d3_updates ns zs = Some ys"
      using Cons.prems(1) Some by (simp add: batch_d3_updates_def)
    from Cons.IH[OF this] len[OF Some] show ?thesis by simp
  qed
qed

lemma batch_render_edges:
  assumes "batch_render cap st = Some st'" and "\<forall>x \<in> set (bc_updatedNodes cap). \<not> is_edge x"
    and "elements st = bc_updatedNodes cap @ es"
  shows "filter is_edge (elements st') = filter is_edge (elements st)"
proof (cases "d3Renderer st")
  case None
  with assms(1) show ?thesis by (simp add: batch_render_def)
next
  case (Some r)
  show ?thesis
  proof (cases "truthy (editingNode st) \<and> \<not> bc_hasNewNodes cap
                 \<and> (js_includes (map np_id (bp_nodes (bc_payload cap))) (bc_editingNodeId cap)
                    \<or> js_includes (map np_id (bp_nodes (bc_payload cap))) (bc_selectedNodeId cap))")
    case True
    with assms(1) Some obtain ns where
      ns: "batch_d3_updates (bp_nodes (bc_payload cap)) (bc_updatedNodes cap) = Some ns"
      and st': "elements st' = ns @ drop (length (bc_updatedNodes cap)) (elements st)"
      by (auto simp: batch_render_def Let_def split: option.splits)
    have "filter is_edge ns = []"
      by (rule filter_none) (rule batch_d3_updates_pres[OF ns assms(2)])
    moreover have "filter is_edge (bc_updatedNodes cap) = []"
      by (rule filter_none) (rule assms(2))
    ultimately show ?thesis by (simp add: st' assms(3))
  next
    case False
    with assms(1) Some show ?thesis
      by (auto simp: batch_render_def Let_def safeRender_frame setData_frame split: if_splits)
  qed
qed

lemma batch_handler_single_parent:
  assumes "single_parent st" and "distinct_targets (payload_edges p)"
    and "handleRealtimeNodesBatchUpdate fuel st (Some p) = Some st'"
  shows "single_parent st'"
proof -
  obtain s c where sc: "batch_sync st (Some p) = (s, c)" by (cases "batch_sync st (Some p)")
  have sp: "single_parent s" using batch_sync_single_parent[OF assms(1,2)] sc by simp
  show ?thesis
  proof (cases c)
    case None
    with assms(3) sc sp show ?thesis by (simp add: handleRealtimeNodesBatchUpdate_def)
  next
    case (Some cap)
    then have proc: "batch_processed st p" using sc batch_sync_ignored[of st p] by auto
    have un: "\<forall>x \<in> set (bc_updatedNodes cap). \<not> is_edge x"
      using batch_sync_processed(4)[OF proc sc] Some batch_nodes_nonedge[of "bp_nodes p" st]
      by (auto simp: batch_updatedNodes_def split: option.splits)
    from assms(3) sc Some obtain s1 where
      s1: "batch_invalidate fuel cap s = Some s1" and s2: "batch_render cap s1 = Some st'"
      by (auto simp: handleRealtimeNodesBatchUpdate_def batch_tick_def bind_eq_Some_conv)
    have cu: "bc_updatedNodes cap = batch_updatedNodes st p"
      using batch_sync_processed(4)[OF proc sc] Some by (auto split: option.splits)
    have "elements s1 = bc_updatedNodes cap @ batch_edges (bp_edges p) (edges_of st)"
      using batch_invalidate_frame[OF s1] batch_sync_processed(1)[OF proc sc] cu by simp
    from batch_render_edges[OF s2 un this] batch_invalidate_frame[OF s1] sp
    show ?thesis by (simp add: single_parent_def edges_of_def)
  qed
qed


text \<open>
  C7, as the handlers have it. If every edge target has at most one incoming edge, this
  still holds after a NodeUpdated event, with or without an edge, and after a
  NodesBatchUpdated event whose own edges have pairwise distinct targets: it holds of the
  store the handler leaves, and of the state that the queued callback returns.
\<close>

theorem single_parent_preserved:
  "single_parent st \<longrightarrow>
     single_parent (fst (update_sync now st po))
   \<and> (\<forall>st' f. handleRealtimeNodeUpdate now fuel st po = Some (st', f) \<longrightarrow> single_parent st')
   \<and> (distinct_targets (payload_edges p) \<longrightarrow>
        single_parent (fst (batch_sync st (Some p)))
      \<and> (\<forall>st'. handleRealtimeNodesBatchUpdate fuel st (Some p) = Some st' \<longrightarrow> single_parent st'))"
  using update_sync_single_parent update_handler_single_parent batch_sync_single_parent
    batch_handler_single_parent by blast

theorem single_parent_preserved_witness:
  "single_parent ex_state
   \<and> map_option (\<lambda>(s, f). map el_target (edges_of s))
        (handleRealtimeNodeUpdate 1500 5 ex_state (Some ex_move)) = Some [''n1'', ''n3'']
   \<and> map_option (\<lambda>(s, f). single_parent s)
        (handleRealtimeNodeUpdate 1500 5 ex_state (Some ex_move)) = Some True
   \<and> distinct_targets (payload_edges ex_batch_move)
   \<and> map_option (\<lambda>s. map el_source (edges_of s))
        (handleRealtimeNodesBatchUpdate 5 ex_state (Some ex_batch_move)) = Some [''root'', ''root'']
   \<and> map_option single_parent (handleRealtimeNodesBatchUpdate 5 ex_state (Some ex_batch_move)) = Some True"
proof -
  have sp: "single_parent ex_state"
    by (simp add: single_parent_def common_defs ex_defs)
  have dt: "distinct_targets (payload_edges ex_batch_move)"
    by (simp add: distinct_targets_def payload_edges_def ex_batch_move_def common_defs ex_defs)
  have u: "map_option (\<lambda>(s, f). map el_target (edges_of s))
             (handleRealtimeNodeUpdate 1500 5 ex_state (Some ex_move)) = Some [''n1'', ''n3'']"
    by (simp add: ex_move_def update_defs common_defs ex_defs)
  have b: "map_option (\<lambda>s. map el_source (edges_of s))
             (handleRealtimeNodesBatchUpdate 5 ex_state (Some ex_batch_move)) = Some [''root'', ''root'']"
    by (simp add: ex_batch_move_def batch_defs common_defs ex_defs)
  from u obtain s f where s: "handleRealtimeNodeUpdate 1500 5 ex_state (Some ex_move) = Some (s, f)"
    by (cases "handleRealtimeNodeUpdate 1500 5 ex_state (Some ex_move)") auto
  from b obtain s' where s': "handleRealtimeNodesBatchUpdate 5 ex_state (Some ex_batch_move) = Some s'"
    by (cases "handleRealtimeNodesBatchUpdate 5 ex_state (Some ex_batch_move)") auto
  from single_parent_preserved[of ex_state 1500 "Some ex_move" 5 ex_batch_move] sp dt s s'
  have "single_parent s" and "single_parent s'" by blast+
  with sp dt u b s s' show ?thesis by simp
qed

text \<open>
  The claim as stated fails for a batch: two edges of one payload may share their target,
  and both are added.
\<close>

theorem single_parent_counterexample:
  "single_parent ex_state
   \<and> map_option (\<lambda>s. map el_target (edges_of s))
        (handleRealtimeNodesBatchUpdate 5 ex_state (Some ex_two_parents)) = Some [''n1'', ''n3'', ''n4'', ''n4'']
   \<and> map_option single_parent (handleRealtimeNodesBatchUpdate 5 ex_state (Some ex_two_parents)) = Some False"
proof -
  have sp: "single_parent ex_state"
    by (simp add: single_parent_def common_defs ex_defs)
  have b: "map_option (\<lambda>s. map el_target (edges_of s))
             (handleRealtimeNodesBatchUpdate 5 ex_state (Some ex_two_parents)) = Some [''n1'', ''n3'', ''n4'', ''n4'']"
    by (simp add: ex_two_parents_def batch_defs common_defs ex_defs)
  then obtain s where s: "handleRealtimeNodesBatchUpdate 5 ex_state (Some ex_two_parents) = Some s"
    by (cases "handleRealtimeNodesBatchUpdate 5 ex_state (Some ex_two_parents)") auto
  with b have "\<not> single_parent s" by (simp add: single_parent_def)
  with sp b s show ?thesis by simp
qed

section \<open>Events for the node under local edit\<close>

lemma update_completed_only_effects:
  assumes "update_completed_only rn st = Some st'"
  shows "\<exists>es. effects st' = effects st @ es \<and> set es \<subseteq> range (StrikethroughTimer (np_id rn))"
  using assms
  by (auto simp: update_completed_only_def log_effect_def Let_def
        split: option.splits prod.splits if_splits)

lemma update_completed_only_frame:
  assumes "update_completed_only rn st = Some st'"
  shows "elements st' = elements st"
    and "editors_of st' = editors_of st"
    and "set (new_effects st0 st') \<subseteq> set (new_effects st0 st) \<union> range (StrikethroughTimer (np_id rn))"
proof -
  show "elements st' = elements st" "editors_of st' = editors_of st"
    using assms
    by (auto simp: update_completed_only_def log_effect_def Let_def editors_of_def
          split: option.splits prod.splits if_splits)
  from update_completed_only_effects[OF assms] obtain es where
    es: "effects st' = effects st @ es" "set es \<subseteq> range (StrikethroughTimer (np_id rn))" by blast
  show "set (new_effects st0 st') \<subseteq> set (new_effects st0 st) \<union> range (StrikethroughTimer (np_id rn))"
    using es(2) by (auto simp: new_effects_def es(1) dest!: in_set_dropD)
qed

lemma update_first_with_data_None:
  "update_first P (with_data f) xs = None \<longleftrightarrow> (\<exists>x. find P xs = Some x \<and> el_data x = None)"
  by (induction xs) (auto simp: with_data_def split: option.splits)

lemma update_first_with_data_Some:
  "update_first P (with_data f) xs = Some ys \<Longrightarrow> find P xs = Some x \<Longrightarrow> el_data x \<noteq> None"
  using update_first_with_data_None[of P f xs] by auto

lemma update_completed_only_None:
  "update_completed_only rn st = None \<longleftrightarrow> \<not> completed_writable st rn"
  by (auto simp: update_completed_only_def completed_writable_def update_first_with_data_None Let_def
        split: option.splits prod.splits dest: update_first_with_data_Some)

lemma update_first_find:
  assumes "\<And>x y. f x = Some y \<Longrightarrow> g y = g x \<and> el_id y = el_id x"
  shows "update_first P f xs = Some ys \<Longrightarrow>
           map_option g (find (\<lambda>el. el_id el = b) ys) = map_option g (find (\<lambda>el. el_id el = b) xs)"
proof (induction xs arbitrary: ys)
  case Nil
  then show ?case by simp
next
  case (Cons x xs)
  then show ?case using assms by (auto split: if_splits)
qed

lemma update_completed_only_label:
  assumes "update_completed_only rn st = Some st'"
  shows "renderer_label st' b = renderer_label st b"
proof -
  have *: "map_option (\<lambda>el. label_of (el_data el)) (find (\<lambda>el. el_id el = b) ys)
            = map_option (\<lambda>el. label_of (el_data el)) (find (\<lambda>el. el_id el = b) xs)"
    if "update_first P (with_data (\<lambda>d. d\<lparr>d_completed := Some c\<rparr>)) xs = Some ys" for P c xs ys
    by (rule update_first_find[OF _ that])
       (auto simp: with_data_def label_of_def split: option.splits)
  show ?thesis using assms
    by (auto simp: update_completed_only_def renderer_label_def log_effect_def Let_def
          split: option.splits prod.splits if_splits dest!: *)
qed

lemma update_sync_active_dirty:
  assumes "update_for_active st p rn i" and "np_id rn \<in> changedNodeIds st"
  shows "update_sync now st (Some p) = (update_store rn True False True False st, None)"
    and "update_return now st (Some p) s = update_completed_only rn s"
  using assms
  by (simp_all add: update_for_active_def update_sync_def update_return_def update_guards_def
        update_blocked_def Let_def)

lemma update_store_frame:
  "d3Renderer (update_store rn a b c d st) = d3Renderer st"
  "set (new_effects st (update_store rn a b c d st)) \<subseteq> {SaveSnapshot}"
  by (auto simp: update_store_def Let_def log_effect_def new_effects_def)

lemma update_elements_dirty:
  assumes "findIndex (\<lambda>el. el_id el = np_id rn \<and> el_source el = [] \<and> el_target el = []) els = Some i"
  shows "update_elements rn True False True els =
           (case completed_of (np_data rn) of
              None \<Rightarrow> els
            | Some c \<Rightarrow> els[i := (els ! i)\<lparr>el_data := Some
                 ((data_or_empty (el_data (els ! i)))
                    \<lparr>d_completed := Some c,
                     d_rect := override (d_rect (data_or_empty (el_data (els ! i)))) (rect_truthy (np_data rn))\<rparr>)\<rparr>])"
  using assms
  by (auto simp: update_elements_def Let_def override_def split: option.splits)

lemma completed_writable_store:
  "completed_writable (update_store rn a b c d st) rn' = completed_writable st rn'"
  by (simp add: completed_writable_def update_store_frame)

text \<open>
  C4, as the handler has it. A NodeUpdated event that passes the guards, for the active
  edit node with local changes. When the event carries \<open>completed\<close> and the renderer's
  copy of the node has no \<open>data\<close>, the handler raises. Otherwise it returns, and the
  label of the node stays as it was in the Document Store and in the renderer's copy, no
  editor is touched and no content is set; \<open>completed\<close>, when the event carries it, is
  merged into the node, and then the size of the event, when it carries one, replaces the
  node's; the other fields of the node and all other elements stay as they were; nothing
  is rendered.
\<close>

theorem active_dirty_update:
  assumes "update_for_active st p rn i" and "np_id rn \<in> changedNodeIds st"
  shows "(\<not> completed_writable st rn \<longrightarrow> handleRealtimeNodeUpdate now fuel st (Some p) = None)
   \<and> (completed_writable st rn \<longrightarrow>
       (\<exists>st'. handleRealtimeNodeUpdate now fuel st (Some p) = Some (st', False)
         \<and> length (elements st') = length (elements st)
         \<and> (\<forall>j. j \<noteq> i \<longrightarrow> elements st' ! j = elements st ! j)
         \<and> el_id (elements st' ! i) = el_id (elements st ! i)
         \<and> label_of (el_data (elements st' ! i)) = label_of (el_data (elements st ! i))
         \<and> completed_of (el_data (elements st' ! i))
              = override (completed_of (el_data (elements st ! i))) (completed_of (np_data rn))
         \<and> rect_truthy (el_data (elements st' ! i))
              = (if completed_of (np_data rn) = None then rect_truthy (el_data (elements st ! i))
                 else override (rect_truthy (el_data (elements st ! i))) (rect_truthy (np_data rn)))
         \<and> other_fields (el_data (elements st' ! i)) = other_fields (el_data (elements st ! i))
         \<and> Render \<notin> set (new_effects st st') \<and> SetData \<notin> set (new_effects st st')
         \<and> (\<forall>c. SetContent (np_id rn) c \<notin> set (new_effects st st'))
         \<and> renderer_label st' (np_id rn) = renderer_label st (np_id rn)
         \<and> editors_of st' = editors_of st))"
proof -
  let ?s = "update_store rn True False True False st"
  let ?P = "\<lambda>el. el_id el = np_id rn \<and> el_source el = [] \<and> el_target el = []"
  have ix: "findIndex ?P (elements st) = Some i" using assms(1) by (simp add: update_for_active_def)
  from findIndex_Some[OF ix] have i: "i < length (elements st)" by simp
  have h: "handleRealtimeNodeUpdate now fuel st (Some p)
             = map_option (\<lambda>s. (s, False)) (update_completed_only rn ?s)"
    by (simp add: handleRealtimeNodeUpdate_def update_sync_active_dirty[OF assms])
  have raise: "handleRealtimeNodeUpdate now fuel st (Some p) = None" if "\<not> completed_writable st rn"
    using that update_completed_only_None[of rn ?s] by (simp add: h completed_writable_store)
  have ret: "\<exists>st'. handleRealtimeNodeUpdate now fuel st (Some p) = Some (st', False)
         \<and> length (elements st') = length (elements st)
         \<and> (\<forall>j. j \<noteq> i \<longrightarrow> elements st' ! j = elements st ! j)
         \<and> el_id (elements st' ! i) = el_id (elements st ! i)
         \<and> label_of (el_data (elements st' ! i)) = label_of (el_data (elements st ! i))
         \<and> completed_of (el_data (elements st' ! i))
              = override (completed_of (el_data (elements st ! i))) (completed_of (np_data rn))
         \<and> rect_truthy (el_data (elements st' ! i))
              = (if completed_of (np_data rn) = None then rect_truthy (el_data (elements st ! i))
                 else override (rect_truthy (el_data (elements st ! i))) (rect_truthy (np_data rn)))
         \<and> other_fields (el_data (elements st' ! i)) = other_fields (el_data (elements st ! i))
         \<and> Render \<notin> set (new_effects st st') \<and> SetData \<notin> set (new_effects st st')
         \<and> (\<forall>c. SetContent (np_id rn) c \<notin> set (new_effects st st'))
         \<and> renderer_label st' (np_id rn) = renderer_label st (np_id rn)
         \<and> editors_of st' = editors_of st"
    if w: "completed_writable st rn"
  proof -
    from w update_completed_only_None[of rn ?s] obtain st' where
      st': "update_completed_only rn ?s = Some st'"
      by (auto simp: completed_writable_store)
    note fr = update_completed_only_frame[OF st']
    have el: "elements st' = update_elements rn True False True (elements st)"
      by (simp add: fr(1) update_store_elements)
    note el' = el[unfolded update_elements_dirty[OF ix]]
    have eff: "set (new_effects st st') \<subseteq> {SaveSnapshot} \<union> range (StrikethroughTimer (np_id rn))"
      using fr(3)[of st] update_store_frame(2)[of st rn True False True False]
      by blast
    have "renderer_label ?s (np_id rn) = renderer_label st (np_id rn)"
      by (simp add: renderer_label_def update_store_frame)
    then have lab: "renderer_label st' (np_id rn) = renderer_label st (np_id rn)"
      by (simp only: update_completed_only_label[OF st'])
    have eds: "editors_of st' = editors_of st"
      by (simp add: fr(2)) (simp add: editors_of_def update_store_frame)
    have fields:
      "length (elements st') = length (elements st)"
      "\<forall>j. j \<noteq> i \<longrightarrow> elements st' ! j = elements st ! j"
      "el_id (elements st' ! i) = el_id (elements st ! i)"
      "label_of (el_data (elements st' ! i)) = label_of (el_data (elements st ! i))"
      "completed_of (el_data (elements st' ! i))
         = override (completed_of (el_data (elements st ! i))) (completed_of (np_data rn))"
      "rect_truthy (el_data (elements st' ! i))
         = (if completed_of (np_data rn) = None then rect_truthy (el_data (elements st ! i))
            else override (rect_truthy (el_data (elements st ! i))) (rect_truthy (np_data rn)))"
      "other_fields (el_data (elements st' ! i)) = other_fields (el_data (elements st ! i))"
      unfolding el' using i
      by (auto simp: label_of_def completed_of_def rect_truthy_def other_fields_def data_or_empty_def
            empty_data_def override_def split: option.splits)
    from eff have "Render \<notin> set (new_effects st st')" "SetData \<notin> set (new_effects st st')"
      "\<forall>c. SetContent (np_id rn) c \<notin> set (new_effects st st')"
      by auto
    moreover have "handleRealtimeNodeUpdate now fuel st (Some p) = Some (st', False)"
      by (simp add: h st')
    ultimately show ?thesis using fields lab eds by blast
  qed
  from raise ret show ?thesis by blast
qed


theorem active_dirty_update_witness:
  "update_for_active ex_dirty ex_completed_rect (the (up_node ex_completed_rect)) 1
   \<and> ''n1'' \<in> changedNodeIds ex_dirty
   \<and> completed_writable ex_dirty (the (up_node ex_completed_rect))
   \<and> label_of (el_data (elements ex_dirty ! 1)) = Some ''A''
   \<and> (\<exists>st'. handleRealtimeNodeUpdate 6000 5 ex_dirty (Some ex_completed_rect) = Some (st', False)
         \<and> label_of (el_data (elements st' ! 1)) = Some ''A''
         \<and> completed_of (el_data (elements st' ! 1)) = Some True
         \<and> Render \<notin> set (new_effects ex_dirty st')
         \<and> renderer_label st' ''n1'' = Some ''A'')
   \<and> update_for_active ex_dirty_bare ex_completed_rect (the (up_node ex_completed_rect)) 1
   \<and> ''n1'' \<in> changedNodeIds ex_dirty_bare
   \<and> \<not> completed_writable ex_dirty_bare (the (up_node ex_completed_rect))
   \<and> handleRealtimeNodeUpdate 6000 5 ex_dirty_bare (Some ex_completed_rect) = None"
proof -
  let ?rn = "the (up_node ex_completed_rect)"
  have a: "update_for_active ex_dirty ex_completed_rect ?rn 1"
    by (simp add: update_for_active_def ex_dirty_def ex_completed_rect_def ex_defs)
  have b: "np_id ?rn \<in> changedNodeIds ex_dirty"
    by (simp add: ex_dirty_def ex_completed_rect_def ex_defs)
  have c: "label_of (el_data (elements ex_dirty ! 1)) = Some ''A''"
    "completed_of (el_data (elements ex_dirty ! 1)) = None"
    "completed_of (np_data ?rn) = Some True" "np_id ?rn = ''n1''"
    "renderer_label ex_dirty ''n1'' = Some ''A''"
    by (simp_all add: ex_dirty_def ex_completed_rect_def common_defs ex_defs)
  have w: "completed_writable ex_dirty ?rn"
    by (simp add: completed_writable_def ex_dirty_def ex_completed_rect_def common_defs ex_defs)
  have a': "update_for_active ex_dirty_bare ex_completed_rect ?rn 1"
    by (simp add: update_for_active_def ex_dirty_bare_def ex_dirty_def ex_completed_rect_def ex_defs)
  have b': "np_id ?rn \<in> changedNodeIds ex_dirty_bare"
    by (simp add: ex_dirty_bare_def ex_dirty_def ex_completed_rect_def ex_defs)
  have w': "\<not> completed_writable ex_dirty_bare ?rn"
    by (simp add: completed_writable_def ex_dirty_bare_def ex_dirty_def ex_completed_rect_def
          common_defs ex_defs)
  from active_dirty_update[OF a' b', of 6000 5] w'
  have r: "handleRealtimeNodeUpdate 6000 5 ex_dirty_bare (Some ex_completed_rect) = None"
    by blast
  from active_dirty_update[OF a b, of 6000 5] w c b
  have "\<exists>st'. handleRealtimeNodeUpdate 6000 5 ex_dirty (Some ex_completed_rect) = Some (st', False)
         \<and> label_of (el_data (elements st' ! 1)) = Some ''A''
         \<and> completed_of (el_data (elements st' ! 1)) = Some True
         \<and> Render \<notin> set (new_effects ex_dirty st')
         \<and> renderer_label st' ''n1'' = Some ''A''"
    by (auto simp: override_def)
  with a b c w a' b' w' r show ?thesis by simp
qed

text \<open>
  The claim as stated fails in two ways. The event carries \<open>completed\<close> and a size: the
  size of \<open>n1\<close> in the store changes with it. And with a save in flight the event is
  ignored, \<open>completed\<close> included.
\<close>

theorem active_dirty_update_counterexample:
  "editingNode ex_dirty = Some ''n1'' \<and> ''n1'' \<in> changedNodeIds ex_dirty
   \<and> rect_truthy (store_data ex_dirty ''n1'') = None
   \<and> map_option (\<lambda>(s, f). (store_label s ''n1'', rect_truthy (store_data s ''n1'')))
        (handleRealtimeNodeUpdate 6000 5 ex_dirty (Some ex_completed_rect))
       = Some (Some ''A'', Some \<lparr>width = 300, height = 60\<rparr>)
   \<and> map_option (\<lambda>(s, f). completed_of (store_data s ''n1''))
        (handleRealtimeNodeUpdate 6000 5 (ex_dirty\<lparr>isSaving := True\<rparr>) (Some ex_completed_rect))
       = Some None"
  by (auto simp: ex_dirty_def ex_completed_rect_def update_defs common_defs ex_defs)


lemma find_findIndex:
  "findIndex P xs = Some i \<Longrightarrow> find P xs = Some (xs ! i)"
proof (induction xs arbitrary: i)
  case Nil
  then show ?case by simp
next
  case (Cons x xs)
  then show ?case by (auto split: if_splits)
qed

lemma find_list_update_hit:
  "findIndex P xs = Some i \<Longrightarrow> P y \<Longrightarrow> find P (xs[i := y]) = Some y"
proof (induction xs arbitrary: i)
  case Nil
  then show ?case by simp
next
  case (Cons x xs)
  then show ?case by (auto split: if_splits)
qed

lemma find_filter_keep: "(\<And>x. P x \<Longrightarrow> Q x) \<Longrightarrow> find P (filter Q xs) = find P xs"
  by (induction xs) auto

lemma find_append_if: "find P (xs @ ys) = (case find P xs of None \<Rightarrow> find P ys | Some x \<Rightarrow> Some x)"
  by (induction xs) auto

lemma entry_data_update_edge:
  assumes "find (\<lambda>el. el_id el = a \<and> el_source el = [] \<and> el_target el = []) els = Some x"
  shows "find (\<lambda>el. el_id el = a \<and> el_source el = [] \<and> el_target el = []) (update_edge pe els) = Some x"
proof (cases pe)
  case None
  with assms show ?thesis by (simp add: update_edge_def)
next
  case (Some e)
  let ?P = "\<lambda>el. el_id el = a \<and> el_source el = [] \<and> el_target el = []"
  let ?Q = "\<lambda>el. el_source el = [] \<or> el_target el = [] \<or> el_target el \<noteq> el_target e"
  have "find ?P (filter ?Q els) = find ?P els" by (rule find_filter_keep) simp
  with assms Some show ?thesis by (simp add: update_edge_def find_append_if)
qed

lemma update_elements_clean:
  assumes "findIndex (\<lambda>el. el_id el = np_id rn \<and> el_source el = [] \<and> el_target el = []) els = Some i"
  shows "find (\<lambda>el. el_id el = np_id rn \<and> el_source el = [] \<and> el_target el = [])
           (update_elements rn True False False els)
         = Some ((els ! i)\<lparr>el_data := Some
             (if completed_of (np_data rn) \<noteq> None
              then (data_or_empty (el_data (els ! i)))
                     \<lparr>d_completed := completed_of (np_data rn),
                      d_rect := override (d_rect (data_or_empty (el_data (els ! i)))) (rect_truthy (np_data rn))\<rparr>
              else (merge_data (el_data (els ! i)) (np_data rn))
                     \<lparr>d_label := (if truthy (label_of (el_data (els ! i))) then label_of (el_data (els ! i))
                                  else d_label (merge_data (el_data (els ! i)) (np_data rn)))\<rparr>)\<rparr>)"
proof -
  from findIndex_Some[OF assms] have P: "el_id (els ! i) = np_id rn" "el_source (els ! i) = []" "el_target (els ! i) = []"
    by simp_all
  show ?thesis using assms P
    by (auto simp: update_elements_def Let_def find_list_update_hit override_def split: option.splits)
qed


lemma update_sync_grace:
  assumes "update_for_active st p rn i" and "np_id rn \<notin> changedNodeIds st" and "within_grace now st"
  shows "fst (update_sync now st (Some p))
           = (update_store rn True False False False st)
               \<lparr>elements := update_edge (up_edge p) (elements (update_store rn True False False False st))\<rparr>"
    and "d3Renderer st \<noteq> None \<Longrightarrow> snd (update_sync now st (Some p)) \<noteq> None"
  using assms
  by (auto simp: update_for_active_def update_sync_def update_guards_def update_blocked_def Let_def
        update_store_renderer split: option.splits)

text \<open>
  C3, as the handler has it. A NodeUpdated event that passes the guards, for the active
  edit node, less than two seconds after the edit began and with an empty dirty set, is
  not dropped: \<open>completed\<close> is merged into the node of the Document Store, an edge of
  the event is added, and with a renderer the deferred callback is queued. The label of
  the store is the local one whenever that is not empty or the event carries
  \<open>completed\<close>; only an empty or missing local label gives way to the event's.
\<close>

theorem grace_update_applied:
  assumes "update_for_active st p rn i" and "np_id rn \<notin> changedNodeIds st" and "within_grace now st"
  shows "entry_label (fst (update_sync now st (Some p))) (np_id rn)
           = (if truthy (entry_label st (np_id rn)) \<or> completed_of (np_data rn) \<noteq> None
              then entry_label st (np_id rn)
              else override (entry_label st (np_id rn)) (label_of (np_data rn)))
       \<and> completed_of (entry_data (fst (update_sync now st (Some p))) (np_id rn))
           = override (completed_of (entry_data st (np_id rn))) (completed_of (np_data rn))
       \<and> (\<forall>e. up_edge p = Some e \<longrightarrow> e \<in> set (elements (fst (update_sync now st (Some p)))))
       \<and> (d3Renderer st \<noteq> None \<longrightarrow> snd (update_sync now st (Some p)) \<noteq> None)
       \<and> (\<forall>st' f. handleRealtimeNodeUpdate now fuel st (Some p) = Some (st', f) \<longrightarrow>
             entry_data st' (np_id rn) = entry_data (fst (update_sync now st (Some p))) (np_id rn))"
proof -
  let ?P = "\<lambda>el. el_id el = np_id rn \<and> el_source el = [] \<and> el_target el = []"
  let ?s = "fst (update_sync now st (Some p))"
  have ix: "findIndex ?P (elements st) = Some i" using assms(1) by (simp add: update_for_active_def)
  have old: "find ?P (elements st) = Some (elements st ! i)" by (rule find_findIndex[OF ix])
  have els: "elements ?s = update_edge (up_edge p) (update_elements rn True False False (elements st))"
    by (simp add: update_sync_grace(1)[OF assms] update_store_elements)
  have new: "find ?P (elements ?s) = find ?P (update_elements rn True False False (elements st))"
    unfolding els using entry_data_update_edge[OF update_elements_clean[OF ix]] update_elements_clean[OF ix]
    by simp
  have lab: "entry_label ?s (np_id rn)
           = (if truthy (entry_label st (np_id rn)) \<or> completed_of (np_data rn) \<noteq> None
              then entry_label st (np_id rn)
              else override (entry_label st (np_id rn)) (label_of (np_data rn)))"
    unfolding entry_label_def entry_data_def new update_elements_clean[OF ix] old
    by (auto simp: label_of_def merge_data_def data_or_empty_def empty_data_def override_def Let_def
          truthy_def split: option.splits)
  have com: "completed_of (entry_data ?s (np_id rn))
           = override (completed_of (entry_data st (np_id rn))) (completed_of (np_data rn))"
    unfolding entry_data_def new update_elements_clean[OF ix] old
    by (auto simp: completed_of_def merge_data_def data_or_empty_def empty_data_def override_def Let_def
          split: option.splits)
  have edge: "\<forall>e. up_edge p = Some e \<longrightarrow> e \<in> set (elements ?s)"
    unfolding els by (simp add: update_edge_def)
  have fin: "entry_data st' (np_id rn) = entry_data ?s (np_id rn)"
    if h: "handleRealtimeNodeUpdate now fuel st (Some p) = Some (st', f)" for st' f
  proof -
    obtain s c where sc: "update_sync now st (Some p) = (s, c)" by (cases "update_sync now st (Some p)")
    show ?thesis
    proof (cases c)
      case None
      with h sc have "update_return now st (Some p) s = Some st'"
        by (auto simp: handleRealtimeNodeUpdate_def)
      from update_return_elements[OF this] sc show ?thesis by (simp add: entry_data_def)
    next
      case (Some cap)
      with h sc have "update_tick fuel cap s = Some (st', f)" by (simp add: handleRealtimeNodeUpdate_def)
      from update_tick_elements[OF this] sc show ?thesis by (simp add: entry_data_def)
    qed
  qed
  from lab com edge fin update_sync_grace(2)[OF assms] show ?thesis by blast
qed

lemmas more_defs = entry_label_def entry_data_def new_effects_def editors_of_def

theorem grace_update_applied_witness:
  "update_for_active ex_state (ex_update ''n1'' ''X'') (mk_patch ''n1'' ''X'') 1
   \<and> ''n1'' \<notin> changedNodeIds ex_state \<and> within_grace 1500 ex_state
   \<and> entry_label ex_state ''n1'' = Some ''A''
   \<and> entry_label (fst (update_sync 1500 ex_state (Some (ex_update ''n1'' ''X'')))) ''n1'' = Some ''A''
   \<and> snd (update_sync 1500 ex_state (Some (ex_update ''n1'' ''X''))) \<noteq> None"
proof -
  have a: "update_for_active ex_state (ex_update ''n1'' ''X'') (mk_patch ''n1'' ''X'') 1"
    by (simp add: update_for_active_def ex_defs)
  have b: "np_id (mk_patch ''n1'' ''X'') \<notin> changedNodeIds ex_state" "within_grace 1500 ex_state"
    by (simp_all add: within_grace_def ex_defs)
  have c: "entry_label ex_state ''n1'' = Some ''A''" "np_id (mk_patch ''n1'' ''X'') = ''n1''"
    "d3Renderer ex_state \<noteq> None"
    by (simp_all add: more_defs common_defs ex_defs)
  from grace_update_applied[OF a b, of 5] c a b show ?thesis
    by (simp add: truthy_def)
qed

text \<open>
  The claim as stated fails: half a second after the edit of \<open>n1\<close> began and with no
  local change, the event with the label \<open>X\<close> leaves the label \<open>A\<close> in the store; the
  callback returns in the branch for the node under edit, before the timer that sets the
  editor content, so that no content is set and no editor is touched.
\<close>

theorem grace_update_counterexample:
  "editingNode ex_state = Some ''n1'' \<and> changedNodeIds ex_state = {} \<and> within_grace 1500 ex_state
   \<and> store_label ex_state ''n1'' = Some ''A''
   \<and> map_option (\<lambda>(s, f). (store_label s ''n1'', f, new_effects ex_state s, editors_of s = editors_of ex_state))
        (handleRealtimeNodeUpdate 1500 5 ex_state (Some (ex_update ''n1'' ''X'')))
       = Some (Some ''A'', False, [], True)"
  by (simp add: more_defs update_defs common_defs ex_defs)

section \<open>Invalidation of the positions of a moved subtree\<close>

lemma childTargets_set: "set (childTargets els n) = {c. (n, c) \<in> edge_rel els}"
  by (auto simp: childTargets_def edge_rel_def)

lemma descendants_unfold:
  "descendants els n = (\<Union>c \<in> set (childTargets els n). subtree els c)"
proof -
  have "(n, x) \<in> (edge_rel els)\<^sup>+ \<longleftrightarrow>
          (\<exists>c. (n, c) \<in> edge_rel els \<and> (x = c \<or> (c, x) \<in> (edge_rel els)\<^sup>+))" for x
    by (metis converse_tranclE r_into_trancl' trancl_into_trancl2)
  then show ?thesis
    by (auto simp: descendants_def subtree_def childTargets_set)
qed

lemma restrict_step: "(q(c := None)) |` (- D) = q |` (- insert c D)"
  by (rule ext) (simp add: restrict_map_def)

lemma restrict_twice: "(q |` (- A)) |` (- B) = q |` (- (A \<union> B))"
  by (rule ext) (simp add: restrict_map_def)

lemma fold_clear:
  assumes "\<And>c q. c \<in> set cs \<Longrightarrow> step c q = Some (q |` (- S c))"
  shows "fold (\<lambda>c acc. case acc of None \<Rightarrow> None | Some p \<Rightarrow> step c p) cs (Some q)
           = Some (q |` (- (\<Union>c \<in> set cs. S c)))"
  using assms
proof (induction cs arbitrary: q)
  case Nil
  then show ?case by simp
next
  case (Cons c cs)
  have "fold (\<lambda>c acc. case acc of None \<Rightarrow> None | Some p \<Rightarrow> step c p) (c # cs) (Some q)
          = fold (\<lambda>c acc. case acc of None \<Rightarrow> None | Some p \<Rightarrow> step c p) cs (Some (q |` (- S c)))"
    using Cons.prems[of c q] by simp
  also have "\<dots> = Some ((q |` (- S c)) |` (- (\<Union>c \<in> set cs. S c)))"
    by (rule Cons.IH) (simp add: Cons.prems)
  finally show ?case by (simp add: restrict_twice)
qed

lemma clearChildrenPositions_correct:
  assumes "ranked rank els"
  shows "rank n < k \<Longrightarrow> clearChildrenPositions k els n pos = Some (pos |` (- descendants els n))"
proof (induction k arbitrary: n pos)
  case 0
  then show ?case by simp
next
  case (Suc k)
  have step: "clearChildrenPositions k els c (q(c := None)) = Some (q |` (- subtree els c))"
    if c: "c \<in> set (childTargets els n)" for c q
  proof -
    from c obtain e where "e \<in> set els" "is_edge e" "el_source e = n" "el_target e = c"
      by (auto simp: childTargets_def)
    with assms have "rank c < rank n" by (auto simp: ranked_def)
    with Suc.prems have "rank c < k" by simp
    show ?thesis unfolding Suc.IH[OF \<open>rank c < k\<close>] subtree_def restrict_step ..
  qed
  show ?case
    by (simp add: fold_clear[of "childTargets els n" "\<lambda>c q. clearChildrenPositions k els c (q(c := None))"
                   "subtree els" pos, OF step] descendants_unfold)
qed

lemma clearSubtrees_correct:
  assumes "ranked rank els" and "\<forall>t \<in> set ts. rank t < fuel"
  shows "clearSubtrees fuel els ts pos = Some (pos |` (- (\<Union>t \<in> set ts. subtree els t)))"
  unfolding clearSubtrees_def
proof (rule fold_clear)
  fix c q
  assume "c \<in> set ts"
  with assms(2) have "rank c < fuel" by simp
  show "clearChildrenPositions fuel els c (q(c := None)) = Some (q |` (- subtree els c))"
    unfolding clearChildrenPositions_correct[OF assms(1) \<open>rank c < fuel\<close>] subtree_def restrict_step ..
qed


lemma positions_of_frames:
  "positions_of (tick_d3_effects cap d st) = positions_of st"
  "positions_of (after_render_update cap st) = positions_of st"
  "positions_of (reconcile_render f st) = positions_of st"
  by (cases "d3Renderer st";
      auto simp: positions_of_def tick_d3_effects_def after_render_update_def reconcile_render_def
        safeRender_def setData_def log_effect_def Let_def split: option.splits)+

lemma reconcile_d3_positions: "reconcile_d3 cap st = Some st' \<Longrightarrow> positions_of st' = positions_of st"
proof -
  have *: "positions_of (st\<lparr>d3Renderer := Some (r\<lparr>r_nodes := ns\<rparr>)\<rparr>) = positions_of st"
    if "d3Renderer st = Some r" for r ns
    using that by (simp add: positions_of_def)
  show "reconcile_d3 cap st = Some st' \<Longrightarrow> positions_of st' = positions_of st"
    by (auto simp: reconcile_d3_def Let_def positions_of_frames * split: option.splits)
qed

lemma reconcile_choice_positions:
  "reconcile_choice cap st = Some (st', f) \<Longrightarrow> positions_of st' = positions_of st"
  by (auto simp: reconcile_choice_def Let_def reconcile_this_def reconcile_soft_def positions_of_frames
        split: option.splits if_splits)
     (auto simp: positions_of_def)

lemma update_reconcile_positions:
  "update_reconcile cap st = Some (st', f) \<Longrightarrow> positions_of st' = positions_of st"
  unfolding update_reconcile_def
  by (auto simp: bind_eq_Some_conv dest!: reconcile_d3_positions reconcile_choice_positions)

lemma batch_render_positions: "batch_render cap st = Some st' \<Longrightarrow> positions_of st' = positions_of st"
  by (cases "d3Renderer st";
      auto simp: batch_render_def Let_def positions_of_def safeRender_def setData_def log_effect_def
        updateRendererDataWithoutRender_def split: option.splits if_splits)

lemma update_invalidate_positions:
  assumes "ranked rank (elements st)" and "positions_of st = Some pos" and "uc_hasEdge cap"
    and "rank (np_id (uc_remoteNode cap)) < fuel"
  shows "\<exists>st1. update_invalidate fuel cap st = Some st1
           \<and> positions_of st1 = Some (pos |` (- subtree (elements st) (np_id (uc_remoteNode cap))))"
proof -
  from assms(2) obtain r where r: "d3Renderer st = Some r" "positions r = Some pos"
    by (auto simp: positions_of_def bind_eq_Some_conv)
  have cl: "clearChildrenPositions fuel (elements st) (np_id (uc_remoteNode cap))
              (pos(np_id (uc_remoteNode cap) := None))
            = Some (pos |` (- subtree (elements st) (np_id (uc_remoteNode cap))))"
    unfolding clearChildrenPositions_correct[OF assms(1,4)] subtree_def restrict_step ..
  show ?thesis
    using r assms(3) by (simp add: update_invalidate_def Let_def cl positions_of_def)
qed

lemma batch_invalidate_positions:
  assumes "ranked rank (elements st)" and "positions_of st = Some pos"
    and "bp_edges (bc_payload cap) = Some es" and "es \<noteq> []" and "\<forall>e \<in> set es. rank (el_target e) < fuel"
  shows "\<exists>st1. batch_invalidate fuel cap st = Some st1
           \<and> positions_of st1 = Some (pos |` (- (\<Union>e \<in> set es. subtree (elements st) (el_target e))))"
proof -
  from assms(2) obtain r where r: "d3Renderer st = Some r" "positions r = Some pos"
    by (auto simp: positions_of_def bind_eq_Some_conv)
  have "\<forall>t \<in> set (map el_target es). rank t < fuel" using assms(5) by simp
  from clearSubtrees_correct[OF assms(1) this, of pos] show ?thesis
    using r assms(3,4) by (simp add: batch_invalidate_def Let_def positions_of_def)
qed

text \<open>
  C5, as the handlers have it. In the callback that a NodeUpdated event with an edge, or
  a NodesBatchUpdated event with edges, has queued, and whatever node is under local
  edit then: if the edges of the store have no cycle (a rank decreases along them) and
  the recursion depth suffices, the invalidation returns and has deleted the position of
  the event's node, or of every edge target of the batch, and of every node reachable
  from it along edges; the other positions are as before, also in the state that the
  callback returns.
\<close>

theorem subtree_positions_invalidated:
  assumes "ranked rank (elements st)" and "positions_of st = Some pos"
  shows "(uc_hasEdge cap \<longrightarrow> rank (np_id (uc_remoteNode cap)) < fuel \<longrightarrow>
            (\<exists>st1. update_invalidate fuel cap st = Some st1
               \<and> positions_of st1 = Some (pos |` (- subtree (elements st) (np_id (uc_remoteNode cap)))))
          \<and> (\<forall>st' f. update_tick fuel cap st = Some (st', f) \<longrightarrow>
                positions_of st' = Some (pos |` (- subtree (elements st) (np_id (uc_remoteNode cap))))))
       \<and> (bp_edges (bc_payload bcap) = Some es \<longrightarrow> es \<noteq> [] \<longrightarrow> (\<forall>e \<in> set es. rank (el_target e) < fuel) \<longrightarrow>
            (\<exists>st1. batch_invalidate fuel bcap st = Some st1
               \<and> positions_of st1 = Some (pos |` (- (\<Union>e \<in> set es. subtree (elements st) (el_target e)))))
          \<and> (\<forall>st'. batch_tick fuel bcap st = Some st' \<longrightarrow>
                positions_of st' = Some (pos |` (- (\<Union>e \<in> set es. subtree (elements st) (el_target e))))))"
proof -
  have u: "(\<exists>st1. update_invalidate fuel cap st = Some st1
               \<and> positions_of st1 = Some (pos |` (- subtree (elements st) (np_id (uc_remoteNode cap)))))
          \<and> (\<forall>st' f. update_tick fuel cap st = Some (st', f) \<longrightarrow>
                positions_of st' = Some (pos |` (- subtree (elements st) (np_id (uc_remoteNode cap)))))"
    if "uc_hasEdge cap" "rank (np_id (uc_remoteNode cap)) < fuel"
  proof -
    from update_invalidate_positions[OF assms that] obtain st1 where
      st1: "update_invalidate fuel cap st = Some st1"
        "positions_of st1 = Some (pos |` (- subtree (elements st) (np_id (uc_remoteNode cap))))"
      by blast
    then show ?thesis
      by (auto simp: update_tick_def dest: update_reconcile_positions)
  qed
  have b: "(\<exists>st1. batch_invalidate fuel bcap st = Some st1
               \<and> positions_of st1 = Some (pos |` (- (\<Union>e \<in> set es. subtree (elements st) (el_target e)))))
          \<and> (\<forall>st'. batch_tick fuel bcap st = Some st' \<longrightarrow>
                positions_of st' = Some (pos |` (- (\<Union>e \<in> set es. subtree (elements st) (el_target e)))))"
    if "bp_edges (bc_payload bcap) = Some es" "es \<noteq> []" "\<forall>e \<in> set es. rank (el_target e) < fuel"
  proof -
    from batch_invalidate_positions[OF assms that] obtain st1 where
      st1: "batch_invalidate fuel bcap st = Some st1"
        "positions_of st1 = Some (pos |` (- (\<Union>e \<in> set es. subtree (elements st) (el_target e))))"
      by blast
    then show ?thesis
      by (auto simp: batch_tick_def dest: batch_render_positions)
  qed
  from u b show ?thesis by blast
qed


lemma descendants_rank:
  assumes "ranked rank els" and "x \<in> descendants els n"
  shows "rank x < rank n"
proof -
  have step: "rank b < rank a" if "(a, b) \<in> edge_rel els" for a b
    using that assms(1) by (auto simp: edge_rel_def ranked_def)
  from assms(2) have "(n, x) \<in> (edge_rel els)\<^sup>+" by (simp add: descendants_def)
  then show ?thesis
    by (induction rule: trancl_induct) (auto dest: step)
qed

lemma child_in_subtree: "(n, c) \<in> edge_rel els \<Longrightarrow> c \<in> subtree els n"
  by (auto simp: subtree_def descendants_def)

lemma ex_moved_facts:
  "elements ex_moved_state = ex_nodes @ [mk_edge ''n1'' ''n3'', mk_edge ''root'' ''n1'']"
  "positions_of ex_moved_state = Some [''root'' \<mapsto> (0, 0), ''n1'' \<mapsto> (200, 0), ''n3'' \<mapsto> (400, 0)]"
  "uc_hasEdge ex_moved_cap" "np_id (uc_remoteNode ex_moved_cap) = ''n1''"
  "editingNode ex_moved_state = Some ''n3''"
  by (simp_all add: ex_moved_state_def ex_moved_cap_def ex_editing_n3_def ex_move_active_def
        positions_of_def update_sync_def update_guards_def update_blocked_def update_store_def
        update_elements_def update_edge_def
        within_grace_def set_order_def common_defs ex_defs)

lemma ex_batch_facts:
  "elements ex_batch_state = ex_nodes @ [mk_edge ''n1'' ''n3'', mk_edge ''root'' ''n1'']"
  "positions_of ex_batch_state = Some [''root'' \<mapsto> (0, 0), ''n1'' \<mapsto> (200, 0), ''n3'' \<mapsto> (400, 0)]"
  "bp_edges (bc_payload ex_batch_cap) = Some [mk_edge ''root'' ''n1'']"
  by (simp_all add: ex_batch_state_def ex_batch_cap_def ex_editing_n3_def
        positions_of_def batch_defs common_defs ex_defs)

lemma ex_ranked: "ranked ex_rank (ex_nodes @ [mk_edge ''n1'' ''n3'', mk_edge ''root'' ''n1''])"
  by (simp add: ranked_def ex_rank_def common_defs ex_defs)

lemma ex_subtree:
  "''n1'' \<in> subtree (ex_nodes @ [mk_edge ''n1'' ''n3'', mk_edge ''root'' ''n1'']) ''n1''"
  "''n3'' \<in> subtree (ex_nodes @ [mk_edge ''n1'' ''n3'', mk_edge ''root'' ''n1'']) ''n1''"
  "''root'' \<notin> subtree (ex_nodes @ [mk_edge ''n1'' ''n3'', mk_edge ''root'' ''n1'']) ''n1''"
proof -
  let ?els = "ex_nodes @ [mk_edge ''n1'' ''n3'', mk_edge ''root'' ''n1'']"
  show "''n1'' \<in> subtree ?els ''n1''" by (simp add: subtree_def)
  have "(''n1'', ''n3'') \<in> edge_rel ?els"
    unfolding edge_rel_def
    by (rule CollectI, rule exI[of _ "mk_edge ''n1'' ''n3''"]) (simp add: mk_edge_def is_edge_def)
  then show "''n3'' \<in> subtree ?els ''n1''" by (rule child_in_subtree)
  show "''root'' \<notin> subtree ?els ''n1''"
    using descendants_rank[OF ex_ranked, of "''root''" "''n1''"]
    by (auto simp: subtree_def ex_rank_def)
qed

theorem subtree_positions_invalidated_witness:
  "ranked ex_rank (elements ex_moved_state) \<and> uc_hasEdge ex_moved_cap
   \<and> ex_rank (np_id (uc_remoteNode ex_moved_cap)) < 3 \<and> editingNode ex_moved_state = Some ''n3''
   \<and> (\<exists>st1. update_invalidate 3 ex_moved_cap ex_moved_state = Some st1
         \<and> Option.bind (positions_of st1) (\<lambda>m. m ''n1'') = None
         \<and> Option.bind (positions_of st1) (\<lambda>m. m ''n3'') = None
         \<and> Option.bind (positions_of st1) (\<lambda>m. m ''root'') = Some (0, 0))
   \<and> (\<exists>st1. batch_invalidate 3 ex_batch_cap ex_batch_state = Some st1
         \<and> Option.bind (positions_of st1) (\<lambda>m. m ''n1'') = None
         \<and> Option.bind (positions_of st1) (\<lambda>m. m ''n3'') = None
         \<and> Option.bind (positions_of st1) (\<lambda>m. m ''root'') = Some (0, 0))"
proof -
  let ?els = "ex_nodes @ [mk_edge ''n1'' ''n3'', mk_edge ''root'' ''n1'']"
  let ?pos = "[''root'' \<mapsto> (0, 0), ''n1'' \<mapsto> (200, 0), ''n3'' \<mapsto> (400::int, 0::int)]"
  have r: "ranked ex_rank (elements ex_moved_state)" "ranked ex_rank (elements ex_batch_state)"
    using ex_ranked by (simp_all add: ex_moved_facts ex_batch_facts)
  have k: "ex_rank (np_id (uc_remoteNode ex_moved_cap)) < 3"
    "\<forall>e \<in> set [mk_edge ''root'' ''n1'']. ex_rank (el_target e) < 3"
    by (simp_all add: ex_moved_facts ex_rank_def mk_edge_def)
  have pts: "(?pos |` (- subtree ?els ''n1'')) ''n1'' = None"
    "(?pos |` (- subtree ?els ''n1'')) ''n3'' = None"
    "(?pos |` (- subtree ?els ''n1'')) ''root'' = Some (0, 0)"
    using ex_subtree by (simp_all add: restrict_map_def)
  have tg: "(\<Union>e \<in> set [mk_edge ''root'' ''n1'']. subtree ?els (el_target e)) = subtree ?els ''n1''"
    by (simp add: mk_edge_def)
  have ne: "[mk_edge ''root'' ''n1''] \<noteq> []" by simp
  have "\<exists>st1. update_invalidate 3 ex_moved_cap ex_moved_state = Some st1
          \<and> positions_of st1 = Some (?pos |` (- subtree ?els ''n1''))"
    using subtree_positions_invalidated[OF r(1) ex_moved_facts(2), where cap=ex_moved_cap and fuel=3]
      ex_moved_facts(3) k(1)
    unfolding ex_moved_facts by blast
  then obtain st1 where st1: "update_invalidate 3 ex_moved_cap ex_moved_state = Some st1"
    "positions_of st1 = Some (?pos |` (- subtree ?els ''n1''))"
    by blast
  have "\<exists>st2. batch_invalidate 3 ex_batch_cap ex_batch_state = Some st2
          \<and> positions_of st2 = Some (?pos |` (- subtree ?els ''n1''))"
    using subtree_positions_invalidated[OF r(2) ex_batch_facts(2),
        where bcap=ex_batch_cap and es="[mk_edge ''root'' ''n1'']" and fuel=3]
      ex_batch_facts(3) k(2) ne
    unfolding ex_batch_facts(1) tg by blast
  then obtain st2 where st2: "batch_invalidate 3 ex_batch_cap ex_batch_state = Some st2"
    "positions_of st2 = Some (?pos |` (- subtree ?els ''n1''))"
    by blast
  have "Option.bind (positions_of st1) (\<lambda>m. m ''n1'') = None"
    "Option.bind (positions_of st1) (\<lambda>m. m ''n3'') = None"
    "Option.bind (positions_of st1) (\<lambda>m. m ''root'') = Some (0, 0)"
    "Option.bind (positions_of st2) (\<lambda>m. m ''n1'') = None"
    "Option.bind (positions_of st2) (\<lambda>m. m ''n3'') = None"
    "Option.bind (positions_of st2) (\<lambda>m. m ''root'') = Some (0, 0)"
    unfolding st1(2) st2(2) bind.simps pts by simp_all
  with r k ex_moved_facts(3,5) st1(1) st2(1) show ?thesis by blast
qed

text \<open>
  The claim as stated fails: an event that moves \<open>n1\<close>, the node under local edit with
  local changes, returns before the edge is applied and before the callback is queued,
  and the positions of \<open>n1\<close> and of its child \<open>n3\<close> stay in the cache. The same event
  clears both when \<open>n3\<close> is the node under edit.
\<close>

theorem subtree_positions_counterexample:
  "editingNode ex_dirty = Some ''n1'' \<and> ''n1'' \<in> changedNodeIds ex_dirty
   \<and> up_edge ex_move_active = Some (mk_edge ''root'' ''n1'')
   \<and> map_option (\<lambda>(s, f). (Option.bind (positions_of s) (\<lambda>m. m ''n1''),
                            Option.bind (positions_of s) (\<lambda>m. m ''n3'')))
        (handleRealtimeNodeUpdate 6000 5 ex_dirty (Some ex_move_active)) = Some (Some (200, 0), Some (400, 0))
   \<and> map_option (\<lambda>(s, f). (Option.bind (positions_of s) (\<lambda>m. m ''n1''),
                            Option.bind (positions_of s) (\<lambda>m. m ''n3'')))
        (handleRealtimeNodeUpdate 6000 5 ex_editing_n3 (Some ex_move_active)) = Some (None, None)"
  by (simp add: ex_dirty_def ex_editing_n3_def ex_move_active_def positions_of_def update_defs
        common_defs ex_defs)

section \<open>A batch with a new node and the active edit node\<close>

lemma batch_merge_node_id: "el_id (batch_merge_node ns l) = el_id l"
  by (auto simp: batch_merge_node_def spread_node_def find_Some_iff split: option.splits)

lemma find_map_merge:
  "find (\<lambda>el. el_id el = a) (map (batch_merge_node ns) xs)
     = map_option (batch_merge_node ns) (find (\<lambda>el. el_id el = a) xs)"
  by (induction xs) (simp_all add: batch_merge_node_id)

lemma find_append_hit: "find P xs = Some x \<Longrightarrow> find P (xs @ ys) = Some x"
  by (induction xs) (auto split: if_splits)

lemma find_in_set: "a \<in> f ` set xs \<Longrightarrow> \<exists>x. find (\<lambda>el. f el = a) xs = Some x \<and> f x = a"
  by (induction xs) auto

lemma nodes_of_batch:
  assumes "elements s = batch_updatedNodes st p @ es"
  shows "nodes_of s = batch_updatedNodes st p @ filter (\<lambda>e. \<not> is_edge e) es"
proof -
  have "filter (\<lambda>e. \<not> is_edge e) (batch_updatedNodes st p) = batch_updatedNodes st p"
    unfolding batch_updatedNodes_def by (rule filter_True) (use batch_nodes_nonedge in blast)
  then show ?thesis by (simp add: nodes_of_def assms)
qed

lemma batch_store_new:
  assumes "elements s = batch_updatedNodes st p @ es" and "n \<in> set (bp_nodes p)" and "\<not> has_node st (np_id n)"
  shows "has_node s (np_id n)"
proof -
  have "as_element n \<in> set (batch_updatedNodes st p)"
    using assms(2,3) by (auto simp: batch_updatedNodes_def has_node_def)
  then show ?thesis
    unfolding has_node_def nodes_of_batch[OF assms(1)] by (force simp: as_element_def)
qed

lemma batch_store_active:
  assumes "elements s = batch_updatedNodes st p @ es" and "has_node st a"
    and "find (\<lambda>n. np_id n = a) (bp_nodes p) = Some pa"
  shows "store_data s a = (case np_data pa of None \<Rightarrow> store_data st a | Some d \<Rightarrow> Some d)"
proof -
  from assms(2) obtain l where l: "find (\<lambda>el. el_id el = a) (nodes_of st) = Some l" and la: "el_id l = a"
    using find_in_set[of a el_id "nodes_of st"] by (auto simp: has_node_def)
  have "find (\<lambda>el. el_id el = a) (nodes_of s) = Some (batch_merge_node (bp_nodes p) l)"
    unfolding nodes_of_batch[OF assms(1)] batch_updatedNodes_def
    by (simp add: find_append_hit find_map_merge l)
  moreover have "batch_merge_node (bp_nodes p) l = spread_node l pa"
    using assms(3) la by (simp add: batch_merge_node_def)
  ultimately show ?thesis
    by (simp add: store_data_def l spread_node_def split: option.splits)
qed

lemma batch_invalidate_frame2:
  assumes "batch_invalidate fuel cap st = Some st'"
  shows "elements st' = elements st" and "effects st' = effects st" and "editingNode st' = editingNode st"
    and "(d3Renderer st' = None) = (d3Renderer st = None)"
  using assms by (auto simp: batch_invalidate_def Let_def split: option.splits if_splits)

lemma batch_invalidate_no_edges:
  "bp_edges (bc_payload cap) = None \<Longrightarrow> \<exists>st'. batch_invalidate fuel cap st = Some st'"
  by (simp add: batch_invalidate_def Let_def split: option.splits)

lemma safeRender_forced_effects:
  assumes "d3Renderer st \<noteq> None"
  shows "Render \<in> set (new_effects st (fst (safeRender True st)))"
  using assms by (auto simp: safeRender_def new_effects_def log_effect_def Let_def split: option.splits)

lemma new_effects_trans:
  "effects st1 = effects st @ pre \<Longrightarrow> e \<in> set (new_effects st1 st2) \<Longrightarrow> e \<in> set (new_effects st st2)"
  using set_drop_subset_set_drop[of "length (effects st)" "length (effects st1)" "effects st2"]
  by (auto simp: new_effects_def)

lemma batch_render_new:
  assumes "truthy (editingNode st)" and "bc_hasNewNodes cap" and "d3Renderer st \<noteq> None"
  shows "\<exists>st'. batch_render cap st = Some st' \<and> elements st' = elements st
           \<and> Render \<in> set (new_effects st st')"
proof -
  from assms(3) obtain r where r: "d3Renderer st = Some r" by auto
  let ?sd = "setData (bc_updatedNodes cap) (filter is_edge (elements st)) (nodeCreationOrder st) st"
  have eq: "batch_render cap st = Some (fst (safeRender True ?sd))"
    using assms r by (simp add: batch_render_def Let_def)
  have "d3Renderer ?sd \<noteq> None" using r by (simp add: setData_def log_effect_def)
  from safeRender_forced_effects[OF this]
  have "Render \<in> set (new_effects st (fst (safeRender True ?sd)))"
    by (rule new_effects_trans[rotated]) (simp add: setData_def log_effect_def)
  then show ?thesis by (simp add: eq safeRender_frame setData_frame)
qed


lemma batch_sync_effects:
  assumes "batch_processed st p" and "batch_sync st (Some p) = (s, c)"
  shows "\<exists>pre. effects s = effects st @ pre"
  using assms(2) unfolding batch_sync_eq[OF assms(1)]
  by (auto simp: Let_def log_effect_def split: if_splits)

lemma batch_invalidate_total:
  assumes "bp_edges (bc_payload cap) = None
           \<or> ranked rank (elements st) \<and> (\<forall>e \<in> set (payload_edges (bc_payload cap)). rank (el_target e) < fuel)"
  shows "\<exists>st'. batch_invalidate fuel cap st = Some st'"
proof (cases "bp_edges (bc_payload cap)")
  case None
  then show ?thesis by (rule batch_invalidate_no_edges)
next
  case (Some es)
  with assms have rk: "ranked rank (elements st)" and fu: "\<forall>t \<in> set (map el_target es). rank t < fuel"
    by (auto simp: payload_edges_def)
  show ?thesis
  proof (cases "d3Renderer st")
    case None
    then show ?thesis by (simp add: batch_invalidate_def)
  next
    case r: (Some r)
    show ?thesis
    proof (cases "positions r")
      case None
      with r Some show ?thesis by (simp add: batch_invalidate_def Let_def)
    next
      case pos: (Some pos)
      from clearSubtrees_correct[OF rk fu, of pos] r pos Some show ?thesis
        by (simp add: batch_invalidate_def Let_def)
    qed
  qed
qed

text \<open>
  C1, as the handler has it. A batch that passes the guards of the handler and holds a
  node not yet in the Document Store together with a patch for the active edit node:
  the new node is added to the store, a render is made although an edit is active, and
  the active node's entry in the store is merged with its patch, whose \<open>data\<close>, label
  included, replaces the local one. The handler and its callback return when the payload
  has no edges, and when the edges of the store, the payload's among them, have no cycle
  (a rank decreases along them) and the recursion depth suffices for the targets of the
  payload's edges.
\<close>

theorem batch_new_node_rendered:
  assumes "batch_processed st p" and "editingNode st = Some a" and "a \<noteq> []" and "has_node st a"
    and "find (\<lambda>n. np_id n = a) (bp_nodes p) = Some pa"
    and "n \<in> set (bp_nodes p)" and "\<not> has_node st (np_id n)" and "d3Renderer st \<noteq> None"
  shows "(bp_edges p = None
            \<or> ranked rank (elements (fst (batch_sync st (Some p))))
              \<and> (\<forall>e \<in> set (payload_edges p). rank (el_target e) < fuel) \<longrightarrow>
          (\<exists>st'. handleRealtimeNodesBatchUpdate fuel st (Some p) = Some st'
             \<and> has_node st' (np_id n) \<and> Render \<in> set (new_effects st st')
             \<and> store_data st' a = (case np_data pa of None \<Rightarrow> store_data st a | Some d \<Rightarrow> Some d)))
       \<and> (\<forall>st'. handleRealtimeNodesBatchUpdate fuel st (Some p) = Some st' \<longrightarrow>
            has_node st' (np_id n) \<and> Render \<in> set (new_effects st st')
            \<and> store_data st' a = (case np_data pa of None \<Rightarrow> store_data st a | Some d \<Rightarrow> Some d))"
proof -
  obtain s c where sc: "batch_sync st (Some p) = (s, c)" by (cases "batch_sync st (Some p)")
  note facts = batch_sync_processed[OF assms(1) sc]
  from assms(8) obtain r where r: "d3Renderer st = Some r" by auto
  from facts(4) r obtain cap where cap: "c = Some cap" and cp: "bc_payload cap = p"
    and cn: "bc_hasNewNodes cap = list_ex (\<lambda>n. np_id n \<notin> set (map el_id (nodes_of st))) (bp_nodes p)"
    by simp
  have new: "bc_hasNewNodes cap"
    unfolding cn list_ex_iff using assms(6,7) by (auto simp: has_node_def)
  from batch_sync_effects[OF assms(1) sc] obtain pre where pre: "effects s = effects st @ pre" ..
  have h: "handleRealtimeNodesBatchUpdate fuel st (Some p)
             = Option.bind (batch_invalidate fuel cap s) (batch_render cap)"
    by (simp add: handleRealtimeNodesBatchUpdate_def sc cap batch_tick_def)
  have post: "has_node st' (np_id n) \<and> Render \<in> set (new_effects st st')
            \<and> store_data st' a = (case np_data pa of None \<Rightarrow> store_data st a | Some d \<Rightarrow> Some d)"
    if st': "handleRealtimeNodesBatchUpdate fuel st (Some p) = Some st'" for st'
  proof -
    from st' h obtain s1 where s1: "batch_invalidate fuel cap s = Some s1"
      and s2: "batch_render cap s1 = Some st'"
      by (auto simp: bind_eq_Some_conv)
    note inv = batch_invalidate_frame2[OF s1]
    have "truthy (editingNode s1)" using inv(3) facts(3) assms(2,3) by (simp add: truthy_def)
    moreover have "d3Renderer s1 \<noteq> None" using inv(4) facts(2) assms(8) by simp
    ultimately obtain s2' where a: "batch_render cap s1 = Some s2'" and b: "elements s2' = elements s1"
      and c: "Render \<in> set (new_effects s1 s2')"
      using batch_render_new[OF _ new, of s1] by blast
    from a s2 have [simp]: "s2' = st'" by simp
    have el: "elements st' = batch_updatedNodes st p @ batch_edges (bp_edges p) (edges_of st)"
      using b inv(1) facts(1) by simp
    have "Render \<in> set (new_effects st st')"
      using new_effects_trans[of s1 st pre Render st'] c inv(2) pre by simp
    with batch_store_new[OF el assms(6,7)] batch_store_active[OF el assms(4,5)]
    show ?thesis by simp
  qed
  have "\<exists>st'. handleRealtimeNodesBatchUpdate fuel st (Some p) = Some st'"
    if t: "bp_edges p = None
            \<or> ranked rank (elements (fst (batch_sync st (Some p))))
              \<and> (\<forall>e \<in> set (payload_edges p). rank (el_target e) < fuel)"
  proof -
    from t sc cp have "bp_edges (bc_payload cap) = None
           \<or> ranked rank (elements s) \<and> (\<forall>e \<in> set (payload_edges (bc_payload cap)). rank (el_target e) < fuel)"
      by simp
    from batch_invalidate_total[OF this]
    obtain s1 where s1: "batch_invalidate fuel cap s = Some s1" by auto
    note inv = batch_invalidate_frame2[OF s1]
    have "truthy (editingNode s1)" using inv(3) facts(3) assms(2,3) by (simp add: truthy_def)
    moreover have "d3Renderer s1 \<noteq> None" using inv(4) facts(2) assms(8) by simp
    ultimately show ?thesis using batch_render_new[OF _ new, of s1] h s1 by auto
  qed
  with post show ?thesis by blast
qed

text \<open>
  The batch brings \<open>n4\<close> with its edge from \<open>n1\<close> and a patch for \<open>n1\<close>, which is under
  edit: the handler returns, \<open>n4\<close> is in the store, a render has been made, and the
  label of \<open>n1\<close> is the patch's.
\<close>

theorem batch_new_node_rendered_witness:
  "batch_processed ex_state ex_new_with_edge \<and> editingNode ex_state = Some ''n1''
   \<and> has_node ex_state ''n1'' \<and> \<not> has_node ex_state ''n4''
   \<and> ranked ex_rank (elements (fst (batch_sync ex_state (Some ex_new_with_edge))))
   \<and> list_all (\<lambda>e. ex_rank (el_target e) < 5) (payload_edges ex_new_with_edge)
   \<and> (\<exists>st'. handleRealtimeNodesBatchUpdate 5 ex_state (Some ex_new_with_edge) = Some st'
         \<and> has_node st' ''n4'' \<and> Render \<in> set (new_effects ex_state st')
         \<and> store_label st' ''n1'' = Some ''X'')"
proof -
  have a: "batch_processed ex_state ex_new_with_edge"
    by (simp add: batch_processed_def ex_new_with_edge_def ex_defs)
  have b: "editingNode ex_state = Some ''n1''" "''n1'' \<noteq> []" "has_node ex_state ''n1''"
    "\<not> has_node ex_state ''n4''" "d3Renderer ex_state \<noteq> None"
    by (simp_all add: common_defs ex_defs)
  have c: "find (\<lambda>n. np_id n = ''n1'') (bp_nodes ex_new_with_edge) = Some (mk_patch ''n1'' ''X'')"
    "mk_patch ''n4'' ''D'' \<in> set (bp_nodes ex_new_with_edge)"
    "np_id (mk_patch ''n4'' ''D'') = ''n4''"
    by (simp_all add: ex_new_with_edge_def ex_defs)
  have d: "\<not> has_node ex_state (np_id (mk_patch ''n4'' ''D''))" using b(4) c(3) by simp
  have rk: "ranked ex_rank (elements (fst (batch_sync ex_state (Some ex_new_with_edge))))"
    by (simp add: ranked_def ex_rank_def ex_new_with_edge_def batch_defs common_defs ex_defs)
  have fu: "list_all (\<lambda>e. ex_rank (el_target e) < 5) (payload_edges ex_new_with_edge)"
    by (simp add: payload_edges_def ex_rank_def ex_new_with_edge_def ex_defs)
  then have fu': "\<forall>e \<in> set (payload_edges ex_new_with_edge). ex_rank (el_target e) < 5"
    by (simp add: list_all_iff)
  from batch_new_node_rendered[OF a b(1,2,3) c(1,2) d b(5), of ex_rank 5] rk fu' c(3)
  have "\<exists>st'. handleRealtimeNodesBatchUpdate 5 ex_state (Some ex_new_with_edge) = Some st'
         \<and> has_node st' ''n4'' \<and> Render \<in> set (new_effects ex_state st')
         \<and> store_label st' ''n1'' = Some ''X''"
    by (auto simp: store_label_def mk_patch_def label_of_def)
  with a b rk fu show ?thesis by simp
qed

text \<open>
  The claim as stated fails: the label of the active edit node \<open>n1\<close> in the store is
  \<open>A\<close> before the batch and the patch's \<open>X\<close> after it.
\<close>

theorem batch_new_node_counterexample:
  "editingNode ex_state = Some ''n1'' \<and> \<not> has_node ex_state ''n4'' \<and> store_label ex_state ''n1'' = Some ''A''
   \<and> map_option (\<lambda>s. (has_node s ''n4'', Render \<in> set (effects s), store_label s ''n1''))
        (handleRealtimeNodesBatchUpdate 5 ex_state (Some ex_new_and_active)) = Some (True, True, Some ''X'')"
  by (simp add: ex_new_and_active_def batch_defs common_defs ex_defs del: set_filter)

section \<open>Forced render around an active edit\<close>

lemma awaitEditor_none:
  assumes "\<forall>k. a \<le> k \<and> k < 10 \<longrightarrow> \<not> usable (polls k)" and "a \<le> 10"
  shows "awaitEditor polls a = (None, concat (replicate (10 - a) poll_round))"
  using assms
proof (induction "10 - a" arbitrary: a)
  case 0
  then show ?case by (subst awaitEditor.simps) simp
next
  case (Suc d)
  then have lt: "a < 10" by simp
  with Suc.prems have nu: "\<not> usable (polls a)" by simp
  have ih: "awaitEditor polls (Suc a) = (None, concat (replicate (10 - Suc a) poll_round))"
    using Suc.hyps Suc.prems lt by (intro Suc.hyps(1)) auto
  have "10 - a = Suc (10 - Suc a)" using lt by simp
  then show ?case
    using lt nu by (subst awaitEditor.simps) (simp add: ih poll_round_def Let_def)
qed

lemma awaitEditor_first:
  assumes "k < 10" and "usable (polls k)" and "\<forall>j. a \<le> j \<and> j < k \<longrightarrow> \<not> usable (polls j)" and "a \<le> k"
  shows "awaitEditor polls a = (polls k, concat (replicate (Suc k - a) poll_round))"
  using assms
proof (induction "k - a" arbitrary: a)
  case 0
  then show ?case by (subst awaitEditor.simps) (simp add: poll_round_def Let_def)
next
  case (Suc d)
  then have "a < k" by simp
  with Suc.prems have nu: "\<not> usable (polls a)" by simp
  have ih: "awaitEditor polls (Suc a) = (polls k, concat (replicate (Suc k - Suc a) poll_round))"
    using Suc.hyps Suc.prems \<open>a < k\<close> by (intro Suc.hyps(1)) auto
  have "Suc k - a = Suc (Suc k - Suc a)" using \<open>a < k\<close> by simp
  then show ?case
    using nu \<open>a < k\<close> Suc.prems(1) by (subst awaitEditor.simps) (simp add: ih poll_round_def Let_def)
qed

lemma usable_cases:
  "(\<forall>k < 10. \<not> usable (polls k)) \<or> (\<exists>k. first_usable polls k)"
proof (cases "\<exists>k < 10. usable (polls k)")
  case False
  then show ?thesis by simp
next
  case True
  define k where "k = (LEAST k. k < 10 \<and> usable (polls k))"
  from True have "k < 10 \<and> usable (polls k)"
    unfolding k_def by (rule LeastI_ex)
  moreover have "\<not> usable (polls j)" if "j < k" for j
  proof
    assume "usable (polls j)"
    with that \<open>k < 10 \<and> usable (polls k)\<close> have "j < 10 \<and> usable (polls j)" by simp
    from Least_le[of "\<lambda>k. k < 10 \<and> usable (polls k)", OF this] that show False
      unfolding k_def by simp
  qed
  ultimately show ?thesis by (auto simp: first_usable_def)
qed

lemma focusRetry_eq:
  "focusRetry focused 0 = concat (replicate (focus_attempts focused) focus_round)"
proof -
  have s3: "focusRetry focused (Suc (Suc (Suc 0))) = []" by (subst focusRetry.simps) simp
  have s2: "focusRetry focused (Suc (Suc 0)) = (if focused (Suc (Suc 0)) then [] else focus_round)"
    by (subst focusRetry.simps) (simp add: s3 focus_round_def)
  have s1: "focusRetry focused (Suc 0)
              = (if focused (Suc 0) then [] else focus_round @ focusRetry focused (Suc (Suc 0)))"
    by (subst focusRetry.simps) (simp add: focus_round_def)
  have s0: "focusRetry focused 0 = (if focused 0 then [] else focus_round @ focusRetry focused (Suc 0))"
    by (subst focusRetry.simps) (simp add: focus_round_def)
  show ?thesis
    by (simp add: s0 s1 s2 focus_attempts_def eval_nat_numeral)
qed

lemma clamp_collapse: "d < 0 \<Longrightarrow> clamp_offset d x = 0"
  by (simp add: clamp_offset_def)

lemma clamp_offset_bounds: "0 \<le> clamp_offset d x" "0 \<le> d \<Longrightarrow> clamp_offset d x \<le> d"
  by (simp_all add: clamp_offset_def)

lemma restore_none:
  assumes "\<forall>k < 10. \<not> usable (polls k)"
  shows "restoreEditorState polls focused (Some ps) = concat (replicate 10 poll_round)"
  using awaitEditor_none[of 0 polls] assms by (simp add: restoreEditorState_def)

lemma restore_first:
  assumes "first_usable polls k" and "polls k = Some w"
  shows "restoreEditorState polls focused (Some ps)
           = concat (replicate (Suc k) poll_round)
             @ (if clamp_offset (ed_docSize w) (sel_from (ps_selection ps))
                     \<noteq> clamp_offset (ed_docSize w) (sel_to (ps_selection ps))
                then [Command (SetTextSelection (clamp_offset (ed_docSize w) (sel_from (ps_selection ps)))
                                 (clamp_offset (ed_docSize w) (sel_to (ps_selection ps))))]
                else [])
             @ (if ps_isFocused ps
                then Timeout 100 # concat (replicate (focus_attempts focused) focus_round) else [])"
proof -
  have a: "awaitEditor polls 0 = (Some w, concat (replicate (Suc k) poll_round))"
    using awaitEditor_first[of k polls 0] assms by (simp add: first_usable_def)
  have c: "clamp_offset (ed_docSize w) x \<noteq> clamp_offset (ed_docSize w) y
             \<Longrightarrow> clamp_offset (ed_docSize w) y \<le> ed_docSize w" for x y
    by (cases "ed_docSize w < 0") (simp_all add: clamp_collapse clamp_offset_bounds)
  show ?thesis
    using c[of "sel_from (ps_selection ps)" "sel_to (ps_selection ps)"]
    by (simp add: restoreEditorState_def a Let_def focusRetry_eq clamp_offset_bounds
          clamp_offset_def[symmetric] del: replicate.simps concat.simps)
qed


lemma filter_concat_replicate:
  "filter P (concat (replicate n xs)) = concat (replicate n (filter P xs))"
  by (induction n) simp_all

lemma length_concat_replicate: "length (concat (replicate n xs)) = n * length xs"
  by (induction n) simp_all

lemma focus_attempts_bound: "focus_attempts focused \<le> 3" "focus_attempts focused = 0 \<longleftrightarrow> focused 0"
  by (simp_all add: focus_attempts_def)

lemma restore_counts:
  "length (filter (\<lambda>s. s = GetEditor) (restoreEditorState polls focused (Some ps))) \<le> 10"
  "length (filter (\<lambda>s. s = Command FocusEnd) (restoreEditorState polls focused (Some ps))) \<le> 3"
proof -
  consider (none) "\<forall>k < 10. \<not> usable (polls k)" | (some) k where "first_usable polls k"
    using usable_cases[of polls] by blast
  then have "length (filter (\<lambda>s. s = GetEditor) (restoreEditorState polls focused (Some ps))) \<le> 10
           \<and> length (filter (\<lambda>s. s = Command FocusEnd) (restoreEditorState polls focused (Some ps))) \<le> 3"
  proof cases
    case none
    then show ?thesis
      by (simp add: restore_none filter_concat_replicate length_concat_replicate poll_round_def)
  next
    case some
    then obtain w where w: "polls k = Some w" by (auto simp: first_usable_def usable_def split: option.splits)
    from some have "k < 10" by (simp add: first_usable_def)
    then show ?thesis
      using focus_attempts_bound(1)[of focused]
      by (simp add: restore_first[OF some w] filter_concat_replicate length_concat_replicate
            poll_round_def focus_round_def del: replicate.simps)
  qed
  then show "length (filter (\<lambda>s. s = GetEditor) (restoreEditorState polls focused (Some ps))) \<le> 10"
    "length (filter (\<lambda>s. s = Command FocusEnd) (restoreEditorState polls focused (Some ps))) \<le> 3"
    by simp_all
qed

lemma safeRender_forced:
  assumes "d3Renderer st = Some r" and "editingNode st = Some a" and "a \<noteq> []"
    and "r_editors r a = Some ed" and "usable (Some ed)"
  shows "safeRender True st
           = (st\<lparr>effects := effects st @ [Preserved (snapshot_of a ed), Render, Restore (snapshot_of a ed)]\<rparr>, True)"
  using assms
  by (simp add: safeRender_def truthy_def preserveEditorState_def usable_def snapshot_of_def
        log_effect_def Let_def)

text \<open>
  C8, as the helpers have it. A forced render with a usable editor on the active edit
  node logs, in this order, the snapshot (focus flag, the four selection offsets, the
  content), the render and the restore of that snapshot. The restore asks for the editor
  after a wait of 50 ms and a frame, again and again until it is usable, ten times at
  most; when it has not come back by then, nothing else is done. When it has, the saved
  selection, clamped to the new document size, is set if its two ends differ after
  clamping, and only then; and if the editor had the focus, the restore waits 100 ms and
  asks for the focus at the end of the text, with a wait of 50 ms after each request,
  until the editor reports the focus, three times at most, and at least once unless the
  editor has the focus already.
\<close>

theorem forced_render_preserves_editor:
  "(d3Renderer st = Some r \<and> editingNode st = Some a \<and> a \<noteq> [] \<and> r_editors r a = Some ed
      \<and> usable (Some ed) \<longrightarrow>
      safeRender True st
        = (st\<lparr>effects := effects st @ [Preserved (snapshot_of a ed), Render, Restore (snapshot_of a ed)]\<rparr>, True))
   \<and> ((\<forall>k < 10. \<not> usable (polls k)) \<longrightarrow>
        restoreEditorState polls focused (Some ps) = concat (replicate 10 poll_round))
   \<and> (\<forall>k w. first_usable polls k \<and> polls k = Some w \<longrightarrow>
        restoreEditorState polls focused (Some ps)
          = concat (replicate (Suc k) poll_round)
            @ (if clamp_offset (ed_docSize w) (sel_from (ps_selection ps))
                    \<noteq> clamp_offset (ed_docSize w) (sel_to (ps_selection ps))
               then [Command (SetTextSelection (clamp_offset (ed_docSize w) (sel_from (ps_selection ps)))
                                (clamp_offset (ed_docSize w) (sel_to (ps_selection ps))))]
               else [])
            @ (if ps_isFocused ps
               then Timeout 100 # concat (replicate (focus_attempts focused) focus_round) else []))
   \<and> ((\<forall>k < 10. \<not> usable (polls k)) \<or> (\<exists>k. first_usable polls k))
   \<and> focus_attempts focused \<le> 3 \<and> (focus_attempts focused = 0 \<longleftrightarrow> focused 0)
   \<and> 0 \<le> clamp_offset d x \<and> (0 \<le> d \<longrightarrow> clamp_offset d x \<le> d)
   \<and> length (filter (\<lambda>s. s = GetEditor) (restoreEditorState polls focused (Some ps))) \<le> 10
   \<and> length (filter (\<lambda>s. s = Command FocusEnd) (restoreEditorState polls focused (Some ps))) \<le> 3"
  using safeRender_forced restore_none restore_first usable_cases[of polls]
    focus_attempts_bound[of focused] clamp_offset_bounds[of d x] restore_counts[of polls focused ps]
  by (intro conjI impI allI) blast+

text \<open>
  The editor of \<open>n1\<close> is back at the first poll, with a document of size 5 and without the
  focus, which it gets at the second request: the saved selection from 2 to 9 is set
  again as 2 to 5.
\<close>

theorem forced_render_preserves_editor_witness:
  "d3Renderer ex_state = Some ex_renderer \<and> editingNode ex_state = Some ''n1''
   \<and> r_editors ex_renderer ''n1'' = Some ex_editor \<and> usable (Some ex_editor)
   \<and> safeRender True ex_state
       = (ex_state\<lparr>effects := [Preserved (snapshot_of ''n1'' ex_editor), Render,
                                 Restore (snapshot_of ''n1'' ex_editor)]\<rparr>, True)
   \<and> first_usable ex_polls 0 \<and> ps_isFocused ex_range \<and> focus_attempts (\<lambda>k. 2 \<le> k) = 2
   \<and> restoreEditorState ex_polls (\<lambda>k. 2 \<le> k) (Some ex_range)
       = [Timeout 50, AnimationFrame, GetEditor, Command (SetTextSelection 2 5), Timeout 100,
          Command FocusEnd, Timeout 50, Command FocusEnd, Timeout 50]
   \<and> restoreEditorState (\<lambda>k. None) (\<lambda>k. False) (Some ex_range) = concat (replicate 10 poll_round)"
proof -
  let ?w = "ex_editor\<lparr>ed_isFocused := False, ed_domActive := False\<rparr>"
  have a: "d3Renderer ex_state = Some ex_renderer" "editingNode ex_state = Some ''n1''" "''n1'' \<noteq> []"
    "r_editors ex_renderer ''n1'' = Some ex_editor" "usable (Some ex_editor)" "effects ex_state = []"
    by (simp_all add: usable_def ex_defs)
  have b: "first_usable ex_polls 0" "ex_polls 0 = Some ?w" "ps_isFocused ex_range"
    "clamp_offset (ed_docSize ?w) (sel_from (ps_selection ex_range)) = 2"
    "clamp_offset (ed_docSize ?w) (sel_to (ps_selection ex_range)) = 5"
    "focus_attempts (\<lambda>k. 2 \<le> k) = 2"
    by (simp_all add: first_usable_def ex_polls_def ex_range_def snapshot_of_def clamp_offset_def
          usable_def focus_attempts_def ex_defs)
  have n: "\<forall>k < 10. \<not> usable ((\<lambda>k. None) k)" by (simp add: usable_def)
  note th = forced_render_preserves_editor[of ex_state ex_renderer "''n1''" ex_editor
                ex_polls "\<lambda>k. 2 \<le> k" ex_range]
  note th2 = forced_render_preserves_editor[of ex_state ex_renderer "''n1''" ex_editor
                "\<lambda>k. None" "\<lambda>k. False" ex_range]
  from th a have sr: "safeRender True ex_state
       = (ex_state\<lparr>effects := effects ex_state @ [Preserved (snapshot_of ''n1'' ex_editor), Render,
                                 Restore (snapshot_of ''n1'' ex_editor)]\<rparr>, True)"
    by blast
  from th have "\<forall>k w. first_usable ex_polls k \<and> ex_polls k = Some w \<longrightarrow>
        restoreEditorState ex_polls (\<lambda>k. 2 \<le> k) (Some ex_range)
          = concat (replicate (Suc k) poll_round)
            @ (if clamp_offset (ed_docSize w) (sel_from (ps_selection ex_range))
                    \<noteq> clamp_offset (ed_docSize w) (sel_to (ps_selection ex_range))
               then [Command (SetTextSelection (clamp_offset (ed_docSize w) (sel_from (ps_selection ex_range)))
                                (clamp_offset (ed_docSize w) (sel_to (ps_selection ex_range))))]
               else [])
            @ (if ps_isFocused ex_range
               then Timeout 100 # concat (replicate (focus_attempts (\<lambda>k. 2 \<le> k)) focus_round) else [])"
    by blast
  from this[rule_format, of 0 ?w] b
  have r: "restoreEditorState ex_polls (\<lambda>k. 2 \<le> k) (Some ex_range)
       = [Timeout 50, AnimationFrame, GetEditor, Command (SetTextSelection 2 5), Timeout 100,
          Command FocusEnd, Timeout 50, Command FocusEnd, Timeout 50]"
    by (simp add: poll_round_def focus_round_def eval_nat_numeral)
  from th2 n have r2: "restoreEditorState (\<lambda>k. None) (\<lambda>k. False) (Some ex_range)
                         = concat (replicate 10 poll_round)"
    by blast
  from sr a b r r2 show ?thesis by simp
qed

text \<open>
  The claim as stated fails for a plain cursor: the saved selection of \<open>n1\<close> is empty
  (both ends at offset 3), the editor is back at the first poll with a document of size
  5, and the restore sets no selection; it asks for focus at the end of the text.
\<close>

theorem forced_render_counterexample:
  "preserveEditorState ex_renderer ''n1'' = Some (snapshot_of ''n1'' ex_editor)
   \<and> sel_from (ps_selection (snapshot_of ''n1'' ex_editor)) = 3
   \<and> sel_to (ps_selection (snapshot_of ''n1'' ex_editor)) = 3
   \<and> usable (ex_polls 0) \<and> ed_docSize (the (ex_polls 0)) = 5
   \<and> restoreEditorState ex_polls (\<lambda>k. False) (Some (snapshot_of ''n1'' ex_editor))
       = [Timeout 50, AnimationFrame, GetEditor, Timeout 100,
          Command FocusEnd, Timeout 50, Command FocusEnd, Timeout 50, Command FocusEnd, Timeout 50]"
  by (simp add: preserveEditorState_def snapshot_of_def restoreEditorState_def awaitEditor.simps
        focusRetry.simps usable_def ex_polls_def ex_defs)

section \<open>The content written by a remote event\<close>


lemma mount_content_Some:
  assumes "mount_content env cap e = Some c"
  shows "label_or_empty (np_data (uc_remoteNode cap)) \<noteq> []
       \<and> c = nfc env (label_or_empty (np_data (uc_remoteNode cap)))
       \<and> js_trim (ws env) c \<noteq> []"
  using assms by (auto simp: mount_content_def Let_def split: if_splits)

lemma mounted_content_Some:
  assumes "mounted_content env cap (r_nodes r) e = Some c" and "d3Renderer st = Some r"
  defines "l \<equiv> (if label_or_empty (np_data (uc_remoteNode cap)) = []
                 then renderer_label_or_empty st (np_id (uc_remoteNode cap))
                 else label_or_empty (np_data (uc_remoteNode cap)))"
  shows "l \<noteq> [] \<and> js_trim (ws env) (nfc env l) \<noteq> []
           \<and> (c = nfc env l \<or> 2 < imageCount env (nfc env l) \<and> c = rebuild env (nfc env l))"
proof -
  let ?l0 = "label_or_empty (np_data (uc_remoteNode cap))"
  have l1: "(if ?l0 = []
             then (case find (\<lambda>n. el_id n = np_id (uc_remoteNode cap)) (r_nodes r) of
                          None \<Rightarrow> [] | Some d3Node \<Rightarrow> label_or_empty (el_data d3Node))
             else ?l0) = l"
    using assms(2)
    by (auto simp: l_def renderer_label_or_empty_def renderer_label_def label_or_empty_def split: option.splits)
  from assms(1) show ?thesis
    unfolding mounted_content_def Let_def l1 by (auto split: if_splits)
qed

lemma content_writes_log:
  "content_writes st (log_effect (SetContent i c) st) = [(i, c)]"
  by (simp add: content_writes_def new_effects_def log_effect_def List.map_filter_simps)

lemma content_writes_log_mount:
  "content_writes st (log_effect (SetContent i c) (log_effect (MountEditor j t) st)) = [(i, c)]"
  by (simp add: content_writes_def new_effects_def log_effect_def List.map_filter_simps)

lemma content_writes_mount:
  "content_writes st (log_effect (MountEditor j t) st) = []"
  by (simp add: content_writes_def new_effects_def log_effect_def List.map_filter_simps)

lemma content_writes_self: "content_writes st st = []"
  by (simp add: content_writes_def new_effects_def List.map_filter_simps)

lemmas content_writes_simps =
  content_writes_log content_writes_log_mount content_writes_mount content_writes_self

lemma contentTimer_writes:
  assumes "(i, c) \<in> set (content_writes st (contentTimer env ob cap st))"
  shows "i = np_id (uc_remoteNode cap)
       \<and> \<not> blank env (label_source ob cap st)
       \<and> (c = nfc env (label_source ob cap st)
          \<or> 2 < imageCount env (nfc env (label_source ob cap st))
            \<and> c = rebuild env (nfc env (label_source ob cap st)))"
proof (cases "d3Renderer st")
  case None
  with assms show ?thesis
    by (simp add: contentTimer_def content_writes_simps split: if_splits)
next
  case (Some r)
  show ?thesis
  proof (cases "editor_mounted ob")
    case True
    then have m: "\<not> (\<not> ob_containerHasChildren ob \<and> ob_containerExists ob)"
      by (auto simp: editor_mounted_def)
    from assms Some m obtain c' where
      c': "mounted_content env cap (r_nodes r) (checkAndSetContent (ob_polls ob) 0) = Some c'"
      and ic: "(i, c) = (np_id (uc_remoteNode cap), c')"
      by (auto simp: contentTimer_def Let_def content_writes_simps split: if_splits option.splits)
    from mounted_content_Some[OF c' Some] ic True show ?thesis
      by (auto simp: label_source_def blank_def Let_def)
  next
    case False
    then have m: "\<not> ob_containerHasChildren ob \<and> ob_containerExists ob"
      by (auto simp: editor_mounted_def)
    from assms Some m obtain c' where
      c': "mount_content env cap (ob_readyEditor ob) = Some c'"
      and ic: "(i, c) = (np_id (uc_remoteNode cap), c')"
      by (auto simp: contentTimer_def Let_def content_writes_simps split: if_splits option.splits)
    from mount_content_Some[OF c'] ic False show ?thesis
      by (auto simp: label_source_def blank_def Let_def)
  qed
qed

text \<open>
  C10, as the content timer has it. Every \<open>setContent\<close> that the timer of a
  \<open>NodeUpdated\<close> event logs is for the event's node, and its argument is the normalized
  label the step works with (or, with more than two images in it, the content rebuilt from
  that), which is neither empty nor white space only. That label is the event's; when the
  event has none and the editor was mounted before the timer fired, it is the label of the
  renderer's node. When this label is blank, nothing is written.
\<close>

theorem content_never_blank:
  "(blank env (label_source ob cap st) \<longrightarrow> content_writes st (contentTimer env ob cap st) = [])
   \<and> (\<forall>(i, c) \<in> set (content_writes st (contentTimer env ob cap st)).
        i = np_id (uc_remoteNode cap)
        \<and> \<not> blank env (label_source ob cap st)
        \<and> (c = nfc env (label_source ob cap st)
           \<or> 2 < imageCount env (nfc env (label_source ob cap st))
             \<and> c = rebuild env (nfc env (label_source ob cap st))))"
proof (intro conjI impI)
  assume b: "blank env (label_source ob cap st)"
  show "content_writes st (contentTimer env ob cap st) = []"
  proof (rule ccontr)
    assume "content_writes st (contentTimer env ob cap st) \<noteq> []"
    then obtain i c where "(i, c) \<in> set (content_writes st (contentTimer env ob cap st))"
      by (cases "content_writes st (contentTimer env ob cap st)") auto
    from contentTimer_writes[OF this] b show False by simp
  qed
next
  show "\<forall>(i, c) \<in> set (content_writes st (contentTimer env ob cap st)).
        i = np_id (uc_remoteNode cap)
        \<and> \<not> blank env (label_source ob cap st)
        \<and> (c = nfc env (label_source ob cap st)
           \<or> 2 < imageCount env (nfc env (label_source ob cap st))
             \<and> c = rebuild env (nfc env (label_source ob cap st)))"
    using contentTimer_writes by blast
qed


lemmas content_defs = contentTimer_def content_guard_def mounted_content_def mount_content_def
  checkAndSetContent.simps usable_def js_trim_def label_or_empty_def content_writes_def
  List.map_filter_simps blank_def label_source_def editor_mounted_def renderer_label_or_empty_def
  ex_env_def ex_obs_def ex_selected_def ex_completed_only_def

lemma ex_selected_cap_eval:
  "uc_remoteNode ex_selected_cap = \<lparr>np_id = ''n3'', np_data = Some (empty_data\<lparr>d_completed := Some True\<rparr>)\<rparr>"
  "uc_isNodeBeingEdited ex_selected_cap = False"
  by (simp_all add: ex_selected_cap_def ex_selected_def ex_completed_only_def update_defs common_defs ex_defs)

lemma ex_blank_cap_eval:
  "uc_remoteNode ex_blank_cap = mk_patch ''n3'' ''  ''"
  "uc_isNodeBeingEdited ex_blank_cap = False"
  by (simp_all add: ex_blank_cap_def ex_selected_def update_defs common_defs ex_defs)

text \<open>
  An event for \<open>n3\<close> with a label of two spaces writes nothing; an event without a label
  writes the renderer's label \<open>C\<close>.
\<close>

theorem content_never_blank_witness:
  "blank ex_env (label_source ex_obs ex_blank_cap ex_selected)
   \<and> content_writes ex_selected (contentTimer ex_env ex_obs ex_blank_cap ex_selected) = []
   \<and> content_writes ex_selected (contentTimer ex_env ex_obs ex_selected_cap ex_selected) = [(''n3'', ''C'')]
   \<and> label_source ex_obs ex_selected_cap ex_selected = ''C''
   \<and> \<not> blank ex_env (label_source ex_obs ex_selected_cap ex_selected)"
proof -
  have b: "blank ex_env (label_source ex_obs ex_blank_cap ex_selected)"
    by (simp add: ex_blank_cap_eval content_defs common_defs ex_defs)
  have w: "content_writes ex_selected (contentTimer ex_env ex_obs ex_selected_cap ex_selected) = [(''n3'', ''C'')]"
    by (simp add: ex_selected_cap_eval content_defs new_effects_def common_defs ex_defs)
  have l: "label_source ex_obs ex_selected_cap ex_selected = ''C''"
    by (simp add: ex_selected_cap_eval content_defs common_defs ex_defs)
  from content_never_blank[of ex_env ex_obs ex_blank_cap ex_selected] b
  have e: "content_writes ex_selected (contentTimer ex_env ex_obs ex_blank_cap ex_selected) = []"
    by simp
  from content_never_blank[of ex_env ex_obs ex_selected_cap ex_selected] w
  have n: "\<not> blank ex_env (label_source ex_obs ex_selected_cap ex_selected)"
    by simp
  from b e w l n show ?thesis by simp
qed

text \<open>
  The user has \<open>n3\<close> selected while editing \<open>n1\<close>. An event for \<open>n3\<close> that carries
  \<open>completed\<close> and no label sets the timers, and the content timer then calls
  \<open>setContent\<close> on the editor of \<open>n3\<close> with the renderer's label: the write is not
  skipped.
\<close>

theorem content_skip_counterexample:
  "label_of (np_data (uc_remoteNode ex_selected_cap)) = None
   \<and> map_option (\<lambda>(s, f). (f, renderer_label s ''n3'', content_writes s (contentTimer ex_env ex_obs ex_selected_cap s)))
        (handleRealtimeNodeUpdate 1500 5 ex_selected (Some ex_completed_only))
       = Some (True, Some ''C'', [(''n3'', ''C'')])"
  by (simp add: ex_selected_cap_eval content_defs new_effects_def update_defs common_defs ex_defs)

section \<open>Deferred size updates and a node that has come under edit\<close>


lemma find_map_first:
  assumes "\<And>x. P x \<Longrightarrow> P (f x)"
  shows "find P (map_first P f xs) = map_option f (find P xs)"
  using assms by (induction xs) auto

lemma find_Some_iff_mem:
  "i \<in> set (map el_id xs) \<Longrightarrow> \<exists>el. find (\<lambda>el. el_id el = i) xs = Some el"
  by (induction xs) auto

lemma updateNodeSizeWithNewSize_active:
  "editingNode st = Some i \<Longrightarrow> updateNodeSizeWithNewSize i sz st = st"
  by (simp add: updateNodeSizeWithNewSize_def)

lemma calculateAndUpdateNodeSize_active:
  "editingNode st = Some i \<Longrightarrow> calculateAndUpdateNodeSize w sw sh i st = None"
  by (simp add: calculateAndUpdateNodeSize_def)

lemma sizeTimer_check_active:
  "editingNode st = Some (np_id (uc_remoteNode cap)) \<Longrightarrow> \<not> sizeTimer_check w cap st"
  by (simp add: sizeTimer_check_def)

lemma sizeTimer_write_renderer:
  assumes "d3Renderer st = Some r"
  shows "d3Renderer (sizeTimer_write h cap sz st) =
           Some (r\<lparr>nodeSizeCache := (nodeSizeCache r)(np_id (uc_remoteNode cap) \<mapsto> sz\<lparr>height := h\<rparr>),
                    r_nodes := map_first (\<lambda>n. el_id n = np_id (uc_remoteNode cap)) (set_rect (sz\<lparr>height := h\<rparr>)) (r_nodes r),
                    r_dom := (r_dom r)(np_id (uc_remoteNode cap) \<mapsto> sz\<lparr>height := h\<rparr>),
                    positions := map_option (\<lambda>pos. pos(np_id (uc_remoteNode cap) := None)) (positions r)\<rparr>)"
  using assms by (simp add: sizeTimer_write_def Let_def)

text \<open>
  C9, as the size callbacks have it. When the node of the event has become the active edit
  node, \<open>updateNodeSizeWithNewSize\<close> and \<open>calculateAndUpdateNodeSize\<close> give up at
  their entry, and so does the size timer when it fires; but the last callback of the size
  timer, which resumes some frames and 60 ms after the timer's own check, makes no check:
  it writes the size to \<open>nodeSizeCache\<close>, to the renderer's node and on screen, and
  drops the node's position, while the node is under edit.
\<close>

theorem size_timer_stale_write:
  assumes "d3Renderer st = Some r" and "editingNode st = Some (np_id (uc_remoteNode cap))"
  shows "size_cache (sizeTimer_write h cap sz st) (np_id (uc_remoteNode cap)) = Some (sz\<lparr>height := h\<rparr>)
       \<and> shown_size (sizeTimer_write h cap sz st) (np_id (uc_remoteNode cap)) = Some (sz\<lparr>height := h\<rparr>)
       \<and> (np_id (uc_remoteNode cap) \<in> set (map el_id (r_nodes r)) \<longrightarrow>
            renderer_rect (sizeTimer_write h cap sz st) (np_id (uc_remoteNode cap)) = Some (sz\<lparr>height := h\<rparr>))
       \<and> positions_of (sizeTimer_write h cap sz st)
            = map_option (\<lambda>pos. pos(np_id (uc_remoteNode cap) := None)) (positions r)
       \<and> editingNode (sizeTimer_write h cap sz st) = Some (np_id (uc_remoteNode cap))
       \<and> \<not> sizeTimer_check w cap st
       \<and> updateNodeSizeWithNewSize (np_id (uc_remoteNode cap)) sz st = st
       \<and> calculateAndUpdateNodeSize w sw sh (np_id (uc_remoteNode cap)) st = None"
proof -
  let ?i = "np_id (uc_remoteNode cap)"
  let ?s = "sizeTimer_write h cap sz st"
  note r = sizeTimer_write_renderer[OF assms(1), of h cap sz]
  have a: "size_cache ?s ?i = Some (sz\<lparr>height := h\<rparr>)"
    by (simp add: size_cache_def r)
  have b: "shown_size ?s ?i = Some (sz\<lparr>height := h\<rparr>)"
    by (simp add: shown_size_def r)
  have c: "renderer_rect ?s ?i = Some (sz\<lparr>height := h\<rparr>)" if "?i \<in> set (map el_id (r_nodes r))"
  proof -
    from find_Some_iff_mem[OF that] obtain el where el: "find (\<lambda>el. el_id el = ?i) (r_nodes r) = Some el"
      by blast
    have "find (\<lambda>n. el_id n = ?i) (map_first (\<lambda>n. el_id n = ?i) (set_rect (sz\<lparr>height := h\<rparr>)) (r_nodes r))
            = Some (set_rect (sz\<lparr>height := h\<rparr>) el)"
      by (subst find_map_first) (simp_all add: set_rect_def el)
    then show ?thesis
      by (simp add: renderer_rect_def r set_rect_def rect_truthy_def)
  qed
  have d: "positions_of ?s = map_option (\<lambda>pos. pos(?i := None)) (positions r)"
    by (simp add: positions_of_def r)
  have e: "editingNode ?s = Some ?i"
    using assms by (simp add: sizeTimer_write_def Let_def)
  from a b c d e sizeTimer_check_active[OF assms(2)] updateNodeSizeWithNewSize_active[OF assms(2)]
    calculateAndUpdateNodeSize_active[OF assms(2)]
  show ?thesis by simp
qed


lemmas size_defs = sizeTimer_check_def sizeTimer_width_def sizeTimer_write_def size_cache_def
  shown_size_def renderer_rect_def store_rect_def positions_of_def startEditing_def
  set_rect_def set_vue_rect_def hasImages_def singleLineHeight_def js_trim_def label_or_empty_def
  ex_sized_def ex_sized_renderer_def ex_size_event_def ex_estimate_def ex_env_def

lemma ex_size_cap_eval:
  "uc_remoteNode ex_size_cap = mk_patch ''n3'' ''a longer label''"
  by (simp add: ex_size_cap_def ex_sized_def ex_size_event_def update_defs common_defs ex_defs)

text \<open>
  The user has begun to edit \<open>n3\<close>: the last callback of the size timer replaces the
  cached size 130 x 43 of \<open>n3\<close> with 200 x 60, where \<open>updateNodeSizeWithNewSize\<close>
  changes nothing.
\<close>

theorem size_timer_stale_write_witness:
  "d3Renderer (startEditing ''n3'' ex_sized) = Some ex_sized_renderer
   \<and> editingNode (startEditing ''n3'' ex_sized) = Some (np_id (uc_remoteNode ex_size_cap))
   \<and> np_id (uc_remoteNode ex_size_cap) \<in> set (map el_id (r_nodes ex_sized_renderer))
   \<and> size_cache (startEditing ''n3'' ex_sized) ''n3'' = Some \<lparr>width = 130, height = 43\<rparr>
   \<and> size_cache (sizeTimer_write 60 ex_size_cap \<lparr>width = 200, height = 43\<rparr> (startEditing ''n3'' ex_sized)) ''n3''
        = Some \<lparr>width = 200, height = 60\<rparr>
   \<and> shown_size (sizeTimer_write 60 ex_size_cap \<lparr>width = 200, height = 43\<rparr> (startEditing ''n3'' ex_sized)) ''n3''
        = Some \<lparr>width = 200, height = 60\<rparr>
   \<and> renderer_rect (sizeTimer_write 60 ex_size_cap \<lparr>width = 200, height = 43\<rparr> (startEditing ''n3'' ex_sized)) ''n3''
        = Some \<lparr>width = 200, height = 60\<rparr>
   \<and> updateNodeSizeWithNewSize ''n3'' \<lparr>width = 200, height = 43\<rparr> (startEditing ''n3'' ex_sized)
        = startEditing ''n3'' ex_sized"
proof -
  have i: "np_id (uc_remoteNode ex_size_cap) = ''n3''"
    by (simp add: ex_size_cap_eval mk_patch_def)
  have p1: "d3Renderer (startEditing ''n3'' ex_sized) = Some ex_sized_renderer"
    by (simp add: startEditing_def ex_sized_def)
  have p2: "editingNode (startEditing ''n3'' ex_sized) = Some (np_id (uc_remoteNode ex_size_cap))"
    by (simp add: i startEditing_def)
  have p3: "np_id (uc_remoteNode ex_size_cap) \<in> set (map el_id (r_nodes ex_sized_renderer))"
    by (simp add: i ex_sized_renderer_def ex_defs)
  have c: "size_cache (startEditing ''n3'' ex_sized) ''n3'' = Some \<lparr>width = 130, height = 43\<rparr>"
    by (simp add: size_cache_def startEditing_def ex_sized_def ex_sized_renderer_def)
  from size_timer_stale_write[OF p1 p2, of 60 "\<lparr>width = 200, height = 43\<rparr>" "ws ex_env" 100 43]
    p1 p2 p3 c
  show ?thesis by (simp add: i)
qed

text \<open>
  The whole run. The event for \<open>n3\<close> arrives while the user edits \<open>n1\<close>; the timers
  are set; the size timer fires and passes its check; the width is written; the user then
  starts to edit \<open>n3\<close>; the last callback still writes the size 200 x 60 to the cache,
  the node and the screen, and drops the position of \<open>n3\<close>.
\<close>

theorem size_timer_counterexample:
  "map_option (\<lambda>(s, f).
      (f, sizeTimer_check (ws ex_env) ex_size_cap s,
       map_option (\<lambda>(s1, sz).
           (editingNode (startEditing ''n3'' s1),
            size_cache (startEditing ''n3'' s1) ''n3'',
            shown_size (startEditing ''n3'' s1) ''n3'',
            renderer_rect (startEditing ''n3'' s1) ''n3'',
            map_option (\<lambda>pos. pos ''n3'') (positions_of (startEditing ''n3'' s1)),
            size_cache (sizeTimer_write 60 ex_size_cap sz (startEditing ''n3'' s1)) ''n3'',
            shown_size (sizeTimer_write 60 ex_size_cap sz (startEditing ''n3'' s1)) ''n3'',
            renderer_rect (sizeTimer_write 60 ex_size_cap sz (startEditing ''n3'' s1)) ''n3'',
            map_option (\<lambda>pos. pos ''n3'') (positions_of (sizeTimer_write 60 ex_size_cap sz (startEditing ''n3'' s1)))))
         (sizeTimer_width ex_estimate ex_size_cap s)))
    (handleRealtimeNodeUpdate 1500 5 ex_sized (Some ex_size_event))
   = Some (True, True,
       Some (Some ''n3'', None, Some \<lparr>width = 200, height = 43\<rparr>, None, Some (Some (400, 0)),
             Some \<lparr>width = 200, height = 60\<rparr>, Some \<lparr>width = 200, height = 60\<rparr>,
             Some \<lparr>width = 200, height = 60\<rparr>, Some None))"
  by (simp add: ex_size_cap_eval size_defs update_defs common_defs ex_defs)

end
